theory Spec2Isabelle
  imports Main "HOL-Library.AList" "HOL-Library.Char_ord" "HOL-Library.List_Lexorder"
    "HOL-Library.Sublist"
begin

section \<open>The fail-to-pass checker of \<^verbatim>\<open>scripts/f2p_from_swegent_bundle.py\<close>\<close>

subsection \<open>Python values and strings\<close>

text \<open>
  Values that the script reads from and writes to JSON. A dict is an association list in
  insertion order; \<^verbatim>\<open>d.get(k)\<close> gives \<^verbatim>\<open>None\<close> for a missing key. A string is
  a list of characters with code points below 256, compared by code point as Python
  compares strings.
\<close>

datatype jval =
    JNull
  | JBool bool
  | JInt int
  | JStr string
  | JList "jval list"
  | JDict "(string \<times> jval) list"

type_synonym dict = "(string \<times> jval) list"

text \<open>\<^verbatim>\<open>bool(x)\<close>: Python's truth value of a JSON value.\<close>

fun truthy :: "jval \<Rightarrow> bool" where
  "truthy JNull = False"
| "truthy (JBool b) = b"
| "truthy (JInt i) = (i \<noteq> 0)"
| "truthy (JStr s) = (s \<noteq> [])"
| "truthy (JList xs) = (xs \<noteq> [])"
| "truthy (JDict kvs) = (kvs \<noteq> [])"

definition dict_get :: "dict \<Rightarrow> string \<Rightarrow> jval" where
  "dict_get d k = (case map_of d k of None \<Rightarrow> JNull | Some v \<Rightarrow> v)"

text \<open>
  \<^verbatim>\<open>{**meta, k1: v1, ...}\<close>: the entries of \<^verbatim>\<open>meta\<close>, then each further
  key stored in turn (a key already present keeps its place and takes the new value).
\<close>

definition dict_extend :: "dict \<Rightarrow> dict \<Rightarrow> dict" where
  "dict_extend d kvs = fold (\<lambda>(k, v). AList.update k v) kvs d"

definition opt_str :: "string option \<Rightarrow> jval" where
  "opt_str s = (case s of None \<Rightarrow> JNull | Some t \<Rightarrow> JStr t)"

definition opt_int :: "int option \<Rightarrow> jval" where
  "opt_int i = (case i of None \<Rightarrow> JNull | Some n \<Rightarrow> JInt n)"

text \<open>\<^verbatim>\<open>str(n)\<close> for an integer: decimal digits, a minus sign when negative.\<close>

definition digit_char :: "nat \<Rightarrow> char" where
  "digit_char n = char_of (48 + n)"

fun str_nat :: "nat \<Rightarrow> string" where
  "str_nat n = (if n < 10 then [digit_char n] else str_nat (n div 10) @ [digit_char (n mod 10)])"

declare str_nat.simps [simp del]

definition str_int :: "int \<Rightarrow> string" where
  "str_int i = (if i < 0 then CHR ''-'' # str_nat (nat (- i)) else str_nat (nat i))"

text \<open>
  \<^verbatim>\<open>str.isspace\<close> on one character (code points below 256), \<^verbatim>\<open>str.strip()\<close>,
  \<^verbatim>\<open>str.split()\<close> and \<^verbatim>\<open>str.lower()\<close>.
\<close>

definition py_isspace :: "char \<Rightarrow> bool" where
  "py_isspace c = ((of_char c :: nat) \<in> {9, 10, 11, 12, 13, 28, 29, 30, 31, 32, 133, 160})"

definition py_strip :: "string \<Rightarrow> string" where
  "py_strip s = rev (dropWhile py_isspace (rev (dropWhile py_isspace s)))"

fun split_acc :: "string \<Rightarrow> string \<Rightarrow> string list" where
  "split_acc cur [] = (if cur = [] then [] else [cur])"
| "split_acc cur (c # cs) =
     (if py_isspace c then (if cur = [] then split_acc [] cs else cur # split_acc [] cs)
      else split_acc (cur @ [c]) cs)"

definition py_split :: "string \<Rightarrow> string list" where
  "py_split s = split_acc [] s"

definition lower_char :: "char \<Rightarrow> char" where
  "lower_char c =
     (let n = (of_char c :: nat)
      in if (65 \<le> n \<and> n \<le> 90) \<or> (192 \<le> n \<and> n \<le> 222 \<and> n \<noteq> 215) then char_of (n + 32) else c)"

definition py_lower :: "string \<Rightarrow> string" where
  "py_lower s = map lower_char s"

definition startswith :: "string \<Rightarrow> string \<Rightarrow> bool" where
  "startswith s pre = (take (length pre) s = pre)"

subsection \<open>Time stamps and run identifiers\<close>

text \<open>
  \<^verbatim>\<open>datetime.now(timezone.utc).strftime("%Y%m%dT%H%M%SZ")\<close>: the clock reading is a
  record; the format prints year, month, day, hour, minute and second, zero padded, and
  nothing below the second.
\<close>

record datetime =
  dt_year :: nat
  dt_month :: nat
  dt_day :: nat
  dt_hour :: nat
  dt_minute :: nat
  dt_second :: nat
  dt_microsecond :: nat

definition two_digits :: "nat \<Rightarrow> string" where
  "two_digits n = [digit_char (n div 10 mod 10), digit_char (n mod 10)]"

definition four_digits :: "nat \<Rightarrow> string" where
  "four_digits n = two_digits (n div 100) @ two_digits (n mod 100)"

definition strftime_stamp :: "datetime \<Rightarrow> string" where
  "strftime_stamp t =
     four_digits (dt_year t) @ two_digits (dt_month t) @ two_digits (dt_day t) @ ''T'' @
     two_digits (dt_hour t) @ two_digits (dt_minute t) @ two_digits (dt_second t) @ ''Z''"

text \<open>
  \<^verbatim>\<open>run_id = f"issue_{issue_number}-{ts}" if issue_number else f"bundle-{ts}"\<close>:
  the issue number is falsy when it is absent or zero.
\<close>

definition make_run_id :: "int option \<Rightarrow> string \<Rightarrow> string" where
  "make_run_id issue_number ts =
     (case issue_number of
        None \<Rightarrow> ''bundle-'' @ ts
      | Some n \<Rightarrow> if n \<noteq> 0 then ''issue_'' @ str_int n @ ''-'' @ ts else ''bundle-'' @ ts)"

subsection \<open>Repository identifier from the issue URL\<close>

datatype exn = ValueError | FileNotFoundError | JSONDecodeError | TimeoutExpired | OSError

text \<open>
  \<^verbatim>\<open>re.search(r"github\.com/([^/]+/[^/]+)/(?:issues|pull)/\d+", url or "")\<close>.
  \<open>match_lit\<close> consumes a literal. \<open>match_repo_at\<close> is the pattern anchored at the
  start of its argument, piece by piece: each greedy \<^verbatim>\<open>[^/]+\<close> is followed by a
  literal slash, so backtracking to a shorter run cannot help and only the whole run of
  non-slash characters can match; the alternatives issues and pull exclude each other;
  \<^verbatim>\<open>\d+\<close> ends the pattern. The result is group 1. \<open>re_search\<close> tries each
  start position from the left, as \<^verbatim>\<open>re.search\<close> does.
\<close>

fun match_lit :: "string \<Rightarrow> string \<Rightarrow> string option" where
  "match_lit [] s = Some s"
| "match_lit (p # ps) [] = None"
| "match_lit (p # ps) (c # cs) = (if p = c then match_lit ps cs else None)"

definition non_slash :: "char \<Rightarrow> bool" where
  "non_slash c = (c \<noteq> CHR ''/'')"

definition is_digit :: "char \<Rightarrow> bool" where
  "is_digit c = (48 \<le> (of_char c :: nat) \<and> (of_char c :: nat) \<le> 57)"

definition match_kind :: "string \<Rightarrow> string option" where
  "match_kind s =
     (case match_lit ''issues'' s of Some r \<Rightarrow> Some r | None \<Rightarrow> match_lit ''pull'' s)"

text \<open>A greedy, non-empty run of characters of a class, and what follows it.\<close>

definition match_plus :: "(char \<Rightarrow> bool) \<Rightarrow> string \<Rightarrow> (string \<times> string) option" where
  "match_plus cls s =
     (if takeWhile cls s = [] then None else Some (takeWhile cls s, dropWhile cls s))"

text \<open>Group 1, \<^verbatim>\<open>[^/]+/[^/]+\<close>, with what follows it.\<close>

definition match_owner_repo :: "string \<Rightarrow> (string \<times> string) option" where
  "match_owner_repo s1 =
     Option.bind (match_plus non_slash s1) (\<lambda>(owner, s2).
     Option.bind (match_lit ''/'' s2) (\<lambda>s3.
     Option.bind (match_plus non_slash s3) (\<lambda>(repo, s4).
       Some (owner @ ''/'' @ repo, s4))))"

text \<open>The rest of the pattern, \<^verbatim>\<open>/(?:issues|pull)/\d+\<close>.\<close>

definition match_issue_tail :: "string \<Rightarrow> string option" where
  "match_issue_tail s4 =
     Option.bind (match_lit ''/'' s4) (\<lambda>s5.
     Option.bind (match_kind s5) (\<lambda>s6.
     Option.bind (match_lit ''/'' s6) (\<lambda>s7.
     Option.bind (match_plus is_digit s7) (\<lambda>(digits, s8). Some s8))))"

definition match_repo_at :: "string \<Rightarrow> string option" where
  "match_repo_at s =
     Option.bind (match_lit ''github.com/'' s) (\<lambda>s1.
     Option.bind (match_owner_repo s1) (\<lambda>(g, s4).
     Option.bind (match_issue_tail s4) (\<lambda>_. Some g)))"

fun re_search :: "string \<Rightarrow> string option" where
  "re_search [] = match_repo_at []"
| "re_search (c # cs) =
     (case match_repo_at (c # cs) of Some g \<Rightarrow> Some g | None \<Rightarrow> re_search cs)"

definition parse_repo_from_issue_url :: "string \<Rightarrow> exn + string" where
  "parse_repo_from_issue_url url =
     (case re_search url of None \<Rightarrow> Inl ValueError | Some g \<Rightarrow> Inr g)"

text \<open>
  The two URL forms the properties speak of. The specification's form is
  \<^verbatim>\<open>.../<owner>/<repo>/(issues|pull)/<number>\<close>: any prefix, then the four
  segments. The form the pattern of the source looks for has the literal
  \<^verbatim>\<open>github.com/\<close> before the owner and asks one digit of the number.
\<close>

definition segment :: "string \<Rightarrow> bool" where
  "segment s = (s \<noteq> [] \<and> CHR ''/'' \<notin> set s)"

definition is_kind :: "string \<Rightarrow> bool" where
  "is_kind k = (k = ''issues'' \<or> k = ''pull'')"

definition spec_issue_url :: "string \<Rightarrow> string \<Rightarrow> string \<Rightarrow> string \<Rightarrow> string \<Rightarrow> string" where
  "spec_issue_url pre owner repo kind num =
     pre @ ''/'' @ owner @ ''/'' @ repo @ ''/'' @ kind @ ''/'' @ num"

definition spec_form_ok :: "string \<Rightarrow> string \<Rightarrow> string \<Rightarrow> string \<Rightarrow> bool" where
  "spec_form_ok owner repo kind num =
     (segment owner \<and> segment repo \<and> is_kind kind \<and> num \<noteq> [] \<and> list_all is_digit num)"

definition github_url :: "string \<Rightarrow> string \<Rightarrow> string \<Rightarrow> string \<Rightarrow> char \<Rightarrow> string \<Rightarrow> string" where
  "github_url pre owner repo kind d rest =
     pre @ ''github.com/'' @ owner @ ''/'' @ repo @ ''/'' @ kind @ ''/'' @ d # rest"

definition github_form_ok :: "string \<Rightarrow> string \<Rightarrow> string \<Rightarrow> char \<Rightarrow> bool" where
  "github_form_ok owner repo kind d =
     (segment owner \<and> segment repo \<and> is_kind kind \<and> is_digit d)"

subsection \<open>Outcome classifier\<close>

text \<open>
  \<^verbatim>\<open>_classify(before_ok, after_ok)\<close>: four guarded returns in the order of the
  source, and the final \<^verbatim>\<open>return "error"\<close>.
\<close>

definition classify :: "bool \<Rightarrow> bool \<Rightarrow> string" where
  "classify before_ok after_ok =
     (if (\<not> before_ok) \<and> after_ok then ''fail2pass''
      else if (\<not> before_ok) \<and> (\<not> after_ok) then ''fail2fail''
      else if before_ok \<and> after_ok then ''pass2pass''
      else if before_ok \<and> (\<not> after_ok) then ''pass2fail''
      else ''error'')"


subsection \<open>The outside world, events and aborts\<close>

text \<open>
  \<^verbatim>\<open>RunResult\<close>, the issue descriptor as the bundle layout types it (a missing or
  null field is \<open>None\<close>), the parsed command line, and everything the script asks of
  its environment (\<open>shutil_copy2\<close> gives the exception \<^verbatim>\<open>shutil.copy2\<close> raises for
  a source and a destination, if any). A path is its text; a bundle file is its directory
  and its name.
\<close>

type_synonym path = string

type_synonym pfile = "path \<times> string"

definition path_str :: "pfile \<Rightarrow> path" where
  "path_str p = fst p @ ''/'' @ snd p"

definition joinpath :: "path \<Rightarrow> string \<Rightarrow> path" where
  "joinpath d n = d @ ''/'' @ n"

record run_result =
  ok :: bool
  exit_code :: int
  stdout :: string
  stderr :: string

record linked_pr =
  base_sha :: "string option"
  head_sha :: "string option"
  patch :: "string option"

record issue =
  number :: "int option"
  url :: "string option"
  linked_prs :: "linked_pr list option"

record args =
  bundle_dir :: path
  work_dir :: path
  keep_workdir :: bool
  pytest_args :: string
  timeout_build :: int
  timeout_test :: int

record world =
  resolve :: "path \<Rightarrow> path"
  path_exists :: "path \<Rightarrow> bool"
  which :: "string \<Rightarrow> bool"
  listdir :: "path \<Rightarrow> string list"
  load_json :: "path \<Rightarrow> exn + issue"
  utcnow :: datetime
  shutil_copy2 :: "path \<Rightarrow> path \<Rightarrow> exn option"
  subprocess_run :: "string list \<Rightarrow> path \<Rightarrow> int \<Rightarrow> exn + (int \<times> string \<times> string)"

text \<open>
  What a run does to the outside, in order: commands started (with working directory and
  timeout), files written, directories made, copies attempted, lines printed. Writing a
  file under the run root and making the run root are taken to succeed; a copy can raise
  (the world says which); a JSON file is recorded by the dict it serialises.
\<close>

datatype event =
    Exec "string list" path int
  | WriteText path string
  | WriteJson path dict
  | Mkdir path
  | Copy path path
  | Print string
  | PrintErr string

text \<open>
  A run ends early by \<^verbatim>\<open>sys.exit(code)\<close> or by an exception nobody catches (the
  interpreter then exits with status 1); it ends normally with status 0.
\<close>

datatype abort = SystemExit nat | Uncaught exn

type_synonym 'a io = "event list \<times> (abort + 'a)"

definition io_return :: "'a \<Rightarrow> 'a io" where
  "io_return x = ([], Inr x)"

fun io_bind :: "'a io \<Rightarrow> ('a \<Rightarrow> 'b io) \<Rightarrow> 'b io" where
  "io_bind (tr, Inl a) f = (tr, Inl a)"
| "io_bind (tr, Inr x) f = (case f x of (tr', r) \<Rightarrow> (tr @ tr', r))"

definition emit :: "event \<Rightarrow> unit io" where
  "emit e = ([e], Inr ())"

definition raise :: "exn \<Rightarrow> 'a io" where
  "raise e = ([], Inl (Uncaught e))"

definition lift_exn :: "exn + 'a \<Rightarrow> 'a io" where
  "lift_exn r = (case r of Inl e \<Rightarrow> raise e | Inr x \<Rightarrow> io_return x)"

text \<open>\<^verbatim>\<open>_die(msg)\<close>: print to the error stream, \<^verbatim>\<open>sys.exit(2)\<close>.\<close>

definition die :: "string \<Rightarrow> 'a io" where
  "die msg = ([PrintErr msg], Inl (SystemExit 2))"

text \<open>\<^verbatim>\<open>try: ... except Exception: pass\<close> (\<^verbatim>\<open>SystemExit\<close> is not an \<^verbatim>\<open>Exception\<close>).\<close>

definition try_pass :: "unit io \<Rightarrow> unit io" where
  "try_pass m = (case snd m of Inl (Uncaught e) \<Rightarrow> (fst m, Inr ()) | _ \<Rightarrow> m)"

definition exit_status :: "abort + unit \<Rightarrow> nat" where
  "exit_status r = (case r of Inr u \<Rightarrow> 0 | Inl (SystemExit n) \<Rightarrow> n | Inl (Uncaught e) \<Rightarrow> 1)"

text \<open>
  \<^verbatim>\<open>_run(cmd, cwd, timeout_s)\<close>: \<^verbatim>\<open>subprocess.run\<close> either raises (a timeout) or
  gives a return code and the two captured streams; \<open>ok\<close> is return code zero.
\<close>

definition run_cmd :: "world \<Rightarrow> string list \<Rightarrow> path \<Rightarrow> int \<Rightarrow> run_result io" where
  "run_cmd w cmd cwd timeout_s =
     io_bind (emit (Exec cmd cwd timeout_s)) (\<lambda>_.
       case subprocess_run w cmd cwd timeout_s of
         Inl e \<Rightarrow> raise e
       | Inr (rc, out, err) \<Rightarrow>
           io_return \<lparr>ok = (rc = 0), exit_code = rc, stdout = out, stderr = err\<rparr>)"

subsection \<open>Bundle loader\<close>

text \<open>
  \<^verbatim>\<open>sorted(bundle_dir.glob("<pre>*<suf>"))\<close>: the names of the directory that start
  with \<open>pre\<close> and end with \<open>suf\<close> (the two not overlapping), in ascending order of
  the name.
\<close>

definition fnmatch_star :: "string \<Rightarrow> string \<Rightarrow> string \<Rightarrow> bool" where
  "fnmatch_star pre suf name =
     (length pre + length suf \<le> length name \<and> take (length pre) name = pre \<and>
      drop (length name - length suf) name = suf)"

definition sorted_glob :: "world \<Rightarrow> path \<Rightarrow> string \<Rightarrow> string \<Rightarrow> pfile list" where
  "sorted_glob w dir pre suf = map (Pair dir) (sort (filter (fnmatch_star pre suf) (listdir w dir)))"

definition load_issue_json :: "world \<Rightarrow> path \<Rightarrow> exn + issue" where
  "load_issue_json w dir =
     (case sorted_glob w dir ''issue_'' ''.json'' of
        [] \<Rightarrow> Inl FileNotFoundError
      | issue_json # _ \<Rightarrow> load_json w (path_str issue_json))"

definition pick_dockerfile :: "world \<Rightarrow> path \<Rightarrow> exn + pfile" where
  "pick_dockerfile w dir =
     (case sorted_glob w dir [] ''.dockerfile'' of
        [] \<Rightarrow> Inl FileNotFoundError
      | c # _ \<Rightarrow> Inr c)"

definition pick_tests :: "world \<Rightarrow> path \<Rightarrow> pfile list" where
  "pick_tests w dir =
     (let tests = sorted_glob w dir ''test'' ''.py''
      in if tests \<noteq> [] then tests
         else filter (\<lambda>p. \<not> startswith (snd p) ''issue_'') (sorted_glob w dir [] ''.py''))"

fun ensure_tools_loop :: "world \<Rightarrow> string list \<Rightarrow> unit io" where
  "ensure_tools_loop w [] = io_return ()"
| "ensure_tools_loop w (tool # tools) =
     (if \<not> which w tool
      then die (''Missing required tool: '' @ tool @ ''. Please install it first.'')
      else ensure_tools_loop w tools)"

definition ensure_tools :: "world \<Rightarrow> unit io" where
  "ensure_tools w = ensure_tools_loop w [''git'', ''docker'']"

subsection \<open>The stages of main\<close>

text \<open>
  The local variables of \<^verbatim>\<open>main\<close> that later stages read: what the bundle gave
  (lines 125 to 151), and the run's identifier, root and metadata (lines 153 to 169).
\<close>

record swe_bundle =
  b_bundle_dir :: path
  b_issue_number :: "int option"
  b_issue_url :: string
  b_repo :: string
  b_base_sha :: string
  b_head_sha :: "string option"
  b_patch_text :: string
  b_dockerfile_src :: pfile
  b_test_files :: "pfile list"

record run_ctx =
  run_id :: string
  run_root :: path
  meta :: dict

definition or_empty :: "string option \<Rightarrow> string" where
  "or_empty s = (case s of None \<Rightarrow> [] | Some t \<Rightarrow> t)"

text \<open>
  The checks on \<^verbatim>\<open>linked_prs\<close>: only its first record is read; a missing or empty
  base revision, or a patch that is missing or all whitespace, stops the run.
\<close>

definition select_pr :: "issue \<Rightarrow> linked_pr io" where
  "select_pr iss =
     (case (case linked_prs iss of None \<Rightarrow> [] | Some prs \<Rightarrow> prs) of
        [] \<Rightarrow> die ''issue_*.json has no linked_prs; cannot get base/head sha.''
      | pr0 # _ \<Rightarrow>
          if or_empty (base_sha pr0) = [] then die ''linked_prs[0] missing base_sha.''
          else if py_strip (or_empty (patch pr0)) = []
          then die ''linked_prs[0] missing patch text; cannot apply fix on top of base_sha.''
          else io_return pr0)"

definition load_bundle :: "world \<Rightarrow> args \<Rightarrow> swe_bundle io" where
  "load_bundle w a =
     (let bdir = resolve w (bundle_dir a)
      in if \<not> path_exists w bdir then die (''Bundle dir not found: '' @ bdir)
         else
           io_bind (ensure_tools w) (\<lambda>_.
           io_bind (lift_exn (load_issue_json w bdir)) (\<lambda>iss.
           io_bind (lift_exn (parse_repo_from_issue_url (or_empty (url iss)))) (\<lambda>repo.
           io_bind (select_pr iss) (\<lambda>pr0.
           io_bind (lift_exn (pick_dockerfile w bdir)) (\<lambda>dockerfile.
             let tests = pick_tests w bdir
             in if tests = [] then die (''No test*.py found under '' @ bdir)
                else io_return
                  \<lparr>b_bundle_dir = bdir, b_issue_number = number iss,
                   b_issue_url = or_empty (url iss), b_repo = repo,
                   b_base_sha = or_empty (base_sha pr0), b_head_sha = head_sha pr0,
                   b_patch_text = or_empty (patch pr0), b_dockerfile_src = dockerfile,
                   b_test_files = tests\<rparr>))))))"

definition make_meta :: "swe_bundle \<Rightarrow> string \<Rightarrow> dict" where
  "make_meta b rid =
     [(''run_id'', JStr rid),
      (''bundle_dir'', JStr (b_bundle_dir b)),
      (''repo'', JStr (b_repo b)),
      (''issue_url'', JStr (b_issue_url b)),
      (''issue_number'', opt_int (b_issue_number b)),
      (''base_sha'', JStr (b_base_sha b)),
      (''head_sha'', opt_str (b_head_sha b)),
      (''dockerfile'', JStr (snd (b_dockerfile_src b))),
      (''tests'', JList (map (\<lambda>p. JStr (snd p)) (b_test_files b)))]"

text \<open>
  Lines 153 to 169. \<open>new_run\<close> is what the assignments compute (time stamp, run
  identifier, run root, metadata); \<open>start_run\<close> makes the directory and writes
  \<^verbatim>\<open>meta.json\<close>.
\<close>

definition new_run :: "world \<Rightarrow> args \<Rightarrow> swe_bundle \<Rightarrow> run_ctx" where
  "new_run w a b =
     (let ts = strftime_stamp (utcnow w);
          rid = make_run_id (b_issue_number b) ts;
          root = resolve w (joinpath (work_dir a) rid)
      in \<lparr>run_id = rid, run_root = root, meta = make_meta b rid\<rparr>)"

definition start_run :: "world \<Rightarrow> args \<Rightarrow> swe_bundle \<Rightarrow> run_ctx io" where
  "start_run w a b =
     (let c = new_run w a b
      in io_bind (emit (Mkdir (run_root c))) (\<lambda>_.
         io_bind (emit (WriteJson (joinpath (run_root c) ''meta.json'') (meta c))) (\<lambda>_.
           io_return c)))"

definition repo_dir :: "run_ctx \<Rightarrow> path" where
  "repo_dir c = joinpath (run_root c) ''repo''"

definition base_dir :: "run_ctx \<Rightarrow> path" where
  "base_dir c = joinpath (run_root c) ''base''"

definition head_dir :: "run_ctx \<Rightarrow> path" where
  "head_dir c = joinpath (run_root c) ''head''"

definition patch_path :: "run_ctx \<Rightarrow> path" where
  "patch_path c = joinpath (run_root c) ''gold_patch.diff''"

text \<open>
  One git step: run the command, write its two streams under the run root, and die with
  the given message when the return code is not zero.
\<close>

definition git_step :: "world \<Rightarrow> run_ctx \<Rightarrow> string list \<Rightarrow> path \<Rightarrow> int \<Rightarrow> string \<Rightarrow> string \<Rightarrow> unit io" where
  "git_step w c cmd cwd timeout_s log msg =
     io_bind (run_cmd w cmd cwd timeout_s) (\<lambda>r.
     io_bind (emit (WriteText (joinpath (run_root c) (log @ ''.stdout.txt'')) (stdout r))) (\<lambda>_.
     io_bind (emit (WriteText (joinpath (run_root c) (log @ ''.stderr.txt'')) (stderr r))) (\<lambda>_.
       if \<not> ok r then die msg else io_return ())))"

text \<open>The five git commands of lines 171 to 211, as the source spells them.\<close>

definition clone_cmd :: "swe_bundle \<Rightarrow> run_ctx \<Rightarrow> string list" where
  "clone_cmd b c =
     [''git'', ''clone'', ''--no-checkout'', ''https://github.com/'' @ b_repo b @ ''.git'', repo_dir c]"

definition fetch_cmd :: "string list" where
  "fetch_cmd = [''git'', ''fetch'', ''--all'', ''--tags'']"

definition worktree_add_cmd :: "path \<Rightarrow> string \<Rightarrow> string list" where
  "worktree_add_cmd dir revision = [''git'', ''worktree'', ''add'', ''--detach'', dir, revision]"

definition apply_cmd :: "path \<Rightarrow> string list" where
  "apply_cmd p = [''git'', ''apply'', ''--whitespace=nowarn'', p]"

text \<open>Lines 171 to 211: clone, fetch, the patch file, the two worktrees, the patch.\<close>

definition provision :: "world \<Rightarrow> swe_bundle \<Rightarrow> run_ctx \<Rightarrow> unit io" where
  "provision w b c =
     io_bind (git_step w c (clone_cmd b c) (run_root c) 3600 ''git_clone''
        (''git clone failed (see logs under '' @ run_root c @ '')'')) (\<lambda>_.
     io_bind (git_step w c fetch_cmd (repo_dir c) 3600 ''git_fetch'' ''git fetch failed'') (\<lambda>_.
     io_bind (emit (WriteText (patch_path c) (b_patch_text b))) (\<lambda>_.
     io_bind (git_step w c (worktree_add_cmd (base_dir c) (b_base_sha b)) (repo_dir c) 600
        ''git_worktree_base'' ''git worktree add (base) failed'') (\<lambda>_.
     io_bind (git_step w c (worktree_add_cmd (head_dir c) (b_base_sha b)) (repo_dir c) 600
        ''git_worktree_head'' ''git worktree add (head) failed'') (\<lambda>_.
       git_step w c (apply_cmd (patch_path c)) (head_dir c) 300 ''git_apply_patch''
         ''git apply patch failed (see git_apply_patch.stderr.txt)'')))))"

text \<open>
  Lines 213 to 220: the dockerfile, then each test file, copied into a worktree. A copy
  that raises ends the run there (nothing catches it).
\<close>

definition copy2 :: "world \<Rightarrow> path \<Rightarrow> path \<Rightarrow> unit io" where
  "copy2 w src dst =
     io_bind (emit (Copy src dst)) (\<lambda>_.
       case shutil_copy2 w src dst of None \<Rightarrow> io_return () | Some e \<Rightarrow> raise e)"

fun copy_tests :: "world \<Rightarrow> path \<Rightarrow> pfile list \<Rightarrow> unit io" where
  "copy_tests w worktree [] = io_return ()"
| "copy_tests w worktree (t # ts) =
     io_bind (copy2 w (path_str t) (joinpath worktree (snd t))) (\<lambda>_. copy_tests w worktree ts)"

definition stage_bundle_into :: "world \<Rightarrow> swe_bundle \<Rightarrow> path \<Rightarrow> unit io" where
  "stage_bundle_into w b worktree =
     io_bind (copy2 w (path_str (b_dockerfile_src b)) (joinpath worktree (snd (b_dockerfile_src b)))) (\<lambda>_.
       copy_tests w worktree (b_test_files b))"

definition split_pytest_args :: "args \<Rightarrow> string list" where
  "split_pytest_args a =
     (if py_strip (pytest_args a) \<noteq> [] then py_split (py_strip (pytest_args a)) else [])"

definition image_name :: "run_ctx \<Rightarrow> string \<Rightarrow> string" where
  "image_name c label = py_lower (''swegent-f2p:'' @ run_id c @ ''-'' @ label)"

text \<open>
  \<^verbatim>\<open>build_and_test(label, worktree)\<close>: the build, its logs, the early return when the
  build failed, else the test run, its logs and the full outcome.
\<close>

definition docker_build_cmd :: "swe_bundle \<Rightarrow> string \<Rightarrow> string list" where
  "docker_build_cmd b img = [''docker'', ''build'', ''-t'', img, ''-f'', snd (b_dockerfile_src b), ''.'']"

definition docker_run_cmd :: "args \<Rightarrow> swe_bundle \<Rightarrow> string \<Rightarrow> string list" where
  "docker_run_cmd a b img =
     [''docker'', ''run'', ''--rm'', img, ''pytest''] @ split_pytest_args a @ map snd (b_test_files b)"

definition build_log :: "run_ctx \<Rightarrow> string \<Rightarrow> string \<Rightarrow> path" where
  "build_log c label stream = joinpath (run_root c) (''docker_build_'' @ label @ stream)"

definition pytest_log :: "run_ctx \<Rightarrow> string \<Rightarrow> string \<Rightarrow> path" where
  "pytest_log c label stream = joinpath (run_root c) (''pytest_'' @ label @ stream)"

definition build_and_test :: "world \<Rightarrow> args \<Rightarrow> swe_bundle \<Rightarrow> run_ctx \<Rightarrow> string \<Rightarrow> path \<Rightarrow> dict io" where
  "build_and_test w a b c label worktree =
     (let image = image_name c label
      in io_bind (run_cmd w (docker_build_cmd b image) worktree (timeout_build a)) (\<lambda>bld.
         io_bind (emit (WriteText (build_log c label ''.stdout.txt'') (stdout bld))) (\<lambda>_.
         io_bind (emit (WriteText (build_log c label ''.stderr.txt'') (stderr bld))) (\<lambda>_.
           if \<not> ok bld
           then io_return
             [(''label'', JStr label), (''image'', JStr image), (''build_ok'', JBool False),
              (''test_ok'', JBool False), (''build_exit'', JInt (exit_code bld)),
              (''test_exit'', JNull)]
           else
             io_bind (run_cmd w (docker_run_cmd a b image) worktree (timeout_test a)) (\<lambda>t.
             io_bind (emit (WriteText (pytest_log c label ''.stdout.txt'') (stdout t))) (\<lambda>_.
             io_bind (emit (WriteText (pytest_log c label ''.stderr.txt'') (stderr t))) (\<lambda>_.
               io_return
                 [(''label'', JStr label), (''image'', JStr image), (''build_ok'', JBool True),
                  (''test_ok'', JBool (ok t)), (''build_exit'', JInt (exit_code bld)),
                  (''test_exit'', JInt (exit_code t))])))))))"

definition make_report :: "run_ctx \<Rightarrow> string \<Rightarrow> dict \<Rightarrow> dict \<Rightarrow> dict" where
  "make_report c status before_out after_out =
     dict_extend (meta c)
       [(''status'', JStr status),
        (''before'', JDict before_out),
        (''after'', JDict after_out),
        (''paths'', JDict
           [(''run_root'', JStr (run_root c)),
            (''base_worktree'', JStr (base_dir c)),
            (''head_worktree'', JStr (head_dir c))])]"

definition report_path :: "run_ctx \<Rightarrow> path" where
  "report_path c = joinpath (run_root c) ''f2p_report.json''"

definition worktree_remove_cmd :: "path \<Rightarrow> string list" where
  "worktree_remove_cmd dir = [''git'', ''worktree'', ''remove'', ''--force'', dir]"

definition cleanup :: "world \<Rightarrow> args \<Rightarrow> run_ctx \<Rightarrow> unit io" where
  "cleanup w a c =
     (if \<not> keep_workdir a
      then try_pass
        (io_bind (run_cmd w (worktree_remove_cmd (base_dir c)) (repo_dir c) 300) (\<lambda>_.
         io_bind (run_cmd w (worktree_remove_cmd (head_dir c)) (repo_dir c) 300) (\<lambda>_.
           io_return ())))
      else io_return ())"

text \<open>
  Lines 251 to 276: the two build-and-test calls, the report, the cleanup; and before them
  (lines 219 and 220) the staging of the bundle into both worktrees.
\<close>

definition build_and_report :: "world \<Rightarrow> args \<Rightarrow> swe_bundle \<Rightarrow> run_ctx \<Rightarrow> unit io" where
  "build_and_report w a b c =
     io_bind (build_and_test w a b c ''before'' (base_dir c)) (\<lambda>before_out.
     io_bind (build_and_test w a b c ''after'' (head_dir c)) (\<lambda>after_out.
       let status = classify (truthy (dict_get before_out ''test_ok'')) (truthy (dict_get after_out ''test_ok''))
       in io_bind (emit (WriteJson (report_path c) (make_report c status before_out after_out))) (\<lambda>_.
          io_bind (emit (Print (''[F2P] '' @ status))) (\<lambda>_.
          io_bind (emit (Print (''Report: '' @ report_path c))) (\<lambda>_.
            cleanup w a c)))))"

definition verify :: "world \<Rightarrow> args \<Rightarrow> swe_bundle \<Rightarrow> run_ctx \<Rightarrow> unit io" where
  "verify w a b c =
     io_bind (stage_bundle_into w b (base_dir c)) (\<lambda>_.
     io_bind (stage_bundle_into w b (head_dir c)) (\<lambda>_.
       build_and_report w a b c))"

definition run_bundle :: "world \<Rightarrow> args \<Rightarrow> swe_bundle \<Rightarrow> unit io" where
  "run_bundle w a b =
     io_bind (start_run w a b) (\<lambda>c.
     io_bind (provision w b c) (\<lambda>_. verify w a b c))"

definition main :: "world \<Rightarrow> args \<Rightarrow> unit io" where
  "main w a = io_bind (load_bundle w a) (\<lambda>b. run_bundle w a b)"

subsection \<open>Notions the properties use\<close>

text \<open>
  A command succeeded when \<^verbatim>\<open>subprocess.run\<close> returned and the return code is
  zero. The commands and the JSON files of a trace, in order. The last component of a
  path. The status an abort of this script can carry.
\<close>

definition cmd_ok :: "world \<Rightarrow> string list \<Rightarrow> path \<Rightarrow> int \<Rightarrow> bool" where
  "cmd_ok w cmd cwd t =
     (case subprocess_run w cmd cwd t of Inl e \<Rightarrow> False | Inr (rc, out, err) \<Rightarrow> rc = 0)"

fun exec_of :: "event \<Rightarrow> (string list \<times> path) option" where
  "exec_of (Exec cmd cwd t) = Some (cmd, cwd)"
| "exec_of _ = None"

definition execs :: "event list \<Rightarrow> (string list \<times> path) list" where
  "execs tr = List.map_filter exec_of tr"

fun json_write_of :: "event \<Rightarrow> (path \<times> dict) option" where
  "json_write_of (WriteJson p d) = Some (p, d)"
| "json_write_of _ = None"

definition json_writes :: "event list \<Rightarrow> (path \<times> dict) list" where
  "json_writes tr = List.map_filter json_write_of tr"

definition basename :: "path \<Rightarrow> string" where
  "basename p = rev (takeWhile non_slash (rev p))"

definition fatal :: "abort \<Rightarrow> bool" where
  "fatal x = (x = SystemExit 2 \<or> (\<exists>e. x = Uncaught e))"

definition step_log :: "run_ctx \<Rightarrow> string \<Rightarrow> run_result \<Rightarrow> event list" where
  "step_log c log r =
     [WriteText (joinpath (run_root c) (log @ ''.stdout.txt'')) (stdout r),
      WriteText (joinpath (run_root c) (log @ ''.stderr.txt'')) (stderr r)]"

text \<open>The workspace commands in the order of the source, and all of them succeeding.\<close>

definition provision_cmds :: "swe_bundle \<Rightarrow> run_ctx \<Rightarrow> (string list \<times> path) list" where
  "provision_cmds b c =
     [(clone_cmd b c, run_root c),
      (fetch_cmd, repo_dir c),
      (worktree_add_cmd (base_dir c) (b_base_sha b), repo_dir c),
      (worktree_add_cmd (head_dir c) (b_base_sha b), repo_dir c),
      (apply_cmd (patch_path c), head_dir c)]"

definition provision_ok :: "world \<Rightarrow> swe_bundle \<Rightarrow> run_ctx \<Rightarrow> bool" where
  "provision_ok w b c =
     (cmd_ok w (clone_cmd b c) (run_root c) 3600 \<and>
      cmd_ok w fetch_cmd (repo_dir c) 3600 \<and>
      cmd_ok w (worktree_add_cmd (base_dir c) (b_base_sha b)) (repo_dir c) 600 \<and>
      cmd_ok w (worktree_add_cmd (head_dir c) (b_base_sha b)) (repo_dir c) 600 \<and>
      cmd_ok w (apply_cmd (patch_path c)) (head_dir c) 300)"

subsection \<open>Outcomes and reports\<close>

text \<open>
  The two outcome dicts \<^verbatim>\<open>build_and_test\<close> can return, by return code; the label
  main computes from two outcomes and the three events it emits with it; the keys of the
  metadata and the entries the report adds to them; the reports among the JSON files of a
  trace (those named \<^verbatim>\<open>f2p_report.json\<close>); the four labels.
\<close>

definition fail_outcome :: "run_ctx \<Rightarrow> string \<Rightarrow> int \<Rightarrow> dict" where
  "fail_outcome c label rc =
     [(''label'', JStr label), (''image'', JStr (image_name c label)), (''build_ok'', JBool False),
      (''test_ok'', JBool False), (''build_exit'', JInt rc), (''test_exit'', JNull)]"

definition test_outcome :: "run_ctx \<Rightarrow> string \<Rightarrow> int \<Rightarrow> dict" where
  "test_outcome c label rc =
     [(''label'', JStr label), (''image'', JStr (image_name c label)), (''build_ok'', JBool True),
      (''test_ok'', JBool (rc = 0)), (''build_exit'', JInt 0), (''test_exit'', JInt rc)]"

definition status_of :: "dict \<Rightarrow> dict \<Rightarrow> string" where
  "status_of d1 d2 = classify (truthy (dict_get d1 ''test_ok'')) (truthy (dict_get d2 ''test_ok''))"

definition report_events :: "run_ctx \<Rightarrow> dict \<Rightarrow> dict \<Rightarrow> event list" where
  "report_events c d1 d2 =
     [WriteJson (report_path c)
        (make_report c (classify (truthy (dict_get d1 ''test_ok'')) (truthy (dict_get d2 ''test_ok''))) d1 d2),
      Print (''[F2P] '' @ classify (truthy (dict_get d1 ''test_ok'')) (truthy (dict_get d2 ''test_ok''))),
      Print (''Report: '' @ report_path c)]"

definition meta_keys :: "string list" where
  "meta_keys = [''run_id'', ''bundle_dir'', ''repo'', ''issue_url'', ''issue_number'', ''base_sha'',
     ''head_sha'', ''dockerfile'', ''tests'']"

definition report_tail :: "run_ctx \<Rightarrow> string \<Rightarrow> dict \<Rightarrow> dict \<Rightarrow> dict" where
  "report_tail c st d1 d2 =
     [(''status'', JStr st), (''before'', JDict d1), (''after'', JDict d2),
      (''paths'', JDict [(''run_root'', JStr (run_root c)), (''base_worktree'', JStr (base_dir c)),
                         (''head_worktree'', JStr (head_dir c))])]"

definition meta_path :: "run_ctx \<Rightarrow> path" where
  "meta_path c = joinpath (run_root c) ''meta.json''"

definition reports :: "event list \<Rightarrow> (path \<times> dict) list" where
  "reports tr = filter (\<lambda>x. basename (fst x) = ''f2p_report.json'') (json_writes tr)"

definition labels :: "string list" where
  "labels = [''fail2pass'', ''fail2fail'', ''pass2pass'', ''pass2fail'']"

subsection \<open>Failures\<close>

text \<open>
  \<open>safe m\<close>: when \<open>m\<close> aborts, it is with status 2 or an uncaught exception. A
  precondition failure: the bundle directory or a required tool is missing, or the issue
  descriptor does not load, or its URL gives no repository, or loading the bundle stops for
  any other reason (no linked PR, no base revision, no patch, no dockerfile, no test file).
  A workspace failure: the bundle loaded and one of clone, fetch, the two worktree creations
  and the patch application did not succeed. The workspace is ready for the patch when the
  first four of these succeeded.
\<close>

definition safe :: "'a io \<Rightarrow> bool" where
  "safe m = (case snd m of Inl x \<Rightarrow> fatal x | Inr y \<Rightarrow> True)"

definition precondition_failure :: "world \<Rightarrow> args \<Rightarrow> bool" where
  "precondition_failure w a =
     (\<not> path_exists w (resolve w (bundle_dir a)) \<or> \<not> which w ''git'' \<or> \<not> which w ''docker'' \<or>
      (case load_issue_json w (resolve w (bundle_dir a)) of
         Inl e \<Rightarrow> True
       | Inr iss \<Rightarrow>
           (case parse_repo_from_issue_url (or_empty (url iss)) of Inl e \<Rightarrow> True | Inr r \<Rightarrow> False)) \<or>
      (case snd (load_bundle w a) of Inl x \<Rightarrow> True | Inr b \<Rightarrow> False))"

definition workspace_failure :: "world \<Rightarrow> args \<Rightarrow> bool" where
  "workspace_failure w a =
     (case snd (load_bundle w a) of
        Inl x \<Rightarrow> False
      | Inr b \<Rightarrow> \<not> provision_ok w b (new_run w a b))"

definition workspace_ready :: "world \<Rightarrow> swe_bundle \<Rightarrow> run_ctx \<Rightarrow> bool" where
  "workspace_ready w b c =
     (cmd_ok w (clone_cmd b c) (run_root c) 3600 \<and>
      cmd_ok w fetch_cmd (repo_dir c) 3600 \<and>
      cmd_ok w (worktree_add_cmd (base_dir c) (b_base_sha b)) (repo_dir c) 600 \<and>
      cmd_ok w (worktree_add_cmd (head_dir c) (b_base_sha b)) (repo_dir c) 600)"

definition apply_failed_msg :: string where
  "apply_failed_msg = ''git apply patch failed (see git_apply_patch.stderr.txt)''"

subsection \<open>Staging and the two sides\<close>

text \<open>
  The copies into a worktree all succeed (the dockerfile and every test file); the bundle
  is staged when they do for both worktrees. A side returns an outcome when its build
  command returns and, if the build returned zero, its test command returns too (a command
  that does not return raised, a timeout for one). A side passes when its build and its
  test both returned zero.
\<close>

definition copies_ok :: "world \<Rightarrow> swe_bundle \<Rightarrow> path \<Rightarrow> bool" where
  "copies_ok w b wt =
     list_all (\<lambda>t. shutil_copy2 w (path_str t) (joinpath wt (snd t)) = None)
       (b_dockerfile_src b # b_test_files b)"

definition staged_ok :: "world \<Rightarrow> swe_bundle \<Rightarrow> run_ctx \<Rightarrow> bool" where
  "staged_ok w b c = (copies_ok w b (base_dir c) \<and> copies_ok w b (head_dir c))"

definition side_returns :: "world \<Rightarrow> args \<Rightarrow> swe_bundle \<Rightarrow> run_ctx \<Rightarrow> string \<Rightarrow> path \<Rightarrow> bool" where
  "side_returns w a b c label wt =
     (case subprocess_run w (docker_build_cmd b (image_name c label)) wt (timeout_build a) of
        Inl e \<Rightarrow> False
      | Inr (rc, out, err) \<Rightarrow>
          rc \<noteq> 0 \<or>
          (case subprocess_run w (docker_run_cmd a b (image_name c label)) wt (timeout_test a) of
             Inl e \<Rightarrow> False
           | Inr r \<Rightarrow> True))"

definition side_passes :: "world \<Rightarrow> args \<Rightarrow> swe_bundle \<Rightarrow> run_ctx \<Rightarrow> string \<Rightarrow> path \<Rightarrow> bool" where
  "side_passes w a b c label wt =
     (cmd_ok w (docker_build_cmd b (image_name c label)) wt (timeout_build a) \<and>
      cmd_ok w (docker_run_cmd a b (image_name c label)) wt (timeout_test a))"

subsection \<open>Commands of a trace\<close>

text \<open>
  The checkouts among a list of commands (directory and revision of each
  \<^verbatim>\<open>git worktree add --detach <dir> <rev>\<close>), and the container commands among them.
\<close>

definition is_checkout :: "string list \<times> path \<Rightarrow> bool" where
  "is_checkout x =
     (length (fst x) = 6 \<and> take 4 (fst x) = [''git'', ''worktree'', ''add'', ''--detach''])"

definition checkouts :: "(string list \<times> path) list \<Rightarrow> (path \<times> string) list" where
  "checkouts cs = map (\<lambda>x. (fst x ! 4, fst x ! 5)) (filter is_checkout cs)"

definition builds :: "(string list \<times> path) list \<Rightarrow> (string list \<times> path) list" where
  "builds cs = filter (\<lambda>x. take 1 (fst x) = [''docker'']) cs"

subsection \<open>Bundle contents and clock readings\<close>

text \<open>
  A linked-PR record is complete when its base revision is not empty and its patch is not
  all whitespace. The names of a directory of the form \<^verbatim>\<open>test*.py\<close>, and those
  ending in \<^verbatim>\<open>.py\<close> that do not start with \<^verbatim>\<open>issue_\<close>. A clock reading
  is valid when its fields are in the ranges of a date and a time of day; two readings are
  in the same second when they agree down to the second.
\<close>

definition pr_complete :: "linked_pr \<Rightarrow> bool" where
  "pr_complete pr = (or_empty (base_sha pr) \<noteq> [] \<and> py_strip (or_empty (patch pr)) \<noteq> [])"

definition test_names :: "world \<Rightarrow> path \<Rightarrow> string list" where
  "test_names w dir = filter (fnmatch_star ''test'' ''.py'') (listdir w dir)"

definition fallback_names :: "world \<Rightarrow> path \<Rightarrow> string list" where
  "fallback_names w dir =
     filter (\<lambda>n. fnmatch_star [] ''.py'' n \<and> \<not> startswith n ''issue_'') (listdir w dir)"

definition valid_time :: "datetime \<Rightarrow> bool" where
  "valid_time t =
     (1 \<le> dt_year t \<and> dt_year t \<le> 9999 \<and> 1 \<le> dt_month t \<and> dt_month t \<le> 12 \<and>
      1 \<le> dt_day t \<and> dt_day t \<le> 31 \<and> dt_hour t < 24 \<and> dt_minute t < 60 \<and>
      dt_second t < 60 \<and> dt_microsecond t < 1000000)"

definition same_second :: "datetime \<Rightarrow> datetime \<Rightarrow> bool" where
  "same_second t1 t2 =
     (dt_year t1 = dt_year t2 \<and> dt_month t1 = dt_month t2 \<and> dt_day t1 = dt_day t2 \<and>
      dt_hour t1 = dt_hour t2 \<and> dt_minute t1 = dt_minute t2 \<and> dt_second t1 = dt_second t2)"

subsection \<open>Example inputs\<close>

text \<open>
  Concrete inputs on which the properties are instantiated: a clock reading and a later one
  in the same second; an issue descriptor with one linked PR, and one whose first linked-PR
  record is empty; subprocess answers (all succeed, git apply fails, every build fails, the
  build in the head worktree fails, the build in the head worktree times out while the
  other build fails); a world (identity path resolution, all tools present, a bundle
  directory of four files, every copy succeeding) parametrised by the descriptor and the
  subprocess answers; the same world a little later, without docker, with a bundle
  directory of two dockerfiles and no \<^verbatim>\<open>test*.py\<close>, and with every copy raising; a
  command line, and the bundle and run context main computes from them.
\<close>

definition ex_time :: datetime where
  "ex_time = \<lparr>dt_year = 2026, dt_month = 3, dt_day = 9, dt_hour = 7, dt_minute = 0,
     dt_second = 59, dt_microsecond = 12\<rparr>"

definition ex_time_later :: datetime where
  "ex_time_later = ex_time\<lparr>dt_microsecond := 999999\<rparr>"

definition ex_pr :: linked_pr where
  "ex_pr = \<lparr>base_sha = Some ''abc123'', head_sha = Some ''def456'', patch = Some ''diff''\<rparr>"

definition ex_issue :: issue where
  "ex_issue = \<lparr>number = Some 7, url = Some ''https://github.com/o/r/issues/7'',
     linked_prs = Some [ex_pr]\<rparr>"

definition ex_issue_second_pr :: issue where
  "ex_issue_second_pr = ex_issue\<lparr>linked_prs :=
     Some [\<lparr>base_sha = None, head_sha = None, patch = None\<rparr>, ex_pr]\<rparr>"

definition run_all_ok :: "string list \<Rightarrow> path \<Rightarrow> int \<Rightarrow> exn + (int \<times> string \<times> string)" where
  "run_all_ok cmd cwd t = Inr (0, [], [])"

definition run_apply_fails :: "string list \<Rightarrow> path \<Rightarrow> int \<Rightarrow> exn + (int \<times> string \<times> string)" where
  "run_apply_fails cmd cwd t =
     (if take 2 cmd = [''git'', ''apply''] then Inr (1, [], ''error: patch failed'') else Inr (0, [], []))"

definition run_build_fails :: "string list \<Rightarrow> path \<Rightarrow> int \<Rightarrow> exn + (int \<times> string \<times> string)" where
  "run_build_fails cmd cwd t =
     (if take 2 cmd = [''docker'', ''build''] then Inr (1, [], ''build failed'') else Inr (0, [], []))"

definition run_head_build_fails :: "string list \<Rightarrow> path \<Rightarrow> int \<Rightarrow> exn + (int \<times> string \<times> string)" where
  "run_head_build_fails cmd cwd t =
     (if take 2 cmd = [''docker'', ''build''] \<and> basename cwd = ''head''
      then Inr (1, [], ''build failed'') else Inr (0, [], []))"

definition run_after_build_times_out :: "string list \<Rightarrow> path \<Rightarrow> int \<Rightarrow> exn + (int \<times> string \<times> string)" where
  "run_after_build_times_out cmd cwd t =
     (if take 2 cmd = [''docker'', ''build''] \<and> basename cwd = ''head'' then Inl TimeoutExpired
      else if take 2 cmd = [''docker'', ''build''] then Inr (1, [], ''build failed'')
      else Inr (0, [], []))"

definition ex_world :: "issue \<Rightarrow> (string list \<Rightarrow> path \<Rightarrow> int \<Rightarrow> exn + (int \<times> string \<times> string)) \<Rightarrow> world" where
  "ex_world iss run =
     \<lparr>resolve = (\<lambda>p. p), path_exists = (\<lambda>p. True), which = (\<lambda>tool. True),
      listdir = (\<lambda>d. [''test_b.py'', ''issue_7.json'', ''claude.dockerfile'', ''test_a.py'']),
      load_json = (\<lambda>p. Inr iss), utcnow = ex_time, shutil_copy2 = (\<lambda>src dst. None),
      subprocess_run = run\<rparr>"

definition ex_world_later :: world where
  "ex_world_later = (ex_world ex_issue run_all_ok)\<lparr>utcnow := ex_time_later\<rparr>"

definition ex_world_no_docker :: world where
  "ex_world_no_docker = (ex_world ex_issue run_all_ok)\<lparr>which := (\<lambda>tool. tool = ''git'')\<rparr>"

definition ex_world_fallback :: world where
  "ex_world_fallback = (ex_world ex_issue run_all_ok)
     \<lparr>listdir := (\<lambda>d. [''b.dockerfile'', ''check_b.py'', ''issue_7.json'', ''a.dockerfile'',
                        ''check_a.py'', ''issue_helper.py''])\<rparr>"

definition ex_world_copy_fails :: world where
  "ex_world_copy_fails = (ex_world ex_issue run_all_ok)\<lparr>shutil_copy2 := (\<lambda>src dst. Some OSError)\<rparr>"

definition ex_args :: args where
  "ex_args = \<lparr>bundle_dir = ''/b'', work_dir = ''/w'', keep_workdir = False, pytest_args = ''-q'',
     timeout_build = 3600, timeout_test = 1800\<rparr>"

definition ex_bundle :: swe_bundle where
  "ex_bundle = \<lparr>b_bundle_dir = ''/b'', b_issue_number = Some 7,
     b_issue_url = ''https://github.com/o/r/issues/7'', b_repo = ''o/r'', b_base_sha = ''abc123'',
     b_head_sha = Some ''def456'', b_patch_text = ''diff'',
     b_dockerfile_src = (''/b'', ''claude.dockerfile''),
     b_test_files = [(''/b'', ''test_a.py''), (''/b'', ''test_b.py'')]\<rparr>"

definition ex_ctx :: run_ctx where
  "ex_ctx = \<lparr>run_id = ''issue_7-20260309T070059Z'', run_root = ''/w/issue_7-20260309T070059Z'',
     meta = make_meta ex_bundle ''issue_7-20260309T070059Z''\<rparr>"

section \<open>Properties\<close>

text \<open>
  C1. The classifier is total on the two booleans and follows the table:
  (false, true) gives fail2pass, (false, false) gives fail2fail, (true, true) gives
  pass2pass, (true, false) gives pass2fail; no input gives error or any fifth label.
\<close>

theorem classify_table:
  "classify False True = ''fail2pass'' \<and>
   classify False False = ''fail2fail'' \<and>
   classify True True = ''pass2pass'' \<and>
   classify True False = ''pass2fail'' \<and>
   (\<forall>b a. classify b a \<noteq> ''error'') \<and>
   (\<forall>b a. classify b a \<in> {''fail2pass'', ''fail2fail'', ''pass2pass'', ''pass2fail''})"
  by (simp add: classify_def)

subsection \<open>Repository identifier\<close>

lemma match_lit_iff: "match_lit p s = Some r \<longleftrightarrow> s = p @ r"
  by (induction p s rule: match_lit.induct) auto

lemma match_lit_None_iff: "match_lit p s = None \<longleftrightarrow> (\<forall>r. s \<noteq> p @ r)"
  using match_lit_iff [of p s] by (cases "match_lit p s") auto

lemma match_kind_iff: "match_kind s = Some r \<longleftrightarrow> s = ''issues'' @ r \<or> s = ''pull'' @ r"
  unfolding match_kind_def
  by (auto simp: match_lit_iff match_lit_None_iff split: option.splits)

lemma takeWhile_non_slash:
  "CHR ''/'' \<notin> set xs \<Longrightarrow> takeWhile non_slash (xs @ CHR ''/'' # ys) = xs"
  by (induction xs) (auto simp: non_slash_def)

lemma dropWhile_non_slash:
  "CHR ''/'' \<notin> set xs \<Longrightarrow> dropWhile non_slash (xs @ CHR ''/'' # ys) = CHR ''/'' # ys"
  by (induction xs) (auto simp: non_slash_def)

lemma takeWhile_non_slash_mem: "seg = takeWhile non_slash s \<Longrightarrow> CHR ''/'' \<in> set seg \<Longrightarrow> False"
  by (auto simp: non_slash_def dest: set_takeWhileD)

lemma match_kindD: "match_kind s = Some r \<Longrightarrow> \<exists>kind. is_kind kind \<and> s = kind @ r"
proof -
  assume "match_kind s = Some r"
  then have "s = ''issues'' @ r \<or> s = ''pull'' @ r" by (simp only: match_kind_iff)
  then show ?thesis
  proof
    assume "s = ''issues'' @ r"
    moreover have "is_kind ''issues''" unfolding is_kind_def by (rule disjI1) (rule refl)
    ultimately show ?thesis by (intro exI conjI)
  next
    assume "s = ''pull'' @ r"
    moreover have "is_kind ''pull''" unfolding is_kind_def by (rule disjI2) (rule refl)
    ultimately show ?thesis by (intro exI conjI)
  qed
qed

lemma match_kindI: "is_kind kind \<Longrightarrow> match_kind (kind @ r) = Some r"
  unfolding is_kind_def by (erule disjE) (simp_all only: match_kind_iff simp_thms)

lemma match_plus_non_slash:
  "segment xs \<Longrightarrow> match_plus non_slash (xs @ CHR ''/'' # ys) = Some (xs, CHR ''/'' # ys)"
  by (simp add: match_plus_def segment_def takeWhile_non_slash dropWhile_non_slash)

lemma match_plus_SomeD:
  "match_plus cls s = Some (seg, r) \<Longrightarrow> s = seg @ r"
  by (auto simp: match_plus_def split: if_splits)

lemma match_plus_segment:
  "match_plus non_slash s = Some (seg, r) \<Longrightarrow> segment seg"
  by (auto simp: match_plus_def segment_def non_slash_def split: if_splits dest: set_takeWhileD)

lemma match_plus_digit: "is_digit d \<Longrightarrow> \<exists>r. match_plus is_digit (d # rest) = Some r"
  by (simp add: match_plus_def)

lemma match_plus_digitD:
  "match_plus is_digit s = Some r \<Longrightarrow> \<exists>d rest. s = d # rest \<and> is_digit d"
  by (cases s) (auto simp: match_plus_def split: if_splits)

lemma match_owner_repo_complete:
  assumes "segment owner" "segment repo"
  shows "match_owner_repo (owner @ ''/'' @ repo @ ''/'' @ t) = Some (owner @ ''/'' @ repo, ''/'' @ t)"
proof -
  have 1: "match_plus non_slash (owner @ ''/'' @ repo @ ''/'' @ t) = Some (owner, ''/'' @ repo @ ''/'' @ t)"
    using match_plus_non_slash [OF assms(1)] by simp
  have 2: "match_plus non_slash (repo @ ''/'' @ t) = Some (repo, ''/'' @ t)"
    using match_plus_non_slash [OF assms(2)] by simp
  have 3: "match_lit ''/'' (''/'' @ repo @ ''/'' @ t) = Some (repo @ ''/'' @ t)"
    by (simp only: match_lit_iff)
  show ?thesis
    unfolding match_owner_repo_def by (simp only: 1 2 3 Option.bind.simps prod.case)
qed

lemma match_owner_repo_sound:
  assumes "match_owner_repo s1 = Some (g, s4)"
  shows "\<exists>owner repo. s1 = owner @ ''/'' @ repo @ s4 \<and> segment owner \<and> segment repo \<and>
           g = owner @ ''/'' @ repo"
proof -
  from assms obtain owner s2 s3 repo where
    o: "match_plus non_slash s1 = Some (owner, s2)" and s3: "match_lit ''/'' s2 = Some s3" and
    r: "match_plus non_slash s3 = Some (repo, s4)" and g: "g = owner @ ''/'' @ repo"
    unfolding match_owner_repo_def by (auto simp: bind_eq_Some_conv)
  have "s1 = owner @ s2" by (rule match_plus_SomeD [OF o])
  moreover have "s2 = ''/'' @ s3" using s3 by (simp add: match_lit_iff)
  moreover have "s3 = repo @ s4" by (rule match_plus_SomeD [OF r])
  ultimately have "s1 = owner @ ''/'' @ repo @ s4" by simp
  then show ?thesis
    using match_plus_segment [OF o] match_plus_segment [OF r] g by blast
qed

lemma match_issue_tail_complete:
  assumes "is_kind kind" "is_digit d"
  shows "\<exists>r. match_issue_tail (''/'' @ kind @ ''/'' @ d # rest) = Some r"
proof -
  have k: "match_kind (kind @ ''/'' @ d # rest) = Some (''/'' @ d # rest)"
    by (rule match_kindI [OF assms(1)])
  obtain r where r: "match_plus is_digit (d # rest) = Some r"
    using match_plus_digit [OF assms(2)] by blast
  show ?thesis
    unfolding match_issue_tail_def using k r by (cases r) simp
qed

lemma match_issue_tail_sound:
  assumes "match_issue_tail s4 = Some r"
  shows "\<exists>kind d rest. s4 = ''/'' @ kind @ ''/'' @ d # rest \<and>
           is_kind kind \<and> is_digit d"
proof -
  from assms obtain s5 s6 s7 q where
    s5: "match_lit ''/'' s4 = Some s5" and s6: "match_kind s5 = Some s6" and
    s7: "match_lit ''/'' s6 = Some s7" and d: "match_plus is_digit s7 = Some q"
    unfolding match_issue_tail_def by (auto simp: bind_eq_Some_conv)
  from match_plus_digitD [OF d] obtain d0 rest where s7': "s7 = d0 # rest" and dd: "is_digit d0"
    by blast
  from match_kindD [OF s6] obtain kind where kind: "is_kind kind" and s5': "s5 = kind @ s6"
    by blast
  have "s4 = ''/'' @ s5" using s5 by (simp add: match_lit_iff)
  moreover have "s6 = ''/'' @ s7" using s7 by (simp add: match_lit_iff)
  ultimately have "s4 = ''/'' @ kind @ ''/'' @ d0 # rest"
    using s5' s7' by simp
  then show ?thesis using kind dd by blast
qed

lemma match_repo_at_complete:
  assumes "segment owner" "segment repo" "is_kind kind" "is_digit d"
  shows "match_repo_at (''github.com/'' @ owner @ ''/'' @ repo @ ''/'' @ kind @ ''/'' @ d # rest)
         = Some (owner @ ''/'' @ repo)"
proof -
  have 1: "match_lit ''github.com/'' (''github.com/'' @ owner @ ''/'' @ repo @ ''/'' @ kind @ ''/'' @ d # rest)
      = Some (owner @ ''/'' @ repo @ ''/'' @ (kind @ ''/'' @ d # rest))"
    by (simp only: match_lit_iff)
  note 2 = match_owner_repo_complete [OF assms(1,2), of "kind @ ''/'' @ d # rest"]
  obtain r where 3: "match_issue_tail (''/'' @ kind @ ''/'' @ d # rest) = Some r"
    using match_issue_tail_complete [OF assms(3,4)] by blast
  show ?thesis
    unfolding match_repo_at_def by (simp only: 1 2 3 Option.bind.simps prod.case)
qed

lemma match_repo_at_sound:
  assumes "match_repo_at s = Some g"
  shows "\<exists>owner repo kind d rest.
           s = ''github.com/'' @ owner @ ''/'' @ repo @ ''/'' @ kind @ ''/'' @ d # rest \<and>
           segment owner \<and> segment repo \<and> is_kind kind \<and> is_digit d \<and>
           g = owner @ ''/'' @ repo"
proof -
  from assms obtain s1 s4 r where
    s1: "match_lit ''github.com/'' s = Some s1" and o: "match_owner_repo s1 = Some (g, s4)" and
    t: "match_issue_tail s4 = Some r"
    unfolding match_repo_at_def by (auto simp: bind_eq_Some_conv)
  from match_owner_repo_sound [OF o] obtain owner repo where
    x: "s1 = owner @ ''/'' @ repo @ s4" "segment owner" "segment repo" "g = owner @ ''/'' @ repo"
    by blast
  from match_issue_tail_sound [OF t] obtain kind d rest where
    y: "s4 = ''/'' @ kind @ ''/'' @ d # rest" "is_kind kind" "is_digit d"
    by blast
  have "s = ''github.com/'' @ s1" using s1 by (simp only: match_lit_iff)
  then have "s = ''github.com/'' @ owner @ ''/'' @ repo @ ''/'' @ kind @ ''/'' @ d # rest"
    using x(1) y(1) by simp
  then show ?thesis using x(2-4) y(2,3) by blast
qed

lemma re_search_sound:
  "re_search s = Some g \<Longrightarrow>
     \<exists>pre rest. s = pre @ rest \<and> match_repo_at rest = Some g \<and>
       (\<forall>pre' rest'. s = pre' @ rest' \<and> length pre' < length pre \<longrightarrow> match_repo_at rest' = None)"
proof (induction s)
  case Nil
  have "match_repo_at [] = None" by (simp add: match_repo_at_def)
  with Nil show ?case by simp
next
  case (Cons c cs)
  show ?case
  proof (cases "match_repo_at (c # cs)")
    case None
    with Cons obtain pre rest where pr: "cs = pre @ rest" "match_repo_at rest = Some g"
      and least: "\<forall>pre' rest'. cs = pre' @ rest' \<and> length pre' < length pre \<longrightarrow> match_repo_at rest' = None"
      by auto
    have "\<forall>pre' rest'. c # cs = pre' @ rest' \<and> length pre' < length (c # pre) \<longrightarrow> match_repo_at rest' = None"
    proof (intro allI impI)
      fix pre' rest'
      assume h: "c # cs = pre' @ rest' \<and> length pre' < length (c # pre)"
      show "match_repo_at rest' = None"
      proof (cases pre')
        case Nil
        with h None show ?thesis by simp
      next
        case (Cons x xs)
        with h have "cs = xs @ rest'" "length xs < length pre" by simp_all
        with least show ?thesis by blast
      qed
    qed
    moreover have "c # cs = (c # pre) @ rest" using pr by simp
    ultimately show ?thesis using pr(2) by blast
  next
    case (Some g')
    with Cons.prems have "c # cs = [] @ (c # cs) \<and> match_repo_at (c # cs) = Some g \<and>
      (\<forall>pre' rest'. c # cs = pre' @ rest' \<and> length pre' < length ([]::string) \<longrightarrow> match_repo_at rest' = None)"
      by simp
    then show ?thesis by blast
  qed
qed

lemma re_search_complete:
  "match_repo_at rest = Some g \<Longrightarrow> \<exists>g'. re_search (pre @ rest) = Some g'"
proof (induction pre)
  case Nil
  then show ?case by (cases rest) auto
next
  case (Cons c pre)
  then show ?case by (cases "match_repo_at (c # pre @ rest)") auto
qed

lemma match_repo_at_github_url:
  "github_form_ok owner repo kind d \<Longrightarrow>
     match_repo_at (github_url [] owner repo kind d rest) = Some (owner @ ''/'' @ repo)"
  unfolding github_form_ok_def github_url_def append_Nil
  by (elim conjE) (rule match_repo_at_complete)

lemma github_url_split: "github_url pre owner repo kind d rest = pre @ github_url [] owner repo kind d rest"
  by (simp add: github_url_def)

lemma parse_repo_complete:
  assumes "github_form_ok owner repo kind d"
  shows "\<exists>g. parse_repo_from_issue_url (github_url pre owner repo kind d rest) = Inr g"
proof -
  from re_search_complete [OF match_repo_at_github_url [OF assms]]
  obtain g' where "re_search (pre @ github_url [] owner repo kind d rest) = Some g'" by blast
  then show ?thesis
    unfolding parse_repo_from_issue_url_def github_url_split [of pre] by simp
qed

lemma parse_repo_sound:
  assumes "parse_repo_from_issue_url u = Inr g"
  shows "\<exists>pre owner repo kind d rest.
           u = github_url pre owner repo kind d rest \<and> github_form_ok owner repo kind d \<and>
           g = owner @ ''/'' @ repo \<and>
           (\<forall>pre' owner' repo' kind' d' rest'.
              u = github_url pre' owner' repo' kind' d' rest' \<and> github_form_ok owner' repo' kind' d'
              \<longrightarrow> length pre \<le> length pre')"
proof -
  from assms have "re_search u = Some g"
    unfolding parse_repo_from_issue_url_def by (simp split: option.splits)
  from re_search_sound [OF this] obtain pre rest where
    u: "u = pre @ rest" and m: "match_repo_at rest = Some g" and
    least: "\<forall>pre' rest'. u = pre' @ rest' \<and> length pre' < length pre \<longrightarrow> match_repo_at rest' = None"
    by blast
  from match_repo_at_sound [OF m] obtain owner repo kind d rest0 where
    r: "rest = github_url [] owner repo kind d rest0" and
    ok: "segment owner" "segment repo" "is_kind kind" "is_digit d" and g: "g = owner @ ''/'' @ repo"
    unfolding github_url_def append_Nil by blast
  have "u = github_url pre owner repo kind d rest0"
    using u r by (simp only: github_url_split [of pre])
  moreover have "github_form_ok owner repo kind d"
    using ok by (simp add: github_form_ok_def)
  moreover have "\<forall>pre' owner' repo' kind' d' rest'.
      u = github_url pre' owner' repo' kind' d' rest' \<and> github_form_ok owner' repo' kind' d'
      \<longrightarrow> length pre \<le> length pre'"
  proof (intro allI impI)
    fix pre' owner' repo' kind' d' rest'
    assume h: "u = github_url pre' owner' repo' kind' d' rest' \<and> github_form_ok owner' repo' kind' d'"
    show "length pre \<le> length pre'"
    proof (rule ccontr)
      assume "\<not> length pre \<le> length pre'"
      then have "length pre' < length pre" by simp
      moreover have "u = pre' @ github_url [] owner' repo' kind' d' rest'"
        using h by (simp only: github_url_split [of pre'])
      ultimately have "match_repo_at (github_url [] owner' repo' kind' d' rest') = None"
        using least by blast
      then show False using match_repo_at_github_url [of owner' repo' kind' d' rest'] h by simp
    qed
  qed
  ultimately show ?thesis using g by blast
qed

lemma parse_repo_cases:
  "parse_repo_from_issue_url u = Inl ValueError \<or> (\<exists>g. parse_repo_from_issue_url u = Inr g)"
  unfolding parse_repo_from_issue_url_def by (cases "re_search u") simp_all

text \<open>
  C9, as the code has it. Extraction succeeds exactly for a URL that contains
  \<^verbatim>\<open>github.com/<owner>/<repo>/(issues|pull)/<digit>\<close>, owner and repo non-empty and
  free of slashes; what it yields is owner/repo of the leftmost such occurrence; every
  other URL, the absent one included, raises \<^verbatim>\<open>ValueError\<close>.
\<close>

theorem parse_repo_github_form:
  "(github_form_ok owner repo kind d \<longrightarrow>
      (\<exists>g. parse_repo_from_issue_url (github_url pre owner repo kind d rest) = Inr g)) \<and>
   (parse_repo_from_issue_url u = Inr g \<longrightarrow>
      (\<exists>pre owner repo kind d rest.
          u = github_url pre owner repo kind d rest \<and> github_form_ok owner repo kind d \<and>
          g = owner @ ''/'' @ repo \<and>
          (\<forall>pre' owner' repo' kind' d' rest'.
              u = github_url pre' owner' repo' kind' d' rest' \<and> github_form_ok owner' repo' kind' d'
              \<longrightarrow> length pre \<le> length pre'))) \<and>
   ((\<forall>pre owner repo kind d rest.
        github_form_ok owner repo kind d \<longrightarrow> v \<noteq> github_url pre owner repo kind d rest) \<longrightarrow>
      parse_repo_from_issue_url v = Inl ValueError) \<and>
   parse_repo_from_issue_url (or_empty None) = Inl ValueError"
proof (intro conjI impI)
  assume "github_form_ok owner repo kind d"
  then show "\<exists>g. parse_repo_from_issue_url (github_url pre owner repo kind d rest) = Inr g"
    by (rule parse_repo_complete)
next
  assume "parse_repo_from_issue_url u = Inr g"
  then show "\<exists>pre owner repo kind d rest.
          u = github_url pre owner repo kind d rest \<and> github_form_ok owner repo kind d \<and>
          g = owner @ ''/'' @ repo \<and>
          (\<forall>pre' owner' repo' kind' d' rest'.
              u = github_url pre' owner' repo' kind' d' rest' \<and> github_form_ok owner' repo' kind' d'
              \<longrightarrow> length pre \<le> length pre')"
    by (rule parse_repo_sound)
next
  assume none: "\<forall>pre owner repo kind d rest.
        github_form_ok owner repo kind d \<longrightarrow> v \<noteq> github_url pre owner repo kind d rest"
  show "parse_repo_from_issue_url v = Inl ValueError"
  proof (rule disjE [OF parse_repo_cases [of v]])
    assume "\<exists>g. parse_repo_from_issue_url v = Inr g"
    then obtain g where "parse_repo_from_issue_url v = Inr g" by blast
    from parse_repo_sound [OF this] none show ?thesis by blast
  qed
next
  show "parse_repo_from_issue_url (or_empty None) = Inl ValueError"
    by (simp add: or_empty_def parse_repo_from_issue_url_def match_repo_at_def)
qed

theorem parse_repo_github_form_witness:
  "github_form_ok ''o'' ''r'' ''issues'' CHR ''7'' \<and>
   (\<exists>g. parse_repo_from_issue_url (github_url ''https://'' ''o'' ''r'' ''issues'' CHR ''7'' []) = Inr g) \<and>
   parse_repo_from_issue_url ''github.com/o/r/pull/12'' = Inr ''o/r'' \<and>
   (\<exists>pre owner repo kind d rest.
      ''github.com/o/r/pull/12'' = github_url pre owner repo kind d rest \<and>
      github_form_ok owner repo kind d \<and> ''o/r'' = owner @ ''/'' @ repo) \<and>
   parse_repo_from_issue_url [] = Inl ValueError"
proof -
  have ok: "github_form_ok ''o'' ''r'' ''issues'' CHR ''7''"
    by (simp add: github_form_ok_def segment_def is_kind_def is_digit_def)
  have ev: "parse_repo_from_issue_url ''github.com/o/r/pull/12'' = Inr ''o/r''"
    by code_simp
  have none: "\<forall>pre owner repo kind d rest.
        github_form_ok owner repo kind d \<longrightarrow> [] \<noteq> github_url pre owner repo kind d rest"
    by (simp add: github_url_def)
  note t = parse_repo_github_form [of "''o''" "''r''" "''issues''" "CHR ''7''" "''https://''" "[]"
      "''github.com/o/r/pull/12''" "''o/r''" "[]"]
  from t ok have 1: "\<exists>g. parse_repo_from_issue_url (github_url ''https://'' ''o'' ''r'' ''issues'' CHR ''7'' []) = Inr g"
    by (elim conjE) (rule mp)
  from t ev have "\<exists>pre owner repo kind d rest.
      ''github.com/o/r/pull/12'' = github_url pre owner repo kind d rest \<and>
      github_form_ok owner repo kind d \<and> ''o/r'' = owner @ ''/'' @ repo \<and>
      (\<forall>pre' owner' repo' kind' d' rest'.
              ''github.com/o/r/pull/12'' = github_url pre' owner' repo' kind' d' rest' \<and> github_form_ok owner' repo' kind' d'
              \<longrightarrow> length pre \<le> length pre')"
    by (elim conjE) (rule mp)
  then have 2: "\<exists>pre owner repo kind d rest.
      ''github.com/o/r/pull/12'' = github_url pre owner repo kind d rest \<and>
      github_form_ok owner repo kind d \<and> ''o/r'' = owner @ ''/'' @ repo"
    by (elim exE conjE) (intro exI conjI)
  from t none have 3: "parse_repo_from_issue_url [] = Inl ValueError"
    by (elim conjE) (rule mp)
  from ok 1 ev 2 3 show ?thesis by (intro conjI)
qed

text \<open>
  The claim as the specification words it fails: a URL of the form
  \<^verbatim>\<open>.../<owner>/<repo>/issues/<number>\<close> on another host is refused.
\<close>

theorem parse_repo_non_github_counterexample:
  "spec_form_ok ''o'' ''r'' ''issues'' ''1'' \<and>
   parse_repo_from_issue_url (spec_issue_url ''https://gitlab.com'' ''o'' ''r'' ''issues'' ''1'') = Inl ValueError"
  by code_simp

subsection \<open>The monad\<close>

lemma io_bind_Inl: "snd m = Inl e \<Longrightarrow> io_bind m f = (fst m, Inl e)"
  by (cases m) simp

lemma io_bind_Inr: "snd m = Inr x \<Longrightarrow> io_bind m f = (fst m @ fst (f x), snd (f x))"
  by (cases m) (simp split: prod.splits)

declare io_bind.simps [simp del]

lemma fst_io_bind:
  "fst (io_bind m f) = fst m @ (case snd m of Inl e \<Rightarrow> [] | Inr x \<Rightarrow> fst (f x))"
  by (cases "snd m") (simp_all add: io_bind_Inl io_bind_Inr)

lemma snd_io_bind:
  "snd (io_bind m f) = (case snd m of Inl e \<Rightarrow> Inl e | Inr x \<Rightarrow> snd (f x))"
  by (cases "snd m") (simp_all add: io_bind_Inl io_bind_Inr)

lemma snd_io_bind_Inr_iff:
  "snd (io_bind m f) = Inr y \<longleftrightarrow> (\<exists>x. snd m = Inr x \<and> snd (f x) = Inr y)"
  by (cases "snd m") (simp_all add: snd_io_bind)

lemma io_simps [simp]:
  "fst (io_return x) = []" "snd (io_return x) = Inr x"
  "fst (emit e) = [e]" "snd (emit e) = Inr ()"
  "fst (die msg) = [PrintErr msg]" "snd (die msg) = Inl (SystemExit 2)"
  "fst (raise ex) = []" "snd (raise ex) = Inl (Uncaught ex)"
  by (simp_all add: io_return_def emit_def die_def raise_def)

lemma lift_exn_simps [simp]:
  "fst (lift_exn r) = []"
  "snd (lift_exn r) = (case r of Inl e \<Rightarrow> Inl (Uncaught e) | Inr x \<Rightarrow> Inr x)"
  by (cases r; simp add: lift_exn_def)+

lemma execs_simps [simp]:
  "execs [] = []" "execs (xs @ ys) = execs xs @ execs ys"
  "execs (Exec cmd cwd t # xs) = (cmd, cwd) # execs xs"
  "execs (WriteText p s # xs) = execs xs" "execs (WriteJson p d # xs) = execs xs"
  "execs (Mkdir p # xs) = execs xs" "execs (Copy p q # xs) = execs xs"
  "execs (Print s # xs) = execs xs" "execs (PrintErr s # xs) = execs xs"
  by (simp_all add: execs_def List.map_filter_def)

lemma json_writes_simps [simp]:
  "json_writes [] = []" "json_writes (xs @ ys) = json_writes xs @ json_writes ys"
  "json_writes (Exec cmd cwd t # xs) = json_writes xs"
  "json_writes (WriteText p s # xs) = json_writes xs"
  "json_writes (WriteJson p d # xs) = (p, d) # json_writes xs"
  "json_writes (Mkdir p # xs) = json_writes xs" "json_writes (Copy p q # xs) = json_writes xs"
  "json_writes (Print s # xs) = json_writes xs" "json_writes (PrintErr s # xs) = json_writes xs"
  by (simp_all add: json_writes_def List.map_filter_def)

subsection \<open>Commands\<close>

lemma run_cmd_eq:
  "run_cmd w cmd cwd t =
     ([Exec cmd cwd t],
      case subprocess_run w cmd cwd t of
        Inl e \<Rightarrow> Inl (Uncaught e)
      | Inr (rc, out, err) \<Rightarrow> Inr \<lparr>ok = (rc = 0), exit_code = rc, stdout = out, stderr = err\<rparr>)"
  unfolding run_cmd_def
  by (simp add: io_bind_Inr prod_eq_iff split: sum.splits prod.splits)

lemma fst_run_cmd [simp]: "fst (run_cmd w cmd cwd t) = [Exec cmd cwd t]"
  by (simp add: run_cmd_eq)

lemma run_cmd_Inr_ok:
  "snd (run_cmd w cmd cwd t) = Inr r \<Longrightarrow> ok r = cmd_ok w cmd cwd t"
  by (auto simp: run_cmd_eq cmd_ok_def split: sum.splits prod.splits)

lemma run_cmd_Inl:
  "snd (run_cmd w cmd cwd t) = Inl x \<Longrightarrow> (\<exists>e. x = Uncaught e) \<and> \<not> cmd_ok w cmd cwd t"
  by (auto simp: run_cmd_eq cmd_ok_def split: sum.splits prod.splits)

lemma git_step_eq:
  "git_step w c cmd cwd t log msg =
     (case snd (run_cmd w cmd cwd t) of
        Inl x \<Rightarrow> ([Exec cmd cwd t], Inl x)
      | Inr r \<Rightarrow>
          (Exec cmd cwd t # step_log c log r @ (if ok r then [] else [PrintErr msg]),
           if ok r then Inr () else Inl (SystemExit 2)))"
  unfolding git_step_def step_log_def
  by (cases "snd (run_cmd w cmd cwd t)") (simp_all add: io_bind_Inl io_bind_Inr)

lemma git_step_Inr_iff [simp]:
  "snd (git_step w c cmd cwd t log msg) = Inr u \<longleftrightarrow> cmd_ok w cmd cwd t"
  by (cases "snd (run_cmd w cmd cwd t)")
     (auto simp: git_step_eq dest: run_cmd_Inl run_cmd_Inr_ok)

lemma git_step_Inl:
  "snd (git_step w c cmd cwd t log msg) = Inl x \<Longrightarrow> x = SystemExit 2 \<or> (\<exists>e. x = Uncaught e)"
  by (cases "snd (run_cmd w cmd cwd t)")
     (auto simp: git_step_eq dest: run_cmd_Inl split: if_splits)

lemma execs_git_step [simp]: "execs (fst (git_step w c cmd cwd t log msg)) = [(cmd, cwd)]"
  by (cases "snd (run_cmd w cmd cwd t)") (simp_all add: git_step_eq step_log_def)

lemma json_writes_git_step [simp]: "json_writes (fst (git_step w c cmd cwd t log msg)) = []"
  by (cases "snd (run_cmd w cmd cwd t)") (simp_all add: git_step_eq step_log_def)

lemma case_git_step:
  "(case snd (git_step w c cmd cwd t log msg) of Inl e \<Rightarrow> A | Inr x \<Rightarrow> F x) =
   (if cmd_ok w cmd cwd t then F () else A)"
proof (cases "snd (git_step w c cmd cwd t log msg)")
  case (Inl e)
  then have "\<not> cmd_ok w cmd cwd t"
    using git_step_Inr_iff [of w c cmd cwd t log msg "()"] by simp
  with Inl show ?thesis by simp
next
  case (Inr x)
  then have "cmd_ok w cmd cwd t"
    using git_step_Inr_iff [of w c cmd cwd t log msg x] by simp
  with Inr show ?thesis by (simp del: git_step_Inr_iff)
qed

subsection \<open>Provisioning\<close>

lemma provision_Inr_iff: "snd (provision w b c) = Inr u \<longleftrightarrow> provision_ok w b c"
  unfolding provision_def provision_ok_def
  by (simp add: snd_io_bind_Inr_iff)

lemma execs_provision_prefix: "prefix (execs (fst (provision w b c))) (provision_cmds b c)"
  unfolding provision_def provision_cmds_def
  by (simp add: fst_io_bind case_git_step)

lemma execs_provision_ok:
  "provision_ok w b c \<Longrightarrow> execs (fst (provision w b c)) = provision_cmds b c"
  unfolding provision_def provision_cmds_def provision_ok_def
  by (simp add: fst_io_bind case_git_step)

lemma json_writes_provision [simp]: "json_writes (fst (provision w b c)) = []"
  unfolding provision_def
  by (simp add: fst_io_bind case_git_step)

subsection \<open>Loading\<close>

lemma ensure_tools_eq:
  "ensure_tools w =
     (if \<not> which w ''git'' then die (''Missing required tool: '' @ ''git'' @ ''. Please install it first.'')
      else if \<not> which w ''docker'' then die (''Missing required tool: '' @ ''docker'' @ ''. Please install it first.'')
      else io_return ())"
  by (simp add: ensure_tools_def)

lemma ensure_tools_Inr_iff [simp]:
  "snd (ensure_tools w) = Inr u \<longleftrightarrow> which w ''git'' \<and> which w ''docker''"
  by (simp add: ensure_tools_eq)

lemma select_pr_Inr_iff:
  "snd (select_pr iss) = Inr pr \<longleftrightarrow>
     (\<exists>rest. linked_prs iss = Some (pr # rest) \<and> or_empty (base_sha pr) \<noteq> [] \<and>
        py_strip (or_empty (patch pr)) \<noteq> [])"
  unfolding select_pr_def
  by (auto split: option.splits list.splits)

lemma load_bundle_Inr:
  assumes "snd (load_bundle w a) = Inr b"
  shows "path_exists w (resolve w (bundle_dir a)) \<and> which w ''git'' \<and> which w ''docker'' \<and>
    (\<exists>iss pr0 rest.
        load_issue_json w (resolve w (bundle_dir a)) = Inr iss \<and>
        parse_repo_from_issue_url (or_empty (url iss)) = Inr (b_repo b) \<and>
        linked_prs iss = Some (pr0 # rest) \<and>
        or_empty (base_sha pr0) \<noteq> [] \<and> py_strip (or_empty (patch pr0)) \<noteq> [] \<and>
        b_base_sha b = or_empty (base_sha pr0) \<and> b_head_sha b = head_sha pr0 \<and>
        b_patch_text b = or_empty (patch pr0) \<and> b_issue_number b = number iss \<and>
        b_issue_url b = or_empty (url iss)) \<and>
    pick_dockerfile w (resolve w (bundle_dir a)) = Inr (b_dockerfile_src b) \<and>
    pick_tests w (resolve w (bundle_dir a)) = b_test_files b \<and> b_test_files b \<noteq> [] \<and>
    b_bundle_dir b = resolve w (bundle_dir a)"
proof -
  let ?d = "resolve w (bundle_dir a)"
  from assms have ex: "path_exists w ?d"
    unfolding load_bundle_def Let_def by (auto split: if_splits)
  with assms obtain iss repo pr0 df where
    t: "which w ''git''" "which w ''docker''" and
    i: "load_issue_json w ?d = Inr iss" and
    r: "parse_repo_from_issue_url (or_empty (url iss)) = Inr repo" and
    p: "snd (select_pr iss) = Inr pr0" and
    d: "pick_dockerfile w ?d = Inr df" and
    f: "snd (if pick_tests w ?d = [] then die (''No test*.py found under '' @ ?d)
           else io_return
              \<lparr>b_bundle_dir = ?d, b_issue_number = number iss,
               b_issue_url = or_empty (url iss), b_repo = repo,
               b_base_sha = or_empty (base_sha pr0), b_head_sha = head_sha pr0,
               b_patch_text = or_empty (patch pr0), b_dockerfile_src = df,
               b_test_files = pick_tests w ?d\<rparr>) = Inr b"
    unfolding load_bundle_def Let_def
    by (auto simp: snd_io_bind_Inr_iff split: sum.splits)
  from f have ne: "pick_tests w ?d \<noteq> []" and
    b: "b = \<lparr>b_bundle_dir = ?d, b_issue_number = number iss,
               b_issue_url = or_empty (url iss), b_repo = repo,
               b_base_sha = or_empty (base_sha pr0), b_head_sha = head_sha pr0,
               b_patch_text = or_empty (patch pr0), b_dockerfile_src = df,
               b_test_files = pick_tests w ?d\<rparr>"
    by (auto split: if_splits)
  from p obtain rest where pr: "linked_prs iss = Some (pr0 # rest)"
    "or_empty (base_sha pr0) \<noteq> []" "py_strip (or_empty (patch pr0)) \<noteq> []"
    by (auto simp: select_pr_Inr_iff)
  show ?thesis
    using ex t i r pr d ne unfolding b by auto
qed

lemma fst_select_pr: "execs (fst (select_pr iss)) = [] \<and> json_writes (fst (select_pr iss)) = []"
  unfolding select_pr_def by (simp split: option.splits list.splits)

lemma fst_ensure_tools: "execs (fst (ensure_tools w)) = [] \<and> json_writes (fst (ensure_tools w)) = []"
  by (simp add: ensure_tools_eq)

lemma fst_load_bundle:
  "execs (fst (load_bundle w a)) = [] \<and> json_writes (fst (load_bundle w a)) = []"
  unfolding load_bundle_def Let_def
  by (simp add: fst_io_bind fst_select_pr fst_ensure_tools split: sum.splits)

subsection \<open>Aborts are fatal\<close>

lemma safe_bind: "safe m \<Longrightarrow> (\<And>x. safe (f x)) \<Longrightarrow> safe (io_bind m f)"
  by (cases "snd m") (simp_all add: safe_def snd_io_bind)

lemma safe_prims [simp]:
  "safe (io_return x)" "safe (emit e)" "safe (die msg)" "safe (raise ex)"
  "safe (lift_exn r)"
  by (simp_all add: safe_def fatal_def split: sum.splits)

lemma safe_run_cmd [simp]: "safe (run_cmd w cmd cwd t)"
  by (simp add: safe_def run_cmd_eq fatal_def split: sum.splits prod.splits)

lemma safe_git_step [simp]: "safe (git_step w c cmd cwd t log msg)"
  unfolding git_step_def by (intro safe_bind) simp_all

lemma safe_if: "safe m \<Longrightarrow> safe n \<Longrightarrow> safe (if P then m else n)"
  by simp

lemma safe_select_pr [simp]: "safe (select_pr iss)"
  unfolding select_pr_def by (simp split: option.splits list.splits)

lemma safe_load_bundle [simp]: "safe (load_bundle w a)"
  unfolding load_bundle_def Let_def
  by (intro safe_if safe_bind) (simp_all add: ensure_tools_eq)

lemma safe_start_run [simp]: "safe (start_run w a b)"
  unfolding start_run_def Let_def by (intro safe_bind) simp_all

lemma safe_provision [simp]: "safe (provision w b c)"
  unfolding provision_def by (intro safe_bind) simp_all

lemma safe_build_and_test [simp]: "safe (build_and_test w a b c label wt)"
  unfolding build_and_test_def Let_def by (intro safe_bind safe_if) simp_all

lemma snd_cleanup [simp]: "snd (cleanup w a c) = Inr ()"
  unfolding cleanup_def try_pass_def
  by (simp add: snd_io_bind run_cmd_eq split: sum.splits prod.splits abort.splits)

lemma safe_cleanup [simp]: "safe (cleanup w a c)"
  by (simp add: safe_def)

lemma safe_copy2 [simp]: "safe (copy2 w src dst)"
  unfolding copy2_def by (intro safe_bind) (simp_all split: option.splits)

lemma safe_copy_tests [simp]: "safe (copy_tests w wt ts)"
  by (induction ts) (simp_all add: safe_bind)

lemma safe_stage [simp]: "safe (stage_bundle_into w b wt)"
  unfolding stage_bundle_into_def by (intro safe_bind) simp_all

lemma safe_build_and_report [simp]: "safe (build_and_report w a b c)"
  unfolding build_and_report_def Let_def by (intro safe_bind) simp_all

lemma safe_verify [simp]: "safe (verify w a b c)"
  unfolding verify_def by (intro safe_bind) simp_all

lemma safe_main: "safe (main w a)"
  unfolding main_def run_bundle_def by (intro safe_bind) simp_all

lemma main_abort_status: "snd (main w a) = Inl x \<Longrightarrow> exit_status (snd (main w a)) \<noteq> 0"
  using safe_main [of w a] by (auto simp: safe_def fatal_def exit_status_def)

subsection \<open>Starting the run\<close>

lemma start_run_eq:
  "start_run w a b =
     ([Mkdir (run_root (new_run w a b)),
       WriteJson (joinpath (run_root (new_run w a b)) ''meta.json'') (meta (new_run w a b))],
      Inr (new_run w a b))"
  unfolding start_run_def Let_def by (simp add: io_bind_Inr prod_eq_iff)

lemma snd_start_run [simp]: "snd (start_run w a b) = Inr (new_run w a b)"
  by (simp add: start_run_eq)

lemma fst_start_run:
  "fst (start_run w a b) =
     [Mkdir (run_root (new_run w a b)),
      WriteJson (joinpath (run_root (new_run w a b)) ''meta.json'') (meta (new_run w a b))]"
  by (simp add: start_run_eq)

lemma meta_new_run: "meta (new_run w a b) = make_meta b (run_id (new_run w a b))"
  by (simp add: new_run_def Let_def)

subsection \<open>Build and test\<close>

lemma build_and_test_eq:
  "build_and_test w a b c label wt =
     (case subprocess_run w (docker_build_cmd b (image_name c label)) wt (timeout_build a) of
        Inl e \<Rightarrow> ([Exec (docker_build_cmd b (image_name c label)) wt (timeout_build a)], Inl (Uncaught e))
      | Inr (rc, out, err) \<Rightarrow>
          if rc \<noteq> 0
          then ([Exec (docker_build_cmd b (image_name c label)) wt (timeout_build a),
                 WriteText (build_log c label ''.stdout.txt'') out,
                 WriteText (build_log c label ''.stderr.txt'') err],
                Inr (fail_outcome c label rc))
          else (case subprocess_run w (docker_run_cmd a b (image_name c label)) wt (timeout_test a) of
             Inl e \<Rightarrow>
               ([Exec (docker_build_cmd b (image_name c label)) wt (timeout_build a),
                 WriteText (build_log c label ''.stdout.txt'') out,
                 WriteText (build_log c label ''.stderr.txt'') err,
                 Exec (docker_run_cmd a b (image_name c label)) wt (timeout_test a)],
                Inl (Uncaught e))
           | Inr (rc', out', err') \<Rightarrow>
               ([Exec (docker_build_cmd b (image_name c label)) wt (timeout_build a),
                 WriteText (build_log c label ''.stdout.txt'') out,
                 WriteText (build_log c label ''.stderr.txt'') err,
                 Exec (docker_run_cmd a b (image_name c label)) wt (timeout_test a),
                 WriteText (pytest_log c label ''.stdout.txt'') out',
                 WriteText (pytest_log c label ''.stderr.txt'') err'],
                Inr (test_outcome c label rc'))))"
  unfolding build_and_test_def Let_def fail_outcome_def test_outcome_def
  by (simp add: run_cmd_eq io_bind_Inr io_bind_Inl split: sum.splits prod.splits)

lemma json_writes_build_and_test [simp]: "json_writes (fst (build_and_test w a b c label wt)) = []"
  by (simp add: build_and_test_eq split: sum.splits prod.splits)

lemma build_and_test_Inl:
  "snd (build_and_test w a b c label wt) = Inl x \<Longrightarrow> \<exists>e. x = Uncaught e"
  by (auto simp: build_and_test_eq split: sum.splits prod.splits if_splits)

subsection \<open>Verification stage\<close>

lemma fst_cleanup: "json_writes (fst (cleanup w a c)) = []"
  unfolding cleanup_def try_pass_def
  by (simp add: fst_io_bind snd_io_bind run_cmd_eq split: sum.splits prod.splits abort.splits)

lemma build_and_report_eq:
  "build_and_report w a b c =
     (fst (build_and_test w a b c ''before'' (base_dir c)) @
      (case snd (build_and_test w a b c ''before'' (base_dir c)) of
         Inl x \<Rightarrow> []
       | Inr d1 \<Rightarrow>
           fst (build_and_test w a b c ''after'' (head_dir c)) @
           (case snd (build_and_test w a b c ''after'' (head_dir c)) of
              Inl x \<Rightarrow> []
            | Inr d2 \<Rightarrow> report_events c d1 d2 @ fst (cleanup w a c))),
      case snd (build_and_test w a b c ''before'' (base_dir c)) of
        Inl x \<Rightarrow> Inl x
      | Inr d1 \<Rightarrow>
          (case snd (build_and_test w a b c ''after'' (head_dir c)) of
             Inl x \<Rightarrow> Inl x
           | Inr d2 \<Rightarrow> Inr ()))"
  unfolding build_and_report_def Let_def report_events_def
  by (simp add: prod_eq_iff fst_io_bind snd_io_bind split: sum.splits)

lemma copy2_eq:
  "copy2 w src dst =
     ([Copy src dst], case shutil_copy2 w src dst of None \<Rightarrow> Inr () | Some e \<Rightarrow> Inl (Uncaught e))"
  unfolding copy2_def by (simp add: prod_eq_iff fst_io_bind snd_io_bind split: option.splits)

lemma copy_tests_Inr_iff:
  "snd (copy_tests w wt ts) = Inr u \<longleftrightarrow>
     list_all (\<lambda>t. shutil_copy2 w (path_str t) (joinpath wt (snd t)) = None) ts"
  by (induction ts) (auto simp: snd_io_bind copy2_eq split: option.splits)

lemma copy_tests_Inl:
  "snd (copy_tests w wt ts) = Inl x \<Longrightarrow> \<exists>e. x = Uncaught e"
  by (induction ts) (auto simp: snd_io_bind copy2_eq split: option.splits)

lemma copy_tests_trace [simp]:
  "json_writes (fst (copy_tests w wt ts)) = []" "execs (fst (copy_tests w wt ts)) = []"
  by (induction ts; simp add: fst_io_bind copy2_eq split: sum.splits)+

lemma stage_Inr_iff: "snd (stage_bundle_into w b wt) = Inr u \<longleftrightarrow> copies_ok w b wt"
  unfolding stage_bundle_into_def copies_ok_def
  by (simp add: snd_io_bind copy2_eq copy_tests_Inr_iff split: option.splits)

lemma stage_ok: "copies_ok w b wt \<Longrightarrow> snd (stage_bundle_into w b wt) = Inr ()"
  by (simp add: stage_Inr_iff)

lemma stage_Inl: "snd (stage_bundle_into w b wt) = Inl x \<Longrightarrow> \<exists>e. x = Uncaught e"
  unfolding stage_bundle_into_def
  by (auto simp: snd_io_bind copy2_eq split: option.splits dest: copy_tests_Inl)

lemma json_writes_stage [simp]: "json_writes (fst (stage_bundle_into w b d)) = []"
  unfolding stage_bundle_into_def by (simp add: fst_io_bind copy2_eq split: sum.splits)

lemma execs_stage [simp]: "execs (fst (stage_bundle_into w b d)) = []"
  unfolding stage_bundle_into_def by (simp add: fst_io_bind copy2_eq split: sum.splits)

lemma case_stage:
  "(case snd (stage_bundle_into w b wt) of Inl e \<Rightarrow> A | Inr x \<Rightarrow> F x) =
   (if copies_ok w b wt then F () else A)"
proof (cases "snd (stage_bundle_into w b wt)")
  case (Inl e)
  then have "\<not> copies_ok w b wt"
    using stage_Inr_iff [of w b wt "()"] by simp
  with Inl show ?thesis by simp
next
  case (Inr x)
  then have "copies_ok w b wt"
    using stage_Inr_iff [of w b wt x] by simp
  with Inr show ?thesis by simp
qed

lemma json_writes_build_and_report:
  "json_writes (fst (build_and_report w a b c)) =
     (case snd (build_and_test w a b c ''before'' (base_dir c)) of
         Inl x \<Rightarrow> []
       | Inr d1 \<Rightarrow>
           (case snd (build_and_test w a b c ''after'' (head_dir c)) of
              Inl x \<Rightarrow> []
            | Inr d2 \<Rightarrow>
                [(report_path c,
                  make_report c (classify (truthy (dict_get d1 ''test_ok'')) (truthy (dict_get d2 ''test_ok''))) d1 d2)]))"
  by (simp add: build_and_report_eq fst_cleanup report_events_def split: sum.splits)

lemma snd_build_and_report_Inr_iff:
  "snd (build_and_report w a b c) = Inr u \<longleftrightarrow>
     (\<exists>d1 d2. snd (build_and_test w a b c ''before'' (base_dir c)) = Inr d1 \<and>
              snd (build_and_test w a b c ''after'' (head_dir c)) = Inr d2)"
  by (simp add: build_and_report_eq split: sum.splits)

lemma build_and_report_Inl:
  "snd (build_and_report w a b c) = Inl x \<Longrightarrow>
     json_writes (fst (build_and_report w a b c)) = [] \<and> (\<exists>e. x = Uncaught e)"
  by (auto simp: build_and_report_eq split: sum.splits dest: build_and_test_Inl)

lemma json_writes_verify:
  "json_writes (fst (verify w a b c)) =
     (if staged_ok w b c then json_writes (fst (build_and_report w a b c)) else [])"
  unfolding verify_def staged_ok_def
  by (simp add: fst_io_bind case_stage)

lemma execs_verify:
  "execs (fst (verify w a b c)) =
     (if staged_ok w b c then execs (fst (build_and_report w a b c)) else [])"
  unfolding verify_def staged_ok_def
  by (simp add: fst_io_bind case_stage)

lemma snd_verify_Inr_iff:
  "snd (verify w a b c) = Inr u \<longleftrightarrow>
     staged_ok w b c \<and>
     (\<exists>d1 d2. snd (build_and_test w a b c ''before'' (base_dir c)) = Inr d1 \<and>
              snd (build_and_test w a b c ''after'' (head_dir c)) = Inr d2)"
  unfolding verify_def staged_ok_def
  by (auto simp: snd_io_bind_Inr_iff stage_Inr_iff snd_build_and_report_Inr_iff)

lemma snd_verify_staged:
  "staged_ok w b c \<Longrightarrow> snd (verify w a b c) = snd (build_and_report w a b c)"
  unfolding verify_def staged_ok_def
  by (simp add: snd_io_bind stage_ok)

lemma verify_Inl:
  "snd (verify w a b c) = Inl x \<Longrightarrow> json_writes (fst (verify w a b c)) = [] \<and> (\<exists>e. x = Uncaught e)"
proof (cases "staged_ok w b c")
  case True
  assume "snd (verify w a b c) = Inl x"
  with True have "snd (build_and_report w a b c) = Inl x" by (simp add: snd_verify_staged)
  from build_and_report_Inl [OF this] True show ?thesis by (simp add: json_writes_verify)
next
  case False
  assume x: "snd (verify w a b c) = Inl x"
  have "\<exists>e. x = Uncaught e"
    using x unfolding verify_def
    by (auto simp: snd_io_bind build_and_report_eq split: sum.splits
        dest: stage_Inl build_and_test_Inl)
  with False show ?thesis by (simp add: json_writes_verify)
qed

subsection \<open>The whole run\<close>

lemma main_eq:
  "main w a =
     (fst (load_bundle w a) @
      (case snd (load_bundle w a) of
         Inl x \<Rightarrow> []
       | Inr b \<Rightarrow>
           fst (start_run w a b) @ fst (provision w b (new_run w a b)) @
           (if provision_ok w b (new_run w a b) then fst (verify w a b (new_run w a b)) else [])),
      case snd (load_bundle w a) of
        Inl x \<Rightarrow> Inl x
      | Inr b \<Rightarrow>
          (case snd (provision w b (new_run w a b)) of
             Inl x \<Rightarrow> Inl x
           | Inr u \<Rightarrow> snd (verify w a b (new_run w a b))))"
proof -
  have p: "\<And>b. (case snd (provision w b (new_run w a b)) of Inl x \<Rightarrow> []
                 | Inr u \<Rightarrow> fst (verify w a b (new_run w a b))) =
           (if provision_ok w b (new_run w a b) then fst (verify w a b (new_run w a b)) else [])"
  proof -
    fix b
    show "(case snd (provision w b (new_run w a b)) of Inl x \<Rightarrow> []
                 | Inr u \<Rightarrow> fst (verify w a b (new_run w a b))) =
           (if provision_ok w b (new_run w a b) then fst (verify w a b (new_run w a b)) else [])"
      using provision_Inr_iff [of w b "new_run w a b" "()"]
      by (cases "snd (provision w b (new_run w a b))") auto
  qed
  show ?thesis
    unfolding main_def run_bundle_def
    by (simp add: prod_eq_iff fst_io_bind snd_io_bind p split: sum.splits)
qed

lemma snd_main_Inr_iff:
  "snd (main w a) = Inr u \<longleftrightarrow>
     (\<exists>b. snd (load_bundle w a) = Inr b \<and> provision_ok w b (new_run w a b) \<and>
          snd (verify w a b (new_run w a b)) = Inr ())"
proof -
  have "\<And>b. (case snd (provision w b (new_run w a b)) of Inl x \<Rightarrow> Inl x
            | Inr u \<Rightarrow> snd (verify w a b (new_run w a b))) = Inr u \<longleftrightarrow>
          provision_ok w b (new_run w a b) \<and> snd (verify w a b (new_run w a b)) = Inr ()"
  proof -
    fix b
    show "(case snd (provision w b (new_run w a b)) of Inl x \<Rightarrow> Inl x
            | Inr u \<Rightarrow> snd (verify w a b (new_run w a b))) = Inr u \<longleftrightarrow>
          provision_ok w b (new_run w a b) \<and> snd (verify w a b (new_run w a b)) = Inr ()"
      using provision_Inr_iff [of w b "new_run w a b" "()"]
      by (cases "snd (provision w b (new_run w a b))") auto
  qed
  then show ?thesis
    by (cases "snd (load_bundle w a)") (simp_all add: main_eq)
qed

lemma json_writes_main:
  "json_writes (fst (main w a)) =
     (case snd (load_bundle w a) of
         Inl x \<Rightarrow> []
       | Inr b \<Rightarrow>
           (joinpath (run_root (new_run w a b)) ''meta.json'', meta (new_run w a b)) #
           (if provision_ok w b (new_run w a b) then json_writes (fst (verify w a b (new_run w a b))) else []))"
  by (simp add: main_eq fst_load_bundle fst_start_run split: sum.splits)

lemma execs_main:
  "execs (fst (main w a)) =
     (case snd (load_bundle w a) of
         Inl x \<Rightarrow> []
       | Inr b \<Rightarrow>
           execs (fst (provision w b (new_run w a b))) @
           (if provision_ok w b (new_run w a b) then execs (fst (verify w a b (new_run w a b))) else []))"
  by (simp add: main_eq fst_load_bundle fst_start_run split: sum.splits)

subsection \<open>Reading dicts, reports and the outcome of a failed build\<close>

lemma dict_get_Cons [simp]:
  "dict_get ((k, v) # d) k' = (if k = k' then v else dict_get d k')"
  by (simp add: dict_get_def)

lemma dict_get_extend:
  "dict_get (dict_extend d ((k, v) # kvs)) k' = dict_get (dict_extend (AList.update k v d) kvs) k'"
  by (simp add: dict_extend_def)

lemma map_of_dict_extend: "map_of (dict_extend d kvs) = map_of d ++ map_of (rev kvs)"
  unfolding dict_extend_def
proof (induction kvs arbitrary: d)
  case Nil
  show ?case by simp
next
  case (Cons kv kvs)
  obtain k v where kv: "kv = (k, v)" by (cases kv)
  have "map_of (fold (\<lambda>(k, v). AList.update k v) kvs (AList.update k v d))
        = map_of (AList.update k v d) ++ map_of (rev kvs)"
    by (rule Cons.IH)
  then show ?case
    by (simp add: kv update_conv' map_add_def fun_eq_iff split: option.splits)
qed

lemma make_report_get:
  "dict_get (make_report c st d1 d2) ''status'' = JStr st"
  "dict_get (make_report c st d1 d2) ''before'' = JDict d1"
  "dict_get (make_report c st d1 d2) ''after'' = JDict d2"
  by (simp_all add: dict_get_def make_report_def map_of_dict_extend)

lemma build_fails_eq:
  assumes "subprocess_run w (docker_build_cmd b (image_name c label)) wt (timeout_build a) = Inr (rc, out, err)"
    and "rc \<noteq> 0"
  shows "snd (build_and_test w a b c label wt) = Inr (fail_outcome c label rc)"
    and "execs (fst (build_and_test w a b c label wt)) = [(docker_build_cmd b (image_name c label), wt)]"
  using assms by (simp_all add: build_and_test_eq)

lemma fail_outcome_get:
  "dict_get (fail_outcome c label rc) ''build_ok'' = JBool False"
  "dict_get (fail_outcome c label rc) ''test_ok'' = JBool False"
  "dict_get (fail_outcome c label rc) ''test_exit'' = JNull"
  "dict_get (fail_outcome c label rc) ''build_exit'' = JInt rc"
  by (simp_all add: fail_outcome_def)

subsection \<open>The authoritative linked-PR record\<close>

lemma select_pr_first:
  "linked_prs iss = Some (pr0 # rest) \<Longrightarrow>
     select_pr iss = (if pr_complete pr0 then ([], Inr pr0)
        else if or_empty (base_sha pr0) = [] then die ''linked_prs[0] missing base_sha.''
        else die ''linked_prs[0] missing patch text; cannot apply fix on top of base_sha.'')"
  by (simp add: select_pr_def pr_complete_def io_return_def)

lemma load_bundle_first_pr:
  assumes "snd (load_bundle w a) = Inr b"
  shows "\<exists>iss pr0 rest. load_issue_json w (resolve w (bundle_dir a)) = Inr iss \<and>
           linked_prs iss = Some (pr0 # rest) \<and> pr_complete pr0 \<and>
           base_sha pr0 = Some (b_base_sha b) \<and> patch pr0 = Some (b_patch_text b) \<and>
           head_sha pr0 = b_head_sha b"
proof -
  from load_bundle_Inr [OF assms] obtain iss pr0 rest where
    i: "load_issue_json w (resolve w (bundle_dir a)) = Inr iss" and
    l: "linked_prs iss = Some (pr0 # rest)" and
    c: "or_empty (base_sha pr0) \<noteq> []" "py_strip (or_empty (patch pr0)) \<noteq> []" and
    e: "b_base_sha b = or_empty (base_sha pr0)" "b_head_sha b = head_sha pr0"
       "b_patch_text b = or_empty (patch pr0)"
    by blast
  from c(1) e(1) have 1: "base_sha pr0 = Some (b_base_sha b)"
    by (cases "base_sha pr0") (simp_all add: or_empty_def)
  from c(2) e(3) have 2: "patch pr0 = Some (b_patch_text b)"
    by (cases "patch pr0") (simp_all add: or_empty_def py_strip_def)
  from c have "pr_complete pr0" by (simp add: pr_complete_def)
  with i l 1 2 e(2) [symmetric] show ?thesis by blast
qed

lemma load_bundle_incomplete:
  assumes "load_issue_json w (resolve w (bundle_dir a)) = Inr iss"
    and "linked_prs iss = Some (pr0 # rest)" and "\<not> pr_complete pr0"
  shows "\<exists>x. snd (load_bundle w a) = Inl x"
proof (cases "snd (load_bundle w a)")
  case (Inl x)
  then show ?thesis by blast
next
  case (Inr b)
  from load_bundle_first_pr [OF Inr] assms show ?thesis by auto
qed

text \<open>
  C4, as the code has it. Only the first record of the linked-PR list is read. If it has a
  non-empty base revision and a patch that is not all whitespace, it is selected and the
  bundle carries its base revision, head revision and patch; if it has not, the run stops
  with a non-zero status before any command is run, whatever the later records hold.
\<close>

theorem first_linked_pr_only:
  "(linked_prs iss = Some (pr0 # rest) \<and> pr_complete pr0 \<longrightarrow> select_pr iss = ([], Inr pr0)) \<and>
   (linked_prs iss = Some (pr0 # rest) \<and> \<not> pr_complete pr0 \<longrightarrow>
      snd (select_pr iss) = Inl (SystemExit 2)) \<and>
   (load_issue_json w (resolve w (bundle_dir a)) = Inr iss \<and> linked_prs iss = Some (pr0 # rest) \<and>
      \<not> pr_complete pr0 \<longrightarrow>
      exit_status (snd (main w a)) \<noteq> 0 \<and> execs (fst (main w a)) = []) \<and>
   (snd (load_bundle w a) = Inr b \<longrightarrow>
      (\<exists>iss pr rest. load_issue_json w (resolve w (bundle_dir a)) = Inr iss \<and>
           linked_prs iss = Some (pr # rest) \<and> pr_complete pr \<and>
           base_sha pr = Some (b_base_sha b) \<and> patch pr = Some (b_patch_text b) \<and>
           head_sha pr = b_head_sha b))"
proof (intro conjI impI)
  assume "linked_prs iss = Some (pr0 # rest) \<and> pr_complete pr0"
  then show "select_pr iss = ([], Inr pr0)" by (simp add: select_pr_first)
next
  assume "linked_prs iss = Some (pr0 # rest) \<and> \<not> pr_complete pr0"
  then show "snd (select_pr iss) = Inl (SystemExit 2)" by (simp add: select_pr_first)
next
  assume h: "load_issue_json w (resolve w (bundle_dir a)) = Inr iss \<and> linked_prs iss = Some (pr0 # rest) \<and>
      \<not> pr_complete pr0"
  then obtain x where x: "snd (load_bundle w a) = Inl x"
    using load_bundle_incomplete [of w a iss pr0 rest] by blast
  then have m: "snd (main w a) = Inl x" by (simp add: main_eq)
  show "exit_status (snd (main w a)) \<noteq> 0" by (rule main_abort_status [OF m])
  show "execs (fst (main w a)) = []" using x by (simp add: execs_main)
next
  assume "snd (load_bundle w a) = Inr b"
  then show "\<exists>iss pr rest. load_issue_json w (resolve w (bundle_dir a)) = Inr iss \<and>
           linked_prs iss = Some (pr # rest) \<and> pr_complete pr \<and>
           base_sha pr = Some (b_base_sha b) \<and> patch pr = Some (b_patch_text b) \<and>
           head_sha pr = b_head_sha b"
    by (rule load_bundle_first_pr)
qed

lemma ex_load_bundle_any: "snd (load_bundle (ex_world ex_issue run) ex_args) = Inr ex_bundle"
  by code_simp

lemma ex_load_issue:
  "load_issue_json (ex_world iss run) (resolve (ex_world iss run) (bundle_dir ex_args)) = Inr iss"
  by (simp add: load_issue_json_def sorted_glob_def fnmatch_star_def ex_world_def ex_args_def)

theorem first_linked_pr_only_witness:
  "select_pr ex_issue = ([], Inr ex_pr) \<and>
   snd (select_pr ex_issue_second_pr) = Inl (SystemExit 2) \<and>
   exit_status (snd (main (ex_world ex_issue_second_pr run_all_ok) ex_args)) \<noteq> 0 \<and>
   execs (fst (main (ex_world ex_issue_second_pr run_all_ok) ex_args)) = [] \<and>
   snd (load_bundle (ex_world ex_issue run_all_ok) ex_args) = Inr ex_bundle \<and>
   (\<exists>iss pr rest.
       load_issue_json (ex_world ex_issue run_all_ok)
         (resolve (ex_world ex_issue run_all_ok) (bundle_dir ex_args)) = Inr iss \<and>
       linked_prs iss = Some (pr # rest) \<and> pr_complete pr \<and>
       base_sha pr = Some (b_base_sha ex_bundle) \<and> patch pr = Some (b_patch_text ex_bundle) \<and>
       head_sha pr = b_head_sha ex_bundle)"
proof -
  have c: "pr_complete ex_pr"
    by (simp add: pr_complete_def ex_pr_def or_empty_def py_strip_def py_isspace_def)
  have n: "\<not> pr_complete \<lparr>base_sha = None, head_sha = None, patch = None\<rparr>"
    by (simp add: pr_complete_def or_empty_def)
  have 1: "linked_prs ex_issue = Some (ex_pr # []) \<and> pr_complete ex_pr"
    using c by (simp add: ex_issue_def)
  have 2: "linked_prs ex_issue_second_pr = Some (\<lparr>base_sha = None, head_sha = None, patch = None\<rparr> # [ex_pr])
      \<and> \<not> pr_complete \<lparr>base_sha = None, head_sha = None, patch = None\<rparr>"
    using n by (simp add: ex_issue_second_pr_def)
  have 3: "load_issue_json (ex_world ex_issue_second_pr run_all_ok)
       (resolve (ex_world ex_issue_second_pr run_all_ok) (bundle_dir ex_args)) = Inr ex_issue_second_pr"
    by (rule ex_load_issue)
  from first_linked_pr_only [of ex_issue ex_pr "[]"] 1
  have a: "select_pr ex_issue = ([], Inr ex_pr)" by blast
  from first_linked_pr_only [of ex_issue_second_pr "\<lparr>base_sha = None, head_sha = None, patch = None\<rparr>" "[ex_pr]"
      "ex_world ex_issue_second_pr run_all_ok" ex_args] 2 3
  have b: "snd (select_pr ex_issue_second_pr) = Inl (SystemExit 2)"
    and d: "exit_status (snd (main (ex_world ex_issue_second_pr run_all_ok) ex_args)) \<noteq> 0 \<and>
       execs (fst (main (ex_world ex_issue_second_pr run_all_ok) ex_args)) = []"
    by blast+
  note l = ex_load_bundle_any [of run_all_ok]
  from first_linked_pr_only [of _ _ _ "ex_world ex_issue run_all_ok" ex_args ex_bundle,
      THEN conjunct2, THEN conjunct2, THEN conjunct2, THEN mp, OF l]
  have e: "\<exists>iss pr rest.
       load_issue_json (ex_world ex_issue run_all_ok)
         (resolve (ex_world ex_issue run_all_ok) (bundle_dir ex_args)) = Inr iss \<and>
       linked_prs iss = Some (pr # rest) \<and> pr_complete pr \<and>
       base_sha pr = Some (b_base_sha ex_bundle) \<and> patch pr = Some (b_patch_text ex_bundle) \<and>
       head_sha pr = b_head_sha ex_bundle" .
  from d have d1: "exit_status (snd (main (ex_world ex_issue_second_pr run_all_ok) ex_args)) \<noteq> 0"
    by (rule conjunct1)
  from d have d2: "execs (fst (main (ex_world ex_issue_second_pr run_all_ok) ex_args)) = []"
    by (rule conjunct2)
  from a b d1 d2 l e show ?thesis by (intro conjI)
qed

text \<open>
  The claim as worded fails: with an empty first record and a complete second one the run
  dies on the first record instead of selecting the second.
\<close>

theorem later_linked_pr_counterexample:
  "linked_prs ex_issue_second_pr =
     Some [\<lparr>base_sha = None, head_sha = None, patch = None\<rparr>,
           \<lparr>base_sha = Some ''abc123'', head_sha = Some ''def456'', patch = Some ''diff''\<rparr>] \<and>
   main (ex_world ex_issue_second_pr run_all_ok) ex_args =
     ([PrintErr ''linked_prs[0] missing base_sha.''], Inl (SystemExit 2))"
  by code_simp

subsection \<open>Selection among several candidates\<close>

lemma sort_Cons_least:
  fixes xs :: "'a::linorder list"
  assumes "sort xs = n # ns"
  shows "n \<in> set xs \<and> (\<forall>m \<in> set xs. n \<le> m)"
proof -
  have "sorted (sort xs)" by simp
  then have s: "sorted (n # ns)" using assms by simp
  have "set (sort xs) = set xs" by simp
  then have e: "set xs = set (n # ns)" using assms by simp
  from s have "\<forall>m \<in> set ns. n \<le> m" by simp
  with e show ?thesis by auto
qed

lemma sorted_glob_names:
  "map snd (sorted_glob w dir pre suf) = sort (filter (fnmatch_star pre suf) (listdir w dir))"
  by (simp add: sorted_glob_def comp_def)

lemma sorted_glob_dirs: "p \<in> set (sorted_glob w dir pre suf) \<Longrightarrow> fst p = dir"
  by (auto simp: sorted_glob_def)

lemma sorted_glob_Nil_iff:
  "sorted_glob w dir pre suf = [] \<longleftrightarrow> \<not> (\<exists>n \<in> set (listdir w dir). fnmatch_star pre suf n)"
proof -
  have "sorted_glob w dir pre suf = [] \<longleftrightarrow> set (sort (filter (fnmatch_star pre suf) (listdir w dir))) = {}"
    unfolding sorted_glob_def by (simp only: map_is_Nil_conv set_empty)
  then show ?thesis by (auto simp: filter_empty_conv)
qed

lemma pick_dockerfile_least:
  assumes "pick_dockerfile w dir = Inr p"
  shows "fst p = dir \<and> snd p \<in> set (listdir w dir) \<and> fnmatch_star [] ''.dockerfile'' (snd p) \<and>
         (\<forall>n \<in> set (listdir w dir). fnmatch_star [] ''.dockerfile'' n \<longrightarrow> snd p \<le> n)"
proof -
  from assms obtain rest where g: "sorted_glob w dir [] ''.dockerfile'' = p # rest"
    unfolding pick_dockerfile_def by (auto split: list.splits)
  then have d: "fst p = dir" using sorted_glob_dirs [of p w dir "[]" "''.dockerfile''"] by simp
  from g have "sort (filter (fnmatch_star [] ''.dockerfile'') (listdir w dir)) = snd p # map snd rest"
    using sorted_glob_names [of w dir "[]" "''.dockerfile''"] by simp
  from sort_Cons_least [OF this] d show ?thesis by auto
qed

lemma pick_tests_all:
  assumes "test_names w dir \<noteq> []"
  shows "map snd (pick_tests w dir) = sort (test_names w dir)"
proof -
  have "sorted_glob w dir ''test'' ''.py'' \<noteq> []"
    using assms unfolding sorted_glob_def test_names_def
    by (simp only: map_is_Nil_conv) (metis set_sort set_empty)
  then have "pick_tests w dir = sorted_glob w dir ''test'' ''.py''"
    by (simp add: pick_tests_def Let_def)
  then show ?thesis by (simp add: sorted_glob_names test_names_def)
qed

lemma map_snd_filter_Pair:
  "map snd (filter (\<lambda>p. P (snd p)) (map (Pair d) xs)) = filter P xs"
  by (induction xs) simp_all

lemma pick_tests_fallback:
  assumes "test_names w dir = []"
  shows "pick_tests w dir = map (Pair dir) (sort (fallback_names w dir))"
proof -
  have "sorted_glob w dir ''test'' ''.py'' = []"
    using assms unfolding sorted_glob_def test_names_def by simp
  then have "pick_tests w dir =
      filter (\<lambda>p. \<not> startswith (snd p) ''issue_'') (sorted_glob w dir [] ''.py'')"
    by (simp add: pick_tests_def Let_def)
  also have "\<dots> = map (Pair dir)
      (filter (\<lambda>n. \<not> startswith n ''issue_'') (sort (filter (fnmatch_star [] ''.py'') (listdir w dir))))"
    unfolding sorted_glob_def by (simp add: filter_map comp_def)
  also have "filter (\<lambda>n. \<not> startswith n ''issue_'') (sort (filter (fnmatch_star [] ''.py'') (listdir w dir)))
      = sort (fallback_names w dir)"
    unfolding fallback_names_def by (simp add: filter_sort conj_commute)
  finally show ?thesis .
qed

text \<open>
  C6, as the code has it. Candidates are taken in ascending order of their names. The
  dockerfile selected is the least name ending in \<^verbatim>\<open>.dockerfile\<close>, and one is selected
  whenever such a name exists. The test files are not cut down to one: when names of the
  form \<^verbatim>\<open>test*.py\<close> exist, all of them are selected, in ascending order, and nothing
  else; when none exists, the selection is every name ending in \<^verbatim>\<open>.py\<close> that does not
  start with \<^verbatim>\<open>issue_\<close>, again all of them in ascending order (possibly none).
\<close>

theorem pick_sorted_first_and_all_tests:
  "(pick_dockerfile w dir = Inr p \<longrightarrow>
      fst p = dir \<and> snd p \<in> set (listdir w dir) \<and> fnmatch_star [] ''.dockerfile'' (snd p) \<and>
      (\<forall>n \<in> set (listdir w dir). fnmatch_star [] ''.dockerfile'' n \<longrightarrow> snd p \<le> n)) \<and>
   ((\<exists>n \<in> set (listdir w dir). fnmatch_star [] ''.dockerfile'' n) \<longrightarrow>
      (\<exists>q. pick_dockerfile w dir = Inr q)) \<and>
   (test_names w dir \<noteq> [] \<longrightarrow>
      map snd (pick_tests w dir) = sort (test_names w dir) \<and>
      set (map snd (pick_tests w dir)) = {n \<in> set (listdir w dir). fnmatch_star ''test'' ''.py'' n} \<and>
      sorted (map snd (pick_tests w dir)) \<and>
      length (pick_tests w dir) = length (test_names w dir) \<and>
      (\<forall>q \<in> set (pick_tests w dir). fst q = dir)) \<and>
   (test_names w dir = [] \<longrightarrow>
      map snd (pick_tests w dir) = sort (fallback_names w dir) \<and>
      set (map snd (pick_tests w dir)) =
        {n \<in> set (listdir w dir). fnmatch_star [] ''.py'' n \<and> \<not> startswith n ''issue_''} \<and>
      sorted (map snd (pick_tests w dir)) \<and>
      length (pick_tests w dir) = length (fallback_names w dir) \<and>
      (\<forall>q \<in> set (pick_tests w dir). fst q = dir))"
proof (intro conjI impI)
  assume "pick_dockerfile w dir = Inr p"
  from pick_dockerfile_least [OF this]
  show "fst p = dir" "snd p \<in> set (listdir w dir)" "fnmatch_star [] ''.dockerfile'' (snd p)"
    "\<forall>n \<in> set (listdir w dir). fnmatch_star [] ''.dockerfile'' n \<longrightarrow> snd p \<le> n"
    by blast+
next
  assume "\<exists>n \<in> set (listdir w dir). fnmatch_star [] ''.dockerfile'' n"
  then have "sorted_glob w dir [] ''.dockerfile'' \<noteq> []"
    by (simp only: sorted_glob_Nil_iff not_not)
  then show "\<exists>q. pick_dockerfile w dir = Inr q"
    unfolding pick_dockerfile_def by (cases "sorted_glob w dir [] ''.dockerfile''") simp_all
next
  assume h: "test_names w dir \<noteq> []"
  show e: "map snd (pick_tests w dir) = sort (test_names w dir)"
    by (rule pick_tests_all [OF h])
  show "set (map snd (pick_tests w dir)) = {n \<in> set (listdir w dir). fnmatch_star ''test'' ''.py'' n}"
    unfolding e by (simp add: test_names_def)
  show "sorted (map snd (pick_tests w dir))"
    unfolding e by simp
  show "length (pick_tests w dir) = length (test_names w dir)"
    using arg_cong [OF e, of length] by simp
  have "pick_tests w dir = sorted_glob w dir ''test'' ''.py''"
    using h e by (auto simp: pick_tests_def Let_def sorted_glob_def test_names_def)
  then show "\<forall>q \<in> set (pick_tests w dir). fst q = dir"
    by (auto dest: sorted_glob_dirs)
next
  assume h: "test_names w dir = []"
  note p = pick_tests_fallback [OF h]
  show e: "map snd (pick_tests w dir) = sort (fallback_names w dir)"
    unfolding p by (simp add: comp_def)
  show "set (map snd (pick_tests w dir)) =
        {n \<in> set (listdir w dir). fnmatch_star [] ''.py'' n \<and> \<not> startswith n ''issue_''}"
    unfolding e by (simp add: fallback_names_def)
  show "sorted (map snd (pick_tests w dir))"
    unfolding e by simp
  show "length (pick_tests w dir) = length (fallback_names w dir)"
    unfolding p by simp
  show "\<forall>q \<in> set (pick_tests w dir). fst q = dir"
    unfolding p by simp
qed

lemma ex_listdir:
  "listdir (ex_world iss run) d = [''test_b.py'', ''issue_7.json'', ''claude.dockerfile'', ''test_a.py'']"
  by (simp add: ex_world_def)

lemma ex_test_names: "test_names (ex_world iss run) ''/b'' = [''test_b.py'', ''test_a.py'']"
  by (simp add: test_names_def ex_listdir fnmatch_star_def)

lemma ex_pick_dockerfile: "pick_dockerfile (ex_world iss run) ''/b'' = Inr (''/b'', ''claude.dockerfile'')"
  by (simp add: pick_dockerfile_def sorted_glob_def ex_listdir fnmatch_star_def)

lemma ex_fallback_listdir:
  "listdir ex_world_fallback d =
     [''b.dockerfile'', ''check_b.py'', ''issue_7.json'', ''a.dockerfile'', ''check_a.py'',
      ''issue_helper.py'']"
  by (simp add: ex_world_fallback_def)

lemma ex_fallback_dockerfile:
  "pick_dockerfile ex_world_fallback ''/b'' = Inr (''/b'', ''a.dockerfile'')"
  by (simp add: pick_dockerfile_def sorted_glob_def ex_fallback_listdir fnmatch_star_def)

lemma ex_fallback_test_names: "test_names ex_world_fallback ''/b'' = []"
  by (simp add: test_names_def ex_fallback_listdir fnmatch_star_def)

lemma ex_fallback_names:
  "fallback_names ex_world_fallback ''/b'' = [''check_b.py'', ''check_a.py'']"
  by (simp add: fallback_names_def ex_fallback_listdir fnmatch_star_def startswith_def)

theorem pick_sorted_first_and_all_tests_witness:
  "pick_dockerfile ex_world_fallback ''/b'' = Inr (''/b'', ''a.dockerfile'') \<and>
   listdir ex_world_fallback ''/b'' =
     [''b.dockerfile'', ''check_b.py'', ''issue_7.json'', ''a.dockerfile'', ''check_a.py'',
      ''issue_helper.py''] \<and>
   ''a.dockerfile'' \<in> set (listdir ex_world_fallback ''/b'') \<and>
   fnmatch_star [] ''.dockerfile'' ''a.dockerfile'' \<and>
   ''a.dockerfile'' \<le> ''b.dockerfile'' \<and>
   (\<exists>q. pick_dockerfile ex_world_fallback ''/b'' = Inr q) \<and>
   test_names (ex_world ex_issue run_all_ok) ''/b'' = [''test_b.py'', ''test_a.py''] \<and>
   map snd (pick_tests (ex_world ex_issue run_all_ok) ''/b'') =
     sort (test_names (ex_world ex_issue run_all_ok) ''/b'') \<and>
   length (pick_tests (ex_world ex_issue run_all_ok) ''/b'') = 2 \<and>
   test_names ex_world_fallback ''/b'' = [] \<and>
   fallback_names ex_world_fallback ''/b'' = [''check_b.py'', ''check_a.py''] \<and>
   map snd (pick_tests ex_world_fallback ''/b'') = sort (fallback_names ex_world_fallback ''/b'') \<and>
   length (pick_tests ex_world_fallback ''/b'') = 2"
proof -
  let ?w = "ex_world ex_issue run_all_ok"
  let ?f = "ex_world_fallback"
  note t = pick_sorted_first_and_all_tests [of ?f "''/b''" "(''/b'', ''a.dockerfile'')"]
  note u = pick_sorted_first_and_all_tests [of ?w "''/b''"]
  note pd = ex_fallback_dockerfile
  note ld = ex_fallback_listdir [of "''/b''"]
  from t [THEN conjunct1, THEN mp, OF pd]
  have 1: "''a.dockerfile'' \<in> set (listdir ?f ''/b'') \<and>
      fnmatch_star [] ''.dockerfile'' ''a.dockerfile'' \<and>
      (\<forall>n \<in> set (listdir ?f ''/b''). fnmatch_star [] ''.dockerfile'' n \<longrightarrow> ''a.dockerfile'' \<le> n)"
    unfolding snd_conv by (elim conjE) (intro conjI, assumption+)
  from 1 have da: "''a.dockerfile'' \<in> set (listdir ?f ''/b'')" by (rule conjunct1)
  from 1 have db: "fnmatch_star [] ''.dockerfile'' ''a.dockerfile''" by (elim conjE)
  from 1 have least: "\<forall>n \<in> set (listdir ?f ''/b''). fnmatch_star [] ''.dockerfile'' n \<longrightarrow> ''a.dockerfile'' \<le> n"
    by (elim conjE)
  have bm: "''b.dockerfile'' \<in> set (listdir ?f ''/b'')" by (simp add: ld)
  have bf: "fnmatch_star [] ''.dockerfile'' ''b.dockerfile''" by (simp add: fnmatch_star_def)
  from least [THEN bspec, OF bm, THEN mp, OF bf]
  have dc: "''a.dockerfile'' \<le> ''b.dockerfile''" .
  have ex: "\<exists>n \<in> set (listdir ?f ''/b''). fnmatch_star [] ''.dockerfile'' n"
    using bm bf by (rule bexI [rotated])
  from t [THEN conjunct2, THEN conjunct1, THEN mp, OF ex]
  have q: "\<exists>q. pick_dockerfile ?f ''/b'' = Inr q" .
  note tn = ex_test_names [of ex_issue run_all_ok]
  have ne: "test_names ?w ''/b'' \<noteq> []" by (simp add: tn)
  from u [THEN conjunct2, THEN conjunct2, THEN conjunct1, THEN mp, OF ne]
  have 2: "map snd (pick_tests ?w ''/b'') = sort (test_names ?w ''/b'')"
    and 3: "length (pick_tests ?w ''/b'') = length (test_names ?w ''/b'')"
    by (rule conjunct1, elim conjE)
  from 3 have 4: "length (pick_tests ?w ''/b'') = 2" by (simp add: tn)
  note fe = ex_fallback_test_names
  note fn = ex_fallback_names
  from t [THEN conjunct2, THEN conjunct2, THEN conjunct2, THEN mp, OF fe]
  have 5: "map snd (pick_tests ?f ''/b'') = sort (fallback_names ?f ''/b'')"
    and 6: "length (pick_tests ?f ''/b'') = length (fallback_names ?f ''/b'')"
    by (rule conjunct1, elim conjE)
  from 6 have 7: "length (pick_tests ?f ''/b'') = 2" by (simp add: fn)
  from pd ld da db dc q tn 2 4 fe fn 5 7 show ?thesis by (intro conjI)
qed

text \<open>
  The claim as worded fails for the test files: from a directory with two candidates both
  are selected, not only the least.
\<close>

theorem pick_tests_two_counterexample:
  "map snd (pick_tests (ex_world ex_issue run_all_ok) ''/b'') = [''test_a.py'', ''test_b.py'']"
  by code_simp

subsection \<open>Run identifiers\<close>

lemma digit_char_inj:
  assumes "a < 10" "b < 10" "digit_char a = digit_char b"
  shows "a = b"
proof -
  from assms(3) have "(of_char (char_of (48 + a)) :: nat) = of_char (char_of (48 + b))"
    by (simp add: digit_char_def)
  with assms(1,2) show ?thesis by simp
qed

lemma two_digits_inj:
  assumes "n < 100" "m < 100" "two_digits n = two_digits m"
  shows "n = m"
proof -
  from assms(3) have a: "digit_char (n div 10 mod 10) = digit_char (m div 10 mod 10)"
    and b: "digit_char (n mod 10) = digit_char (m mod 10)"
    by (simp_all add: two_digits_def)
  have "n div 10 mod 10 = m div 10 mod 10" by (rule digit_char_inj [OF _ _ a]) simp_all
  moreover have "n div 10 < 10" "m div 10 < 10" using assms(1,2) by simp_all
  ultimately have d: "n div 10 = m div 10" by simp
  have r: "n mod 10 = m mod 10" by (rule digit_char_inj [OF _ _ b]) simp_all
  have "n = 10 * (n div 10) + n mod 10" by simp
  also have "\<dots> = 10 * (m div 10) + m mod 10" by (simp only: d r)
  also have "\<dots> = m" by simp
  finally show ?thesis .
qed

lemma length_two_digits [simp]: "length (two_digits n) = 2"
  by (simp add: two_digits_def)

lemma length_four_digits [simp]: "length (four_digits n) = 4"
  by (simp add: four_digits_def)

lemma four_digits_inj:
  assumes "n < 10000" "m < 10000" "four_digits n = four_digits m"
  shows "n = m"
proof -
  from assms(3) have a: "two_digits (n div 100) = two_digits (m div 100)"
    and b: "two_digits (n mod 100) = two_digits (m mod 100)"
    by (simp_all add: four_digits_def)
  have d: "n div 100 = m div 100" using assms(1,2) by (intro two_digits_inj [OF _ _ a]) simp_all
  have r: "n mod 100 = m mod 100" by (rule two_digits_inj [OF _ _ b]) simp_all
  have "n = 100 * (n div 100) + n mod 100" by simp
  also have "\<dots> = 100 * (m div 100) + m mod 100" by (simp only: d r)
  also have "\<dots> = m" by simp
  finally show ?thesis .
qed

lemma strftime_stamp_eq_iff:
  assumes "valid_time t1" "valid_time t2"
  shows "strftime_stamp t1 = strftime_stamp t2 \<longleftrightarrow> same_second t1 t2"
proof
  assume "strftime_stamp t1 = strftime_stamp t2"
  then have e: "four_digits (dt_year t1) = four_digits (dt_year t2)"
    "two_digits (dt_month t1) = two_digits (dt_month t2)"
    "two_digits (dt_day t1) = two_digits (dt_day t2)"
    "two_digits (dt_hour t1) = two_digits (dt_hour t2)"
    "two_digits (dt_minute t1) = two_digits (dt_minute t2)"
    "two_digits (dt_second t1) = two_digits (dt_second t2)"
    by (simp_all add: strftime_stamp_def)
  from assms have v: "dt_year t1 < 10000" "dt_year t2 < 10000" "dt_month t1 < 100" "dt_month t2 < 100"
    "dt_day t1 < 100" "dt_day t2 < 100" "dt_hour t1 < 100" "dt_hour t2 < 100"
    "dt_minute t1 < 100" "dt_minute t2 < 100" "dt_second t1 < 100" "dt_second t2 < 100"
    by (simp_all add: valid_time_def)
  show "same_second t1 t2"
    unfolding same_second_def
    using four_digits_inj [OF v(1,2) e(1)] two_digits_inj [OF v(3,4) e(2)]
      two_digits_inj [OF v(5,6) e(3)] two_digits_inj [OF v(7,8) e(4)]
      two_digits_inj [OF v(9,10) e(5)] two_digits_inj [OF v(11,12) e(6)]
    by (intro conjI)
next
  assume "same_second t1 t2"
  then show "strftime_stamp t1 = strftime_stamp t2"
    by (simp add: same_second_def strftime_stamp_def)
qed

lemma make_run_id_eq_iff: "make_run_id n ts1 = make_run_id n ts2 \<longleftrightarrow> ts1 = ts2"
  by (simp add: make_run_id_def split: option.splits)

lemma run_id_new_run:
  "run_id (new_run w a b) = make_run_id (b_issue_number b) (strftime_stamp (utcnow w))"
  by (simp add: new_run_def Let_def)

text \<open>
  C8, as the code has it. The run identifier is \<^verbatim>\<open>issue_<number>-<stamp>\<close> when the
  issue number is present and not zero, and \<^verbatim>\<open>bundle-<stamp>\<close> otherwise, with no
  random part; the stamp is the UTC time to the second. So two invocations on the same
  bundle get the same identifier exactly when their clock readings fall in the same
  second: identifiers are distinct only across different seconds.
\<close>

theorem run_id_second_resolution:
  "snd (start_run w a b) = Inr (new_run w a b) \<and>
   run_id (new_run w a b) = make_run_id (b_issue_number b) (strftime_stamp (utcnow w)) \<and>
   make_run_id None ts = ''bundle-'' @ ts \<and>
   make_run_id (Some 0) ts = ''bundle-'' @ ts \<and>
   (n \<noteq> 0 \<longrightarrow> make_run_id (Some n) ts = ''issue_'' @ str_int n @ ''-'' @ ts) \<and>
   (valid_time (utcnow w1) \<and> valid_time (utcnow w2) \<longrightarrow>
      (run_id (new_run w1 a1 b) = run_id (new_run w2 a2 b)) = same_second (utcnow w1) (utcnow w2))"
proof (intro conjI impI)
  show "snd (start_run w a b) = Inr (new_run w a b)" by simp
  show "run_id (new_run w a b) = make_run_id (b_issue_number b) (strftime_stamp (utcnow w))"
    by (rule run_id_new_run)
  show "make_run_id None ts = ''bundle-'' @ ts" "make_run_id (Some 0) ts = ''bundle-'' @ ts"
    by (simp_all add: make_run_id_def)
next
  assume "n \<noteq> 0"
  then show "make_run_id (Some n) ts = ''issue_'' @ str_int n @ ''-'' @ ts"
    by (simp add: make_run_id_def)
next
  assume v: "valid_time (utcnow w1) \<and> valid_time (utcnow w2)"
  then have "strftime_stamp (utcnow w1) = strftime_stamp (utcnow w2) \<longleftrightarrow> same_second (utcnow w1) (utcnow w2)"
    by (intro strftime_stamp_eq_iff) simp_all
  then show "(run_id (new_run w1 a1 b) = run_id (new_run w2 a2 b)) = same_second (utcnow w1) (utcnow w2)"
    by (simp only: run_id_new_run make_run_id_eq_iff)
qed

lemma ex_stamps:
  "strftime_stamp ex_time = ''20260309T070059Z''" "strftime_stamp ex_time_later = ''20260309T070059Z''"
  by (simp_all add: strftime_stamp_def four_digits_def two_digits_def digit_char_def char_of_def bit_0
      ex_time_def ex_time_later_def)

lemma ex_run_ids:
  "run_id (new_run (ex_world ex_issue run_all_ok) ex_args ex_bundle) = ''issue_7-20260309T070059Z''"
  "run_id (new_run ex_world_later ex_args ex_bundle) = ''issue_7-20260309T070059Z''"
  by (simp_all add: run_id_new_run ex_world_def ex_world_later_def ex_stamps ex_bundle_def
      make_run_id_def str_int_def str_nat.simps digit_char_def char_of_def bit_0)

lemma ex_new_run_any: "new_run (ex_world ex_issue run) ex_args ex_bundle = ex_ctx"
  by (simp add: new_run_def Let_def ex_ctx_def ex_world_def ex_stamps ex_bundle_def ex_args_def
      make_run_id_def str_int_def str_nat.simps digit_char_def char_of_def bit_0 joinpath_def)

lemma ex_run_ids_bundle:
  "run_id (new_run (ex_world ex_issue run_all_ok) ex_args (ex_bundle\<lparr>b_issue_number := None\<rparr>)) =
     ''bundle-20260309T070059Z''"
  "run_id (new_run ex_world_later ex_args (ex_bundle\<lparr>b_issue_number := None\<rparr>)) =
     ''bundle-20260309T070059Z''"
  by (simp_all add: run_id_new_run ex_world_def ex_world_later_def ex_stamps make_run_id_def)

lemma ex_clocks_differ: "utcnow (ex_world ex_issue run_all_ok) \<noteq> utcnow ex_world_later"
  by (simp add: ex_world_def ex_world_later_def ex_time_def ex_time_later_def)

theorem run_id_second_resolution_witness:
  "valid_time (utcnow (ex_world ex_issue run_all_ok)) \<and> valid_time (utcnow ex_world_later) \<and>
   same_second (utcnow (ex_world ex_issue run_all_ok)) (utcnow ex_world_later) \<and>
   run_id (new_run (ex_world ex_issue run_all_ok) ex_args ex_bundle) =
     run_id (new_run ex_world_later ex_args ex_bundle) \<and>
   make_run_id (Some 7) ''20260309T070059Z'' = ''issue_'' @ str_int 7 @ ''-'' @ ''20260309T070059Z''"
proof -
  let ?w = "ex_world ex_issue run_all_ok"
  have v1: "valid_time (utcnow ?w)" and v2: "valid_time (utcnow ex_world_later)"
    by (simp_all add: valid_time_def ex_world_def ex_world_later_def ex_time_def ex_time_later_def)
  from v1 v2 have v: "valid_time (utcnow ?w) \<and> valid_time (utcnow ex_world_later)" by (rule conjI)
  have s: "same_second (utcnow ?w) (utcnow ex_world_later)"
    by (simp add: same_second_def ex_world_def ex_world_later_def ex_time_def ex_time_later_def)
  have n: "(7::int) \<noteq> 0" by simp
  note t = run_id_second_resolution [of ?w ex_args ex_bundle "''20260309T070059Z''" 7 ?w ex_world_later ex_args ex_args]
  from t [THEN conjunct2, THEN conjunct2, THEN conjunct2, THEN conjunct2, THEN conjunct2, rule_format, OF v] s
  have r: "run_id (new_run ?w ex_args ex_bundle) = run_id (new_run ex_world_later ex_args ex_bundle)"
    by (rule iffD2)
  from t [THEN conjunct2, THEN conjunct2, THEN conjunct2, THEN conjunct2, THEN conjunct1, rule_format, OF n]
  have m: "make_run_id (Some 7) ''20260309T070059Z'' = ''issue_'' @ str_int 7 @ ''-'' @ ''20260309T070059Z''" .
  from v1 v2 s r m show ?thesis by (intro conjI)
qed

text \<open>
  The claim as worded fails: two invocations whose clock readings differ (by microseconds)
  get the same run identifier, and without an issue number the identifier is the bare
  \<^verbatim>\<open>bundle-<stamp>\<close>, with no random suffix.
\<close>

theorem run_id_collision_counterexample:
  "utcnow (ex_world ex_issue run_all_ok) \<noteq> utcnow ex_world_later \<and>
   run_id (new_run (ex_world ex_issue run_all_ok) ex_args ex_bundle) = ''issue_7-20260309T070059Z'' \<and>
   run_id (new_run ex_world_later ex_args ex_bundle) = ''issue_7-20260309T070059Z'' \<and>
   run_id (new_run (ex_world ex_issue run_all_ok) ex_args (ex_bundle\<lparr>b_issue_number := None\<rparr>)) =
     ''bundle-20260309T070059Z'' \<and>
   run_id (new_run ex_world_later ex_args (ex_bundle\<lparr>b_issue_number := None\<rparr>)) =
     ''bundle-20260309T070059Z''"
  using ex_clocks_differ ex_run_ids ex_run_ids_bundle by (intro conjI)

subsection \<open>The shape of a whole run\<close>

lemma basename_joinpath: "CHR ''/'' \<notin> set n \<Longrightarrow> basename (joinpath d n) = n"
proof -
  assume n: "CHR ''/'' \<notin> set n"
  have "takeWhile non_slash (rev n @ CHR ''/'' # rev d) = rev n"
    by (rule takeWhile_non_slash) (use n in simp)
  then show ?thesis by (simp add: basename_def joinpath_def)
qed

lemma basename_meta [simp]: "basename (meta_path c) = ''meta.json''"
  unfolding meta_path_def by (rule basename_joinpath) simp

lemma basename_report [simp]: "basename (report_path c) = ''f2p_report.json''"
  unfolding report_path_def by (rule basename_joinpath) simp

lemma provision_not_ok: "\<not> provision_ok w b c \<Longrightarrow> \<exists>x. snd (provision w b c) = Inl x"
  using provision_Inr_iff [of w b c "()"] by (cases "snd (provision w b c)") auto

lemma main_cases:
  "(\<exists>x. snd (load_bundle w a) = Inl x \<and> snd (main w a) = Inl x \<and>
        json_writes (fst (main w a)) = [] \<and> execs (fst (main w a)) = []) \<or>
   (\<exists>b x. snd (load_bundle w a) = Inr b \<and> \<not> provision_ok w b (new_run w a b) \<and>
        snd (main w a) = Inl x \<and>
        json_writes (fst (main w a)) = [(meta_path (new_run w a b), meta (new_run w a b))] \<and>
        execs (fst (main w a)) = execs (fst (provision w b (new_run w a b)))) \<or>
   (\<exists>b x. snd (load_bundle w a) = Inr b \<and> provision_ok w b (new_run w a b) \<and>
        snd (main w a) = Inl x \<and>
        json_writes (fst (main w a)) = [(meta_path (new_run w a b), meta (new_run w a b))]) \<or>
   (\<exists>b d1 d2. snd (load_bundle w a) = Inr b \<and> provision_ok w b (new_run w a b) \<and>
        snd (build_and_test w a b (new_run w a b) ''before'' (base_dir (new_run w a b))) = Inr d1 \<and>
        snd (build_and_test w a b (new_run w a b) ''after'' (head_dir (new_run w a b))) = Inr d2 \<and>
        snd (main w a) = Inr () \<and>
        json_writes (fst (main w a)) =
          [(meta_path (new_run w a b), meta (new_run w a b)),
           (report_path (new_run w a b), make_report (new_run w a b) (status_of d1 d2) d1 d2)])"
proof (cases "snd (load_bundle w a)")
  case (Inl x)
  then have "snd (main w a) = Inl x" "json_writes (fst (main w a)) = []" "execs (fst (main w a)) = []"
    by (simp_all add: main_eq fst_load_bundle)
  with Inl show ?thesis by blast
next
  case (Inr b)
  let ?c = "new_run w a b"
  show ?thesis
  proof (cases "provision_ok w b ?c")
    case False
    from provision_not_ok [OF False] obtain x where x: "snd (provision w b ?c) = Inl x" by blast
    with Inr False have "snd (main w a) = Inl x"
      "json_writes (fst (main w a)) = [(meta_path ?c, meta ?c)]"
      "execs (fst (main w a)) = execs (fst (provision w b ?c))"
      by (simp_all add: main_eq fst_load_bundle fst_start_run meta_path_def)
    with Inr False show ?thesis by blast
  next
    case True
    then have p: "snd (provision w b ?c) = Inr ()" by (simp add: provision_Inr_iff)
    show ?thesis
    proof (cases "snd (verify w a b ?c)")
      case (Inl x)
      then have "json_writes (fst (verify w a b ?c)) = []"
        by (simp add: verify_Inl)
      with Inr True p Inl have "snd (main w a) = Inl x"
        "json_writes (fst (main w a)) = [(meta_path ?c, meta ?c)]"
        by (simp_all add: main_eq fst_load_bundle fst_start_run meta_path_def)
      with Inr True show ?thesis by blast
    next
      case (Inr u)
      then obtain d1 d2 where
        d: "snd (build_and_test w a b ?c ''before'' (base_dir ?c)) = Inr d1"
           "snd (build_and_test w a b ?c ''after'' (head_dir ?c)) = Inr d2"
        by (auto simp: snd_verify_Inr_iff)
      moreover from Inr have "staged_ok w b ?c"
        by (simp add: snd_verify_Inr_iff)
      ultimately have "json_writes (fst (verify w a b ?c)) =
          [(report_path ?c, make_report ?c (status_of d1 d2) d1 d2)]"
        by (simp add: json_writes_verify json_writes_build_and_report status_of_def)
      with \<open>snd (load_bundle w a) = Inr b\<close> True p Inr
      have "snd (main w a) = Inr ()"
        "json_writes (fst (main w a)) =
          [(meta_path ?c, meta ?c), (report_path ?c, make_report ?c (status_of d1 d2) d1 d2)]"
        by (simp_all add: main_eq fst_load_bundle fst_start_run meta_path_def)
      with \<open>snd (load_bundle w a) = Inr b\<close> True d show ?thesis by blast
    qed
  qed
qed

lemma main_success:
  assumes "snd (main w a) = Inr u"
  shows "\<exists>b d1 d2. snd (load_bundle w a) = Inr b \<and> provision_ok w b (new_run w a b) \<and>
        snd (build_and_test w a b (new_run w a b) ''before'' (base_dir (new_run w a b))) = Inr d1 \<and>
        snd (build_and_test w a b (new_run w a b) ''after'' (head_dir (new_run w a b))) = Inr d2 \<and>
        json_writes (fst (main w a)) =
          [(meta_path (new_run w a b), meta (new_run w a b)),
           (report_path (new_run w a b), make_report (new_run w a b) (status_of d1 d2) d1 d2)]"
  using main_cases [of w a] assms by auto

subsection \<open>The report keeps the metadata\<close>

lemma make_meta_keys: "map fst (make_meta b rid) = meta_keys"
  by (simp add: make_meta_def meta_keys_def)

lemma make_report_append:
  "meta c = make_meta b rid \<Longrightarrow> make_report c st d1 d2 = meta c @ report_tail c st d1 d2"
  by (simp add: make_report_def dict_extend_def make_meta_def report_tail_def)

lemma dict_get_append_left:
  "k \<in> set (map fst m) \<Longrightarrow> dict_get (m @ e) k = dict_get m k"
proof -
  assume "k \<in> set (map fst m)"
  then obtain v where "map_of m k = Some v"
    by (cases "map_of m k") (auto simp: map_of_eq_None_iff)
  then show ?thesis by (simp add: dict_get_def map_add_def)
qed

text \<open>
  C10. When the run reaches classification (main returns), exactly two JSON files were
  written under one run root: \<^verbatim>\<open>meta.json\<close> with the nine metadata fields, then
  \<^verbatim>\<open>f2p_report.json\<close>, which is the metadata entries unchanged, in the same order,
  followed by the status, the two outcome records and the paths. Every metadata key reads
  the same value in the report.
\<close>

theorem report_extends_meta:
  "snd (main w a) = Inr () \<longrightarrow>
     (\<exists>root m st d1 d2 ps.
        json_writes (fst (main w a)) =
          [(joinpath root ''meta.json'', m),
           (joinpath root ''f2p_report.json'',
            m @ [(''status'', JStr st), (''before'', JDict d1), (''after'', JDict d2), (''paths'', JDict ps)])] \<and>
        map fst m = meta_keys \<and>
        (\<forall>k. k \<in> set meta_keys \<longrightarrow>
           dict_get (m @ [(''status'', JStr st), (''before'', JDict d1), (''after'', JDict d2),
                          (''paths'', JDict ps)]) k = dict_get m k))"
proof
  assume "snd (main w a) = Inr ()"
  from main_success [OF this] obtain b d1 d2 where
    j: "json_writes (fst (main w a)) =
          [(meta_path (new_run w a b), meta (new_run w a b)),
           (report_path (new_run w a b), make_report (new_run w a b) (status_of d1 d2) d1 d2)]"
    by blast
  let ?c = "new_run w a b"
  let ?ps = "[(''run_root'', JStr (run_root ?c)), (''base_worktree'', JStr (base_dir ?c)),
              (''head_worktree'', JStr (head_dir ?c))]"
  let ?tail = "[(''status'', JStr (status_of d1 d2)), (''before'', JDict d1), (''after'', JDict d2),
                (''paths'', JDict ?ps)]"
  have r: "make_report ?c (status_of d1 d2) d1 d2 = meta ?c @ ?tail"
    using make_report_append [OF meta_new_run, of w a b "status_of d1 d2" d1 d2]
    by (simp add: report_tail_def)
  have k: "map fst (meta ?c) = meta_keys"
    by (simp only: meta_new_run make_meta_keys)
  have g: "\<forall>k. k \<in> set meta_keys \<longrightarrow> dict_get (meta ?c @ ?tail) k = dict_get (meta ?c) k"
    using dict_get_append_left [of _ "meta ?c" ?tail] by (simp only: k) blast
  have "json_writes (fst (main w a)) =
          [(joinpath (run_root ?c) ''meta.json'', meta ?c),
           (joinpath (run_root ?c) ''f2p_report.json'', meta ?c @ ?tail)]"
    using j r by (simp add: meta_path_def report_path_def)
  with k g show "\<exists>root m st d1 d2 ps.
        json_writes (fst (main w a)) =
          [(joinpath root ''meta.json'', m),
           (joinpath root ''f2p_report.json'',
            m @ [(''status'', JStr st), (''before'', JDict d1), (''after'', JDict d2), (''paths'', JDict ps)])] \<and>
        map fst m = meta_keys \<and>
        (\<forall>k. k \<in> set meta_keys \<longrightarrow>
           dict_get (m @ [(''status'', JStr st), (''before'', JDict d1), (''after'', JDict d2),
                          (''paths'', JDict ps)]) k = dict_get m k)"
    by blast
qed

lemma ex_main_ok: "snd (main (ex_world ex_issue run_all_ok) ex_args) = Inr ()"
  by code_simp

theorem report_extends_meta_witness:
  "snd (main (ex_world ex_issue run_all_ok) ex_args) = Inr () \<and>
   (\<exists>root m st d1 d2 ps.
        json_writes (fst (main (ex_world ex_issue run_all_ok) ex_args)) =
          [(joinpath root ''meta.json'', m),
           (joinpath root ''f2p_report.json'',
            m @ [(''status'', JStr st), (''before'', JDict d1), (''after'', JDict d2), (''paths'', JDict ps)])] \<and>
        map fst m = meta_keys)"
proof -
  from report_extends_meta [of "ex_world ex_issue run_all_ok" ex_args, rule_format, OF ex_main_ok]
  have "\<exists>root m st d1 d2 ps.
        json_writes (fst (main (ex_world ex_issue run_all_ok) ex_args)) =
          [(joinpath root ''meta.json'', m),
           (joinpath root ''f2p_report.json'',
            m @ [(''status'', JStr st), (''before'', JDict d1), (''after'', JDict d2), (''paths'', JDict ps)])] \<and>
        map fst m = meta_keys"
    by (elim exE conjE) (intro exI conjI)
  with ex_main_ok show ?thesis by (rule conjI)
qed

subsection \<open>Exit status\<close>

lemma precondition_failure_load:
  assumes "precondition_failure w a"
  shows "\<exists>x. snd (load_bundle w a) = Inl x"
proof (cases "snd (load_bundle w a)")
  case (Inl x)
  then show ?thesis by blast
next
  case (Inr b)
  from load_bundle_Inr [OF Inr] obtain iss where
    "path_exists w (resolve w (bundle_dir a))" "which w ''git''" "which w ''docker''"
    "load_issue_json w (resolve w (bundle_dir a)) = Inr iss"
    "parse_repo_from_issue_url (or_empty (url iss)) = Inr (b_repo b)"
    by blast
  with assms Inr show ?thesis by (simp add: precondition_failure_def)
qed

lemma status_of_label: "status_of d1 d2 \<in> set labels"
  unfolding status_of_def labels_def classify_def by simp

lemma reports_meta_only [simp]: "reports [Mkdir p, WriteJson (meta_path c) m] = []"
  by (simp add: reports_def)

lemma main_failed:
  assumes "snd (main w a) = Inl x"
  shows "exit_status (snd (main w a)) \<noteq> 0 \<and> reports (fst (main w a)) = []"
proof -
  from main_cases [of w a] assms
  have "json_writes (fst (main w a)) = [] \<or>
        (\<exists>b. json_writes (fst (main w a)) = [(meta_path (new_run w a b), meta (new_run w a b))])"
    by auto
  then have "reports (fst (main w a)) = []"
    by (auto simp: reports_def)
  with main_abort_status [OF assms] show ?thesis by simp
qed

lemma main_returned:
  assumes "snd (main w a) = Inr u"
  shows "exit_status (snd (main w a)) = 0 \<and>
         (\<exists>p r st. reports (fst (main w a)) = [(p, r)] \<and> dict_get r ''status'' = JStr st \<and> st \<in> set labels)"
proof -
  from main_success [OF assms] obtain b d1 d2 where
    j: "json_writes (fst (main w a)) =
          [(meta_path (new_run w a b), meta (new_run w a b)),
           (report_path (new_run w a b), make_report (new_run w a b) (status_of d1 d2) d1 d2)]"
    by blast
  then have "reports (fst (main w a)) =
      [(report_path (new_run w a b), make_report (new_run w a b) (status_of d1 d2) d1 d2)]"
    by (simp add: reports_def)
  moreover have "dict_get (make_report (new_run w a b) (status_of d1 d2) d1 d2) ''status'' = JStr (status_of d1 d2)"
    by (rule make_report_get)
  ultimately have "\<exists>p r st. reports (fst (main w a)) = [(p, r)] \<and> dict_get r ''status'' = JStr st \<and> st \<in> set labels"
    using status_of_label [of d1 d2] by blast
  moreover have "exit_status (snd (main w a)) = 0"
    using assms by (simp add: exit_status_def)
  ultimately show ?thesis by blast
qed

text \<open>
  C7. A precondition failure or a workspace failure gives a non-zero exit status, and no
  report is written. Whenever a report (a classification label) was written, the exit
  status is zero; and exit status zero means exactly one report was written, whose label
  is one of the four, \<^verbatim>\<open>fail2fail\<close> and \<^verbatim>\<open>pass2fail\<close> among them.
\<close>

theorem exit_status_main:
  "(precondition_failure w a \<or> workspace_failure w a \<longrightarrow>
      exit_status (snd (main w a)) \<noteq> 0 \<and> reports (fst (main w a)) = []) \<and>
   (reports (fst (main w a)) \<noteq> [] \<longrightarrow> exit_status (snd (main w a)) = 0) \<and>
   (exit_status (snd (main w a)) = 0 \<longrightarrow>
      (\<exists>p r st. reports (fst (main w a)) = [(p, r)] \<and> dict_get r ''status'' = JStr st \<and>
          st \<in> set labels))"
proof (intro conjI impI)
  assume f: "precondition_failure w a \<or> workspace_failure w a"
  have "\<exists>x. snd (main w a) = Inl x"
  proof (rule disjE [OF f])
    assume "precondition_failure w a"
    from precondition_failure_load [OF this] show ?thesis by (auto simp: main_eq)
  next
    assume "workspace_failure w a"
    then obtain b where b: "snd (load_bundle w a) = Inr b" and n: "\<not> provision_ok w b (new_run w a b)"
      by (auto simp: workspace_failure_def split: sum.splits)
    from provision_not_ok [OF n] b show ?thesis by (auto simp: main_eq)
  qed
  then obtain x where "snd (main w a) = Inl x" by blast
  from main_failed [OF this]
  show "exit_status (snd (main w a)) \<noteq> 0" "reports (fst (main w a)) = []"
    by (rule conjunct1, rule conjunct2)
next
  assume r: "reports (fst (main w a)) \<noteq> []"
  show "exit_status (snd (main w a)) = 0"
  proof (cases "snd (main w a)")
    case (Inl x)
    from main_failed [OF Inl] r show ?thesis by simp
  next
    case (Inr u)
    from main_returned [OF Inr] show ?thesis by blast
  qed
next
  assume z: "exit_status (snd (main w a)) = 0"
  show "\<exists>p r st. reports (fst (main w a)) = [(p, r)] \<and> dict_get r ''status'' = JStr st \<and>
          st \<in> set labels"
  proof (cases "snd (main w a)")
    case (Inl x)
    from main_failed [OF Inl] z show ?thesis by simp
  next
    case (Inr u)
    from main_returned [OF Inr] show ?thesis by blast
  qed
qed

lemma ex_pass2fail:
  "map (\<lambda>x. dict_get (snd x) ''status'') (reports (fst (main (ex_world ex_issue run_head_build_fails) ex_args)))
   = [JStr ''pass2fail'']"
  by code_simp

lemma ex_fail2fail:
  "map (\<lambda>x. dict_get (snd x) ''status'') (reports (fst (main (ex_world ex_issue run_build_fails) ex_args)))
   = [JStr ''fail2fail'']"
  by code_simp

theorem exit_status_main_witness:
  "precondition_failure ex_world_no_docker ex_args \<and>
   exit_status (snd (main ex_world_no_docker ex_args)) \<noteq> 0 \<and>
   reports (fst (main ex_world_no_docker ex_args)) = [] \<and>
   map (\<lambda>x. dict_get (snd x) ''status'') (reports (fst (main (ex_world ex_issue run_head_build_fails) ex_args)))
     = [JStr ''pass2fail''] \<and>
   exit_status (snd (main (ex_world ex_issue run_head_build_fails) ex_args)) = 0 \<and>
   map (\<lambda>x. dict_get (snd x) ''status'') (reports (fst (main (ex_world ex_issue run_build_fails) ex_args)))
     = [JStr ''fail2fail''] \<and>
   exit_status (snd (main (ex_world ex_issue run_build_fails) ex_args)) = 0 \<and>
   (\<exists>p r st. reports (fst (main (ex_world ex_issue run_build_fails) ex_args)) = [(p, r)] \<and>
       dict_get r ''status'' = JStr st \<and> st \<in> set labels) \<and>
   workspace_failure (ex_world ex_issue run_apply_fails) ex_args \<and>
   exit_status (snd (main (ex_world ex_issue run_apply_fails) ex_args)) \<noteq> 0"
proof -
  have p: "precondition_failure ex_world_no_docker ex_args"
    by (simp add: precondition_failure_def ex_world_no_docker_def ex_world_def)
  then have f: "precondition_failure ex_world_no_docker ex_args \<or> workspace_failure ex_world_no_docker ex_args"
    by (rule disjI1)
  from exit_status_main [of ex_world_no_docker ex_args, THEN conjunct1, THEN mp, OF f]
  have n: "exit_status (snd (main ex_world_no_docker ex_args)) \<noteq> 0"
    and e: "reports (fst (main ex_world_no_docker ex_args)) = []"
    by (rule conjunct1, rule conjunct2)
  have r1: "reports (fst (main (ex_world ex_issue run_head_build_fails) ex_args)) \<noteq> []"
    using ex_pass2fail by auto
  have r2: "reports (fst (main (ex_world ex_issue run_build_fails) ex_args)) \<noteq> []"
    using ex_fail2fail by auto
  from exit_status_main [of "ex_world ex_issue run_head_build_fails" ex_args, THEN conjunct2, THEN conjunct1,
      rule_format, OF r1]
  have z1: "exit_status (snd (main (ex_world ex_issue run_head_build_fails) ex_args)) = 0" .
  from exit_status_main [of "ex_world ex_issue run_build_fails" ex_args, THEN conjunct2, THEN conjunct1,
      rule_format, OF r2]
  have z2: "exit_status (snd (main (ex_world ex_issue run_build_fails) ex_args)) = 0" .
  from exit_status_main [of "ex_world ex_issue run_build_fails" ex_args, THEN conjunct2, THEN conjunct2,
      THEN mp, OF z2]
  have x: "\<exists>p r st. reports (fst (main (ex_world ex_issue run_build_fails) ex_args)) = [(p, r)] \<and>
       dict_get r ''status'' = JStr st \<and> st \<in> set labels" .
  have "\<not> provision_ok (ex_world ex_issue run_apply_fails) ex_bundle ex_ctx"
    by (simp add: provision_ok_def cmd_ok_def ex_world_def run_apply_fails_def apply_cmd_def)
  then have wf: "workspace_failure (ex_world ex_issue run_apply_fails) ex_args"
    by (simp add: workspace_failure_def ex_load_bundle_any ex_new_run_any)
  then have f2: "precondition_failure (ex_world ex_issue run_apply_fails) ex_args \<or>
      workspace_failure (ex_world ex_issue run_apply_fails) ex_args"
    by (rule disjI2)
  from exit_status_main [of "ex_world ex_issue run_apply_fails" ex_args, THEN conjunct1, THEN mp, OF f2]
  have n2: "exit_status (snd (main (ex_world ex_issue run_apply_fails) ex_args)) \<noteq> 0"
    by (rule conjunct1)
  from p n e ex_pass2fail z1 ex_fail2fail z2 x wf n2 show ?thesis by (intro conjI)
qed

subsection \<open>Worktrees\<close>

lemma checkouts_append [simp]: "checkouts (xs @ ys) = checkouts xs @ checkouts ys"
  by (simp add: checkouts_def)

lemma checkouts_Nil [simp]: "checkouts [] = []"
  by (simp add: checkouts_def)

lemma checkouts_prefix: "prefix xs ys \<Longrightarrow> prefix (checkouts xs) (checkouts ys)"
  unfolding checkouts_def by (intro map_mono_prefix filter_mono_prefix)

lemma checkouts_provision_cmds:
  "checkouts (provision_cmds b c) = [(base_dir c, b_base_sha b), (head_dir c, b_base_sha b)]"
  by (simp add: checkouts_def is_checkout_def provision_cmds_def clone_cmd_def fetch_cmd_def
      worktree_add_cmd_def apply_cmd_def)

lemma not_checkout_docker [simp]:
  "\<not> is_checkout (docker_build_cmd b img, wt)" "\<not> is_checkout (docker_run_cmd a b img, wt)"
  "\<not> is_checkout (worktree_remove_cmd d, wt)"
  by (simp_all add: is_checkout_def docker_build_cmd_def docker_run_cmd_def worktree_remove_cmd_def)

lemma checkouts_Cons_not [simp]: "\<not> is_checkout x \<Longrightarrow> checkouts (x # xs) = checkouts xs"
  by (simp add: checkouts_def)

lemma checkouts_build_and_test [simp]:
  "checkouts (execs (fst (build_and_test w a b c label wt))) = []"
  by (simp add: build_and_test_eq split: sum.splits prod.splits)

lemma fst_try_pass [simp]: "fst (try_pass m) = fst m"
  by (simp add: try_pass_def split: sum.splits abort.splits)

lemma checkouts_cleanup [simp]: "checkouts (execs (fst (cleanup w a c))) = []"
  unfolding cleanup_def
  by (simp add: fst_io_bind split: sum.splits)

lemma checkouts_build_and_report [simp]:
  "checkouts (execs (fst (build_and_report w a b c))) = []"
  by (simp add: build_and_report_eq report_events_def split: sum.splits)

lemma checkouts_verify [simp]: "checkouts (execs (fst (verify w a b c))) = []"
  by (cases "staged_ok w b c") (simp_all add: execs_verify checkouts_def [of "[]"])

lemma take_provision: "length (provision_cmds b c) = 5"
  by (simp add: provision_cmds_def)

lemma patch_written:
  "cmd_ok w (clone_cmd b c) (run_root c) 3600 \<Longrightarrow> cmd_ok w fetch_cmd (repo_dir c) 3600 \<Longrightarrow>
     WriteText (patch_path c) (b_patch_text b) \<in> set (fst (provision w b c))"
  unfolding provision_def
  by (simp add: fst_io_bind case_git_step)

text \<open>
  C3. For every bundle that loads, the checkouts of the run are a prefix of: the base
  worktree at the base revision, the head worktree at the same base revision. No other
  revision is ever checked out, whatever head revision the bundle records. When the
  workspace steps succeed, both checkouts are made, the patch file holds the patch text of
  the bundle, and the command right after the head checkout applies that file in the head
  worktree.
\<close>

theorem head_worktree_from_base:
  "snd (load_bundle w a) = Inr b \<longrightarrow>
     prefix (checkouts (execs (fst (main w a))))
       [(base_dir (new_run w a b), b_base_sha b), (head_dir (new_run w a b), b_base_sha b)] \<and>
     (provision_ok w b (new_run w a b) \<longrightarrow>
        checkouts (execs (fst (main w a))) =
          [(base_dir (new_run w a b), b_base_sha b), (head_dir (new_run w a b), b_base_sha b)] \<and>
        drop 2 (take 5 (execs (fst (main w a)))) =
          [(worktree_add_cmd (base_dir (new_run w a b)) (b_base_sha b), repo_dir (new_run w a b)),
           (worktree_add_cmd (head_dir (new_run w a b)) (b_base_sha b), repo_dir (new_run w a b)),
           (apply_cmd (patch_path (new_run w a b)), head_dir (new_run w a b))] \<and>
        WriteText (patch_path (new_run w a b)) (b_patch_text b) \<in> set (fst (main w a)))"
proof (intro impI conjI)
  assume l: "snd (load_bundle w a) = Inr b"
  let ?c = "new_run w a b"
  have e: "execs (fst (main w a)) =
      execs (fst (provision w b ?c)) @ (if provision_ok w b ?c then execs (fst (verify w a b ?c)) else [])"
    using l by (simp add: execs_main)
  have "checkouts (execs (fst (main w a))) = checkouts (execs (fst (provision w b ?c)))"
    unfolding e by simp
  also have "prefix \<dots> (checkouts (provision_cmds b ?c))"
    by (rule checkouts_prefix [OF execs_provision_prefix])
  finally show "prefix (checkouts (execs (fst (main w a))))
       [(base_dir ?c, b_base_sha b), (head_dir ?c, b_base_sha b)]"
    by (simp only: checkouts_provision_cmds)
  assume ok: "provision_ok w b ?c"
  have e': "execs (fst (main w a)) = provision_cmds b ?c @ execs (fst (verify w a b ?c))"
    using e ok by (simp add: execs_provision_ok)
  show "checkouts (execs (fst (main w a))) = [(base_dir ?c, b_base_sha b), (head_dir ?c, b_base_sha b)]"
    unfolding e' by (simp add: checkouts_provision_cmds)
  show "drop 2 (take 5 (execs (fst (main w a)))) =
          [(worktree_add_cmd (base_dir ?c) (b_base_sha b), repo_dir ?c),
           (worktree_add_cmd (head_dir ?c) (b_base_sha b), repo_dir ?c),
           (apply_cmd (patch_path ?c), head_dir ?c)]"
    unfolding e' by (simp add: take_provision) (simp add: provision_cmds_def)
  have "WriteText (patch_path ?c) (b_patch_text b) \<in> set (fst (provision w b ?c))"
    using ok by (intro patch_written) (simp_all add: provision_ok_def)
  then show "WriteText (patch_path ?c) (b_patch_text b) \<in> set (fst (main w a))"
    using l by (simp add: main_eq)
qed

lemma ex_provision_ok: "provision_ok (ex_world ex_issue run_all_ok) ex_bundle ex_ctx"
  by (simp add: provision_ok_def cmd_ok_def ex_world_def run_all_ok_def)

theorem head_worktree_from_base_witness:
  "snd (load_bundle (ex_world ex_issue run_all_ok) ex_args) = Inr ex_bundle \<and>
   b_head_sha ex_bundle = Some ''def456'' \<and> b_base_sha ex_bundle = ''abc123'' \<and>
   provision_ok (ex_world ex_issue run_all_ok) ex_bundle ex_ctx \<and>
   checkouts (execs (fst (main (ex_world ex_issue run_all_ok) ex_args))) =
     [(base_dir ex_ctx, ''abc123''), (head_dir ex_ctx, ''abc123'')] \<and>
   WriteText (patch_path ex_ctx) ''diff'' \<in> set (fst (main (ex_world ex_issue run_all_ok) ex_args))"
proof -
  let ?w = "ex_world ex_issue run_all_ok"
  have ok: "provision_ok ?w ex_bundle (new_run ?w ex_args ex_bundle)"
    using ex_provision_ok by (simp only: ex_new_run_any)
  from head_worktree_from_base [of ?w ex_args ex_bundle, rule_format, OF ex_load_bundle_any [of run_all_ok], THEN conjunct2,
      rule_format, OF ok]
  have c: "checkouts (execs (fst (main ?w ex_args))) =
       [(base_dir (new_run ?w ex_args ex_bundle), b_base_sha ex_bundle),
        (head_dir (new_run ?w ex_args ex_bundle), b_base_sha ex_bundle)]"
    and p: "WriteText (patch_path (new_run ?w ex_args ex_bundle)) (b_patch_text ex_bundle)
       \<in> set (fst (main ?w ex_args))"
    by (rule conjunct1, elim conjE)
  have h: "b_head_sha ex_bundle = Some ''def456''" and s: "b_base_sha ex_bundle = ''abc123''"
    and t: "b_patch_text ex_bundle = ''diff''"
    by (simp_all add: ex_bundle_def)
  from c have c': "checkouts (execs (fst (main ?w ex_args))) =
     [(base_dir ex_ctx, ''abc123''), (head_dir ex_ctx, ''abc123'')]"
    by (simp only: ex_new_run_any s)
  from p have p': "WriteText (patch_path ex_ctx) ''diff'' \<in> set (fst (main ?w ex_args))"
    by (simp only: ex_new_run_any t)
  from ex_load_bundle_any [of run_all_ok] h s ex_provision_ok c' p' show ?thesis by (intro conjI)
qed

subsection \<open>A patch that does not apply\<close>

lemma builds_provision_cmds: "builds (provision_cmds b c) = []"
  by (simp add: builds_def provision_cmds_def clone_cmd_def fetch_cmd_def worktree_add_cmd_def
      apply_cmd_def)

lemma builds_prefix_Nil: "prefix xs ys \<Longrightarrow> builds ys = [] \<Longrightarrow> builds xs = []"
proof -
  assume "prefix xs ys" "builds ys = []"
  then have "prefix (builds xs) []"
    unfolding builds_def by (metis filter_mono_prefix)
  then show ?thesis by simp
qed

lemma builds_provision: "builds (execs (fst (provision w b c))) = []"
  by (rule builds_prefix_Nil [OF execs_provision_prefix builds_provision_cmds])

lemma apply_step_failed:
  assumes "subprocess_run w cmd cwd t = Inr (rc, out, err)" "rc \<noteq> 0"
  shows "snd (git_step w c cmd cwd t log msg) = Inl (SystemExit 2)"
    and "last (fst (git_step w c cmd cwd t log msg)) = PrintErr msg"
    and "\<not> cmd_ok w cmd cwd t"
  using assms by (simp_all add: git_step_eq run_cmd_eq step_log_def cmd_ok_def)

lemma snd_bind_git_step:
  "snd (io_bind (git_step w c cmd cwd t log msg) f) =
     (if cmd_ok w cmd cwd t then snd (f ()) else snd (git_step w c cmd cwd t log msg))"
proof (cases "snd (git_step w c cmd cwd t log msg)")
  case (Inl e)
  then have "\<not> cmd_ok w cmd cwd t"
    using git_step_Inr_iff [of w c cmd cwd t log msg "()"] by simp
  with Inl show ?thesis by (simp add: snd_io_bind)
next
  case (Inr x)
  then have "cmd_ok w cmd cwd t"
    using git_step_Inr_iff [of w c cmd cwd t log msg x] by simp
  with Inr show ?thesis by (simp add: snd_io_bind del: git_step_Inr_iff)
qed

lemma snd_bind_emit: "snd (io_bind (emit e) f) = snd (f ())"
  by (simp add: snd_io_bind)

lemma provision_apply_failed:
  assumes r: "workspace_ready w b c"
    and s: "subprocess_run w (apply_cmd (patch_path c)) (head_dir c) 300 = Inr (rc, out, err)"
    and n: "rc \<noteq> 0"
  shows "snd (provision w b c) = Inl (SystemExit 2)"
    and "last (fst (provision w b c)) = PrintErr apply_failed_msg"
    and "fst (provision w b c) \<noteq> []"
    and "execs (fst (provision w b c)) = provision_cmds b c"
    and "\<not> provision_ok w b c"
proof -
  let ?g = "git_step w c (apply_cmd (patch_path c)) (head_dir c) 300 ''git_apply_patch'' apply_failed_msg"
  note a = apply_step_failed(1) [OF s n, of c "''git_apply_patch''" apply_failed_msg]
    apply_step_failed(2) [OF s n, of c "''git_apply_patch''" apply_failed_msg]
    apply_step_failed(3) [OF s n]
  have ne: "fst ?g \<noteq> []" by (simp add: git_step_eq split: sum.splits)
  from r show "snd (provision w b c) = Inl (SystemExit 2)"
    unfolding provision_def workspace_ready_def apply_failed_msg_def [symmetric]
    by (simp add: snd_bind_git_step snd_bind_emit a(1))
  from r ne show "last (fst (provision w b c)) = PrintErr apply_failed_msg"
    unfolding provision_def workspace_ready_def apply_failed_msg_def [symmetric]
    by (simp add: fst_io_bind case_git_step a(2))
  from r ne show "fst (provision w b c) \<noteq> []"
    unfolding provision_def workspace_ready_def apply_failed_msg_def [symmetric]
    by (simp add: fst_io_bind case_git_step)
  from r show "execs (fst (provision w b c)) = provision_cmds b c"
    unfolding provision_def workspace_ready_def provision_cmds_def
    by (simp add: fst_io_bind case_git_step)
  from a(3) show "\<not> provision_ok w b c" by (simp add: provision_ok_def)
qed

text \<open>
  C5. If the patch does not apply (git apply does not succeed in this world), then the
  exit status is not zero, no report is written and no container command is ever run. If
  moreover the run gets as far as the patch (the bundle loads, clone, fetch and both
  worktrees succeed) and git apply returns a non-zero code, then the run ends in
  \<^verbatim>\<open>_die\<close> with the patch-apply message and status 2, and the commands it ran are the
  five workspace commands and nothing else.
\<close>

theorem patch_apply_failure_aborts:
  "((\<forall>p cwd t. \<not> cmd_ok w (apply_cmd p) cwd t) \<longrightarrow>
      exit_status (snd (main w a)) \<noteq> 0 \<and> reports (fst (main w a)) = [] \<and>
      builds (execs (fst (main w a))) = []) \<and>
   (snd (load_bundle w a) = Inr b \<and> workspace_ready w b (new_run w a b) \<and>
    subprocess_run w (apply_cmd (patch_path (new_run w a b))) (head_dir (new_run w a b)) 300 = Inr (rc, out, err) \<and>
    rc \<noteq> 0 \<longrightarrow>
      snd (main w a) = Inl (SystemExit 2) \<and>
      last (fst (main w a)) = PrintErr ''git apply patch failed (see git_apply_patch.stderr.txt)'' \<and>
      execs (fst (main w a)) = provision_cmds b (new_run w a b) \<and>
      reports (fst (main w a)) = [] \<and> builds (execs (fst (main w a))) = [])"
proof (intro conjI impI)
  assume h: "\<forall>p cwd t. \<not> cmd_ok w (apply_cmd p) cwd t"
  then have n: "\<And>b. \<not> provision_ok w b (new_run w a b)"
    by (simp add: provision_ok_def)
  have "\<exists>x. snd (main w a) = Inl x"
    using main_cases [of w a] n by auto
  then obtain x where x: "snd (main w a) = Inl x" by blast
  from main_failed [OF x]
  show "exit_status (snd (main w a)) \<noteq> 0" "reports (fst (main w a)) = []"
    by (rule conjunct1, rule conjunct2)
  have "execs (fst (main w a)) = [] \<or> (\<exists>b. execs (fst (main w a)) = execs (fst (provision w b (new_run w a b))))"
    using main_cases [of w a] n by auto
  then show "builds (execs (fst (main w a))) = []"
    by (auto simp: builds_provision) (simp add: builds_def)
next
  assume h: "snd (load_bundle w a) = Inr b \<and> workspace_ready w b (new_run w a b) \<and>
    subprocess_run w (apply_cmd (patch_path (new_run w a b))) (head_dir (new_run w a b)) 300 = Inr (rc, out, err) \<and>
    rc \<noteq> 0"
  let ?c = "new_run w a b"
  from h have l: "snd (load_bundle w a) = Inr b" and r: "workspace_ready w b ?c"
    and s: "subprocess_run w (apply_cmd (patch_path ?c)) (head_dir ?c) 300 = Inr (rc, out, err)"
    and n: "rc \<noteq> 0" by simp_all
  note p = provision_apply_failed [OF r s n]
  from l p(1,5) show m: "snd (main w a) = Inl (SystemExit 2)"
    by (simp add: main_eq)
  from l p(2,3,5) show "last (fst (main w a)) = PrintErr ''git apply patch failed (see git_apply_patch.stderr.txt)''"
    by (simp add: main_eq apply_failed_msg_def)
  from l p(4,5) show e: "execs (fst (main w a)) = provision_cmds b ?c"
    by (simp add: execs_main)
  from main_failed [OF m] show "reports (fst (main w a)) = []" by simp
  show "builds (execs (fst (main w a))) = []"
    unfolding e by (rule builds_provision_cmds)
qed

theorem patch_apply_failure_aborts_witness:
  "subprocess_run (ex_world ex_issue run_apply_fails) (apply_cmd (patch_path ex_ctx)) (head_dir ex_ctx) 300 =
     Inr (1, [], ''error: patch failed'') \<and>
   exit_status (snd (main (ex_world ex_issue run_apply_fails) ex_args)) \<noteq> 0 \<and>
   reports (fst (main (ex_world ex_issue run_apply_fails) ex_args)) = [] \<and>
   builds (execs (fst (main (ex_world ex_issue run_apply_fails) ex_args))) = [] \<and>
   snd (main (ex_world ex_issue run_apply_fails) ex_args) = Inl (SystemExit 2) \<and>
   last (fst (main (ex_world ex_issue run_apply_fails) ex_args)) =
     PrintErr ''git apply patch failed (see git_apply_patch.stderr.txt)''"
proof -
  let ?w = "ex_world ex_issue run_apply_fails"
  have f: "\<forall>p cwd t. \<not> cmd_ok ?w (apply_cmd p) cwd t"
    by (simp add: cmd_ok_def ex_world_def run_apply_fails_def apply_cmd_def)
  have s: "subprocess_run ?w (apply_cmd (patch_path ex_ctx)) (head_dir ex_ctx) 300 =
     Inr (1, [], ''error: patch failed'')"
    by (simp add: ex_world_def run_apply_fails_def apply_cmd_def)
  have r: "workspace_ready ?w ex_bundle ex_ctx"
    by (simp add: workspace_ready_def cmd_ok_def ex_world_def run_apply_fails_def clone_cmd_def
        fetch_cmd_def worktree_add_cmd_def)
  have h: "snd (load_bundle ?w ex_args) = Inr ex_bundle \<and>
      workspace_ready ?w ex_bundle (new_run ?w ex_args ex_bundle) \<and>
      subprocess_run ?w (apply_cmd (patch_path (new_run ?w ex_args ex_bundle)))
        (head_dir (new_run ?w ex_args ex_bundle)) 300 = Inr (1, [], ''error: patch failed'') \<and>
      (1::int) \<noteq> 0"
    using ex_load_bundle_any [of run_apply_fails] r s by (simp only: ex_new_run_any) simp
  note t = patch_apply_failure_aborts [of ?w ex_args ex_bundle 1 "[]" "''error: patch failed''"]
  note x = t [THEN conjunct1, THEN mp, OF f]
  from x have a: "exit_status (snd (main ?w ex_args)) \<noteq> 0"
    by (rule conjunct1)
  from x have b: "reports (fst (main ?w ex_args)) = []"
    by (rule conjunct2 [THEN conjunct1])
  from x have c: "builds (execs (fst (main ?w ex_args))) = []"
    by (rule conjunct2 [THEN conjunct2])
  note y = t [THEN conjunct2, THEN mp, OF h]
  from y have d: "snd (main ?w ex_args) = Inl (SystemExit 2)"
    by (rule conjunct1)
  from y have e: "last (fst (main ?w ex_args)) = PrintErr ''git apply patch failed (see git_apply_patch.stderr.txt)''"
    by (rule conjunct2 [THEN conjunct1])
  from s a b c d e show ?thesis by (intro conjI)
qed

subsection \<open>Build failure and completion of the run\<close>

lemma test_outcome_get:
  "dict_get (test_outcome c label rc) ''test_ok'' = JBool (rc = 0)"
  by (simp add: test_outcome_def)

lemma side_outcome:
  assumes "side_returns w a b c label wt"
  shows "\<exists>d. snd (build_and_test w a b c label wt) = Inr d \<and>
             truthy (dict_get d ''test_ok'') = side_passes w a b c label wt"
  using assms unfolding side_returns_def side_passes_def cmd_ok_def
  by (auto simp: build_and_test_eq fail_outcome_get test_outcome_get split: sum.splits prod.splits)

lemma side_raises:
  assumes "\<not> side_returns w a b c label wt"
  shows "\<exists>e. snd (build_and_test w a b c label wt) = Inl (Uncaught e)"
  using assms unfolding side_returns_def
  by (auto simp: build_and_test_eq split: sum.splits prod.splits)

lemma build_failed_side:
  assumes "subprocess_run w (docker_build_cmd b (image_name c label)) wt (timeout_build a) = Inr (rc, out, err)"
    and "rc \<noteq> 0"
  shows "side_returns w a b c label wt" "\<not> side_passes w a b c label wt"
  using assms by (simp_all add: side_returns_def side_passes_def cmd_ok_def)

lemma main_provisioned:
  assumes "snd (load_bundle w a) = Inr b" and "provision_ok w b (new_run w a b)"
  shows "snd (main w a) = snd (verify w a b (new_run w a b))"
    and "json_writes (fst (main w a)) =
           (meta_path (new_run w a b), meta (new_run w a b)) # json_writes (fst (verify w a b (new_run w a b)))"
proof -
  from assms(2) have p: "snd (provision w b (new_run w a b)) = Inr ()"
    by (simp add: provision_Inr_iff)
  show "snd (main w a) = snd (verify w a b (new_run w a b))"
    using assms(1) p by (simp add: main_eq)
  show "json_writes (fst (main w a)) =
           (meta_path (new_run w a b), meta (new_run w a b)) # json_writes (fst (verify w a b (new_run w a b)))"
    using assms by (simp add: json_writes_main meta_path_def)
qed

lemma run_completes:
  assumes l: "snd (load_bundle w a) = Inr b" and c: "c = new_run w a b"
    and p: "provision_ok w b c" and s: "staged_ok w b c"
    and r1: "side_returns w a b c ''before'' (base_dir c)"
    and r2: "side_returns w a b c ''after'' (head_dir c)"
  shows "snd (main w a) = Inr ()"
    and "\<exists>r d1 d2. reports (fst (main w a)) = [(report_path c, r)] \<and>
           snd (build_and_test w a b c ''before'' (base_dir c)) = Inr d1 \<and>
           snd (build_and_test w a b c ''after'' (head_dir c)) = Inr d2 \<and>
           dict_get r ''before'' = JDict d1 \<and> dict_get r ''after'' = JDict d2 \<and>
           dict_get r ''status'' =
             JStr (classify (side_passes w a b c ''before'' (base_dir c))
                            (side_passes w a b c ''after'' (head_dir c)))"
proof -
  from side_outcome [OF r1] obtain d1 where
    d1: "snd (build_and_test w a b c ''before'' (base_dir c)) = Inr d1"
    and t1: "truthy (dict_get d1 ''test_ok'') = side_passes w a b c ''before'' (base_dir c)"
    by blast
  from side_outcome [OF r2] obtain d2 where
    d2: "snd (build_and_test w a b c ''after'' (head_dir c)) = Inr d2"
    and t2: "truthy (dict_get d2 ''test_ok'') = side_passes w a b c ''after'' (head_dir c)"
    by blast
  let ?st = "classify (side_passes w a b c ''before'' (base_dir c))
                      (side_passes w a b c ''after'' (head_dir c))"
  from s d1 d2 have v: "snd (verify w a b c) = Inr ()"
    by (simp add: snd_verify_Inr_iff)
  from p c have p': "provision_ok w b (new_run w a b)" by simp
  from main_provisioned(1) [OF l p'] v c show "snd (main w a) = Inr ()" by simp
  from s d1 d2 t1 t2 have "json_writes (fst (verify w a b c)) = [(report_path c, make_report c ?st d1 d2)]"
    by (simp add: json_writes_verify json_writes_build_and_report)
  with main_provisioned(2) [OF l p'] c
  have "json_writes (fst (main w a)) = [(meta_path c, meta c), (report_path c, make_report c ?st d1 d2)]"
    by simp
  then have "reports (fst (main w a)) = [(report_path c, make_report c ?st d1 d2)]"
    by (simp add: reports_def)
  with d1 d2 show "\<exists>r d1 d2. reports (fst (main w a)) = [(report_path c, r)] \<and>
           snd (build_and_test w a b c ''before'' (base_dir c)) = Inr d1 \<and>
           snd (build_and_test w a b c ''after'' (head_dir c)) = Inr d2 \<and>
           dict_get r ''before'' = JDict d1 \<and> dict_get r ''after'' = JDict d2 \<and>
           dict_get r ''status'' = JStr ?st"
    by (simp add: make_report_get)
qed

lemma run_does_not_complete:
  assumes l: "snd (load_bundle w a) = Inr b" and c: "c = new_run w a b"
    and p: "provision_ok w b c"
    and n: "\<not> (staged_ok w b c \<and> side_returns w a b c ''before'' (base_dir c) \<and>
               side_returns w a b c ''after'' (head_dir c))"
  shows "\<exists>e. snd (main w a) = Inl (Uncaught e)" and "reports (fst (main w a)) = []"
proof -
  have "snd (verify w a b c) \<noteq> Inr ()"
  proof
    assume "snd (verify w a b c) = Inr ()"
    then obtain d1 d2 where s: "staged_ok w b c"
      and d1: "snd (build_and_test w a b c ''before'' (base_dir c)) = Inr d1"
      and d2: "snd (build_and_test w a b c ''after'' (head_dir c)) = Inr d2"
      by (auto simp: snd_verify_Inr_iff)
    from d1 have "side_returns w a b c ''before'' (base_dir c)"
      using side_raises [of w a b c "''before''" "base_dir c"] by auto
    moreover from d2 have "side_returns w a b c ''after'' (head_dir c)"
      using side_raises [of w a b c "''after''" "head_dir c"] by auto
    ultimately show False using s n by simp
  qed
  then obtain x where x: "snd (verify w a b c) = Inl x"
    by (cases "snd (verify w a b c)") simp_all
  from verify_Inl [OF x] obtain e where e: "x = Uncaught e" by blast
  from p c have p': "provision_ok w b (new_run w a b)" by simp
  from main_provisioned(1) [OF l p'] x e c have m: "snd (main w a) = Inl (Uncaught e)" by simp
  then show "\<exists>e. snd (main w a) = Inl (Uncaught e)" by blast
  from main_failed [OF m] show "reports (fst (main w a)) = []" by simp
qed

text \<open>
  C2, as the code has it. When the build of a side returns a non-zero code, the recorded
  outcome has \<^verbatim>\<open>build_ok\<close> false, \<^verbatim>\<open>test_ok\<close> the boolean false (not null),
  \<^verbatim>\<open>test_exit\<close> null, and the only command run for that side is the build: the test
  phase is not executed. Such a side returns an outcome and does not pass. Whether the run
  completes is decided by the world alone: once the bundle has loaded and the workspace
  commands have succeeded, the run returns with status 0 and writes one report, labelled by
  the classification of the two sides, exactly when every copy into the two worktrees
  succeeds and on each side the build command returns and, if it returned zero, the test
  command returns too. Otherwise (a copy raises, or a build or test command times out) the
  exception is not caught: the run ends with status 1 and no report.
\<close>

theorem build_failure_outcome:
  "(subprocess_run w (docker_build_cmd b (image_name c label)) wt (timeout_build a) = Inr (rc, out, err)
      \<and> rc \<noteq> 0 \<longrightarrow>
      (\<exists>d. snd (build_and_test w a b c label wt) = Inr d \<and>
           dict_get d ''build_ok'' = JBool False \<and> dict_get d ''test_ok'' = JBool False \<and>
           dict_get d ''test_exit'' = JNull \<and> dict_get d ''build_exit'' = JInt rc \<and>
           \<not> truthy (dict_get d ''test_ok'')) \<and>
      execs (fst (build_and_test w a b c label wt)) = [(docker_build_cmd b (image_name c label), wt)]) \<and>
   (subprocess_run w (docker_build_cmd b (image_name c label)) wt (timeout_build a) = Inr (rc, out, err)
      \<and> rc \<noteq> 0 \<longrightarrow>
      side_returns w a b c label wt \<and> \<not> side_passes w a b c label wt) \<and>
   (snd (load_bundle w a) = Inr b \<and> c = new_run w a b \<and> provision_ok w b c \<and> staged_ok w b c \<and>
    side_returns w a b c ''before'' (base_dir c) \<and> side_returns w a b c ''after'' (head_dir c) \<longrightarrow>
      snd (main w a) = Inr () \<and> exit_status (snd (main w a)) = 0 \<and>
      (\<exists>r d1 d2. reports (fst (main w a)) = [(report_path c, r)] \<and>
           snd (build_and_test w a b c ''before'' (base_dir c)) = Inr d1 \<and>
           snd (build_and_test w a b c ''after'' (head_dir c)) = Inr d2 \<and>
           dict_get r ''before'' = JDict d1 \<and> dict_get r ''after'' = JDict d2 \<and>
           dict_get r ''status'' =
             JStr (classify (side_passes w a b c ''before'' (base_dir c))
                            (side_passes w a b c ''after'' (head_dir c))))) \<and>
   (snd (load_bundle w a) = Inr b \<and> c = new_run w a b \<and> provision_ok w b c \<and>
    \<not> (staged_ok w b c \<and> side_returns w a b c ''before'' (base_dir c) \<and>
       side_returns w a b c ''after'' (head_dir c)) \<longrightarrow>
      (\<exists>e. snd (main w a) = Inl (Uncaught e)) \<and> exit_status (snd (main w a)) = 1 \<and>
      reports (fst (main w a)) = [])"
proof (intro conjI impI)
  assume h: "subprocess_run w (docker_build_cmd b (image_name c label)) wt (timeout_build a) = Inr (rc, out, err)
      \<and> rc \<noteq> 0"
  then have h1: "subprocess_run w (docker_build_cmd b (image_name c label)) wt (timeout_build a) = Inr (rc, out, err)"
    and h2: "rc \<noteq> 0" by simp_all
  have "snd (build_and_test w a b c label wt) = Inr (fail_outcome c label rc)"
    by (rule build_fails_eq(1) [OF h1 h2])
  then show "\<exists>d. snd (build_and_test w a b c label wt) = Inr d \<and>
           dict_get d ''build_ok'' = JBool False \<and> dict_get d ''test_ok'' = JBool False \<and>
           dict_get d ''test_exit'' = JNull \<and> dict_get d ''build_exit'' = JInt rc \<and>
           \<not> truthy (dict_get d ''test_ok'')"
    by (simp add: fail_outcome_get)
  show "execs (fst (build_and_test w a b c label wt)) = [(docker_build_cmd b (image_name c label), wt)]"
    by (rule build_fails_eq(2) [OF h1 h2])
next
  assume h: "subprocess_run w (docker_build_cmd b (image_name c label)) wt (timeout_build a) = Inr (rc, out, err)
      \<and> rc \<noteq> 0"
  then have h1: "subprocess_run w (docker_build_cmd b (image_name c label)) wt (timeout_build a) = Inr (rc, out, err)"
    and h2: "rc \<noteq> 0" by simp_all
  show "side_returns w a b c label wt" by (rule build_failed_side(1) [OF h1 h2])
  show "\<not> side_passes w a b c label wt" by (rule build_failed_side(2) [OF h1 h2])
next
  assume h: "snd (load_bundle w a) = Inr b \<and> c = new_run w a b \<and> provision_ok w b c \<and> staged_ok w b c \<and>
    side_returns w a b c ''before'' (base_dir c) \<and> side_returns w a b c ''after'' (head_dir c)"
  then have l: "snd (load_bundle w a) = Inr b" and c: "c = new_run w a b"
    and p: "provision_ok w b c" and s: "staged_ok w b c"
    and r1: "side_returns w a b c ''before'' (base_dir c)"
    and r2: "side_returns w a b c ''after'' (head_dir c)"
    by - (elim conjE, assumption)+
  show m: "snd (main w a) = Inr ()" by (rule run_completes(1) [OF l c p s r1 r2])
  show "exit_status (snd (main w a)) = 0" unfolding m by (simp add: exit_status_def)
  show "\<exists>r d1 d2. reports (fst (main w a)) = [(report_path c, r)] \<and>
           snd (build_and_test w a b c ''before'' (base_dir c)) = Inr d1 \<and>
           snd (build_and_test w a b c ''after'' (head_dir c)) = Inr d2 \<and>
           dict_get r ''before'' = JDict d1 \<and> dict_get r ''after'' = JDict d2 \<and>
           dict_get r ''status'' =
             JStr (classify (side_passes w a b c ''before'' (base_dir c))
                            (side_passes w a b c ''after'' (head_dir c)))"
    by (rule run_completes(2) [OF l c p s r1 r2])
next
  assume h: "snd (load_bundle w a) = Inr b \<and> c = new_run w a b \<and> provision_ok w b c \<and>
    \<not> (staged_ok w b c \<and> side_returns w a b c ''before'' (base_dir c) \<and>
       side_returns w a b c ''after'' (head_dir c))"
  then have l: "snd (load_bundle w a) = Inr b" and c: "c = new_run w a b"
    and p: "provision_ok w b c"
    and n: "\<not> (staged_ok w b c \<and> side_returns w a b c ''before'' (base_dir c) \<and>
       side_returns w a b c ''after'' (head_dir c))"
    by - (elim conjE, assumption)+
  from run_does_not_complete(1) [OF l c p n] obtain e where e: "snd (main w a) = Inl (Uncaught e)"
    by blast
  then show "\<exists>e. snd (main w a) = Inl (Uncaught e)" by blast
  show "exit_status (snd (main w a)) = 1" unfolding e by (simp add: exit_status_def)
  show "reports (fst (main w a)) = []" by (rule run_does_not_complete(2) [OF l c p n])
qed

lemma ex_build_after:
  "snd (build_and_test (ex_world ex_issue run_build_fails) ex_args ex_bundle ex_ctx ''after'' (head_dir ex_ctx))
   = Inr (fail_outcome ex_ctx ''after'' 1)"
  by (simp add: build_and_test_eq ex_world_def run_build_fails_def docker_build_cmd_def)

lemma ex_head_dirs: "basename (head_dir c) = ''head''" "basename (base_dir c) = ''base''"
  unfolding head_dir_def base_dir_def by (rule basename_joinpath, simp)+

lemma ex_head_build:
  "subprocess_run (ex_world ex_issue run_head_build_fails)
     (docker_build_cmd ex_bundle (image_name ex_ctx ''after'')) (head_dir ex_ctx) (timeout_build ex_args)
   = Inr (1, [], ''build failed'')"
  by (simp add: ex_world_def run_head_build_fails_def docker_build_cmd_def ex_head_dirs)

lemma ex_head_provision_ok: "provision_ok (ex_world ex_issue run_head_build_fails) ex_bundle ex_ctx"
  by (simp add: provision_ok_def cmd_ok_def ex_world_def run_head_build_fails_def clone_cmd_def
      fetch_cmd_def worktree_add_cmd_def apply_cmd_def)

lemma ex_staged_ok: "staged_ok (ex_world ex_issue run) ex_bundle ex_ctx"
  by (simp add: staged_ok_def copies_ok_def ex_world_def list_all_iff)

lemma ex_head_before:
  "side_returns (ex_world ex_issue run_head_build_fails) ex_args ex_bundle ex_ctx ''before'' (base_dir ex_ctx)"
  "side_passes (ex_world ex_issue run_head_build_fails) ex_args ex_bundle ex_ctx ''before'' (base_dir ex_ctx)"
  by (simp_all add: side_returns_def side_passes_def cmd_ok_def ex_world_def run_head_build_fails_def
      docker_build_cmd_def docker_run_cmd_def ex_head_dirs)

lemma ex_timeout_provision_ok: "provision_ok (ex_world ex_issue run_after_build_times_out) ex_bundle ex_ctx"
  by (simp add: provision_ok_def cmd_ok_def ex_world_def run_after_build_times_out_def clone_cmd_def
      fetch_cmd_def worktree_add_cmd_def apply_cmd_def)

lemma ex_timeout_after:
  "\<not> side_returns (ex_world ex_issue run_after_build_times_out) ex_args ex_bundle ex_ctx ''after'' (head_dir ex_ctx)"
  by (simp add: side_returns_def ex_world_def run_after_build_times_out_def docker_build_cmd_def ex_head_dirs)

lemma ex_timeout_before:
  "snd (build_and_test (ex_world ex_issue run_after_build_times_out) ex_args ex_bundle ex_ctx ''before'' (base_dir ex_ctx))
   = Inr (fail_outcome ex_ctx ''before'' 1)"
  by (simp add: build_and_test_eq ex_world_def run_after_build_times_out_def docker_build_cmd_def ex_head_dirs)

lemma ex_timeout_main:
  "snd (main (ex_world ex_issue run_after_build_times_out) ex_args) = Inl (Uncaught TimeoutExpired)"
  by code_simp

lemma ex_timeout_reports:
  "reports (fst (main (ex_world ex_issue run_after_build_times_out) ex_args)) = []"
  using main_failed [OF ex_timeout_main] by simp

lemma ex_copy_load: "snd (load_bundle ex_world_copy_fails ex_args) = Inr ex_bundle"
  by code_simp

lemma ex_copy_new_run: "new_run ex_world_copy_fails ex_args ex_bundle = ex_ctx"
  by (simp add: new_run_def Let_def ex_ctx_def ex_world_copy_fails_def ex_world_def ex_stamps
      ex_bundle_def ex_args_def make_run_id_def str_int_def str_nat.simps digit_char_def char_of_def
      bit_0 joinpath_def)

lemma ex_copy_provision_ok: "provision_ok ex_world_copy_fails ex_bundle ex_ctx"
  by (simp add: provision_ok_def cmd_ok_def ex_world_copy_fails_def ex_world_def run_all_ok_def)

lemma ex_copy_not_staged: "\<not> staged_ok ex_world_copy_fails ex_bundle ex_ctx"
  by (simp add: staged_ok_def copies_ok_def ex_world_copy_fails_def)

theorem build_failure_outcome_witness:
  "(\<exists>d. snd (build_and_test (ex_world ex_issue run_head_build_fails) ex_args ex_bundle ex_ctx ''after'' (head_dir ex_ctx)) = Inr d \<and>
        dict_get d ''build_ok'' = JBool False \<and> dict_get d ''test_ok'' = JBool False \<and>
        dict_get d ''test_exit'' = JNull \<and> dict_get d ''build_exit'' = JInt 1) \<and>
   execs (fst (build_and_test (ex_world ex_issue run_head_build_fails) ex_args ex_bundle ex_ctx ''after'' (head_dir ex_ctx))) =
     [(docker_build_cmd ex_bundle (image_name ex_ctx ''after''), head_dir ex_ctx)] \<and>
   side_returns (ex_world ex_issue run_head_build_fails) ex_args ex_bundle ex_ctx ''after'' (head_dir ex_ctx) \<and>
   \<not> side_passes (ex_world ex_issue run_head_build_fails) ex_args ex_bundle ex_ctx ''after'' (head_dir ex_ctx) \<and>
   snd (load_bundle (ex_world ex_issue run_head_build_fails) ex_args) = Inr ex_bundle \<and>
   ex_ctx = new_run (ex_world ex_issue run_head_build_fails) ex_args ex_bundle \<and>
   provision_ok (ex_world ex_issue run_head_build_fails) ex_bundle ex_ctx \<and>
   staged_ok (ex_world ex_issue run_head_build_fails) ex_bundle ex_ctx \<and>
   side_returns (ex_world ex_issue run_head_build_fails) ex_args ex_bundle ex_ctx ''before'' (base_dir ex_ctx) \<and>
   snd (main (ex_world ex_issue run_head_build_fails) ex_args) = Inr () \<and>
   exit_status (snd (main (ex_world ex_issue run_head_build_fails) ex_args)) = 0 \<and>
   (\<exists>r. reports (fst (main (ex_world ex_issue run_head_build_fails) ex_args)) = [(report_path ex_ctx, r)] \<and>
        dict_get r ''status'' = JStr ''pass2fail'') \<and>
   snd (load_bundle (ex_world ex_issue run_after_build_times_out) ex_args) = Inr ex_bundle \<and>
   provision_ok (ex_world ex_issue run_after_build_times_out) ex_bundle ex_ctx \<and>
   staged_ok (ex_world ex_issue run_after_build_times_out) ex_bundle ex_ctx \<and>
   \<not> side_returns (ex_world ex_issue run_after_build_times_out) ex_args ex_bundle ex_ctx ''after'' (head_dir ex_ctx) \<and>
   (\<exists>e. snd (main (ex_world ex_issue run_after_build_times_out) ex_args) = Inl (Uncaught e)) \<and>
   exit_status (snd (main (ex_world ex_issue run_after_build_times_out) ex_args)) = 1 \<and>
   reports (fst (main (ex_world ex_issue run_after_build_times_out) ex_args)) = [] \<and>
   snd (load_bundle ex_world_copy_fails ex_args) = Inr ex_bundle \<and>
   provision_ok ex_world_copy_fails ex_bundle ex_ctx \<and>
   \<not> staged_ok ex_world_copy_fails ex_bundle ex_ctx \<and>
   (\<exists>e. snd (main ex_world_copy_fails ex_args) = Inl (Uncaught e)) \<and>
   exit_status (snd (main ex_world_copy_fails ex_args)) = 1 \<and>
   reports (fst (main ex_world_copy_fails ex_args)) = []"
proof -
  let ?h = "ex_world ex_issue run_head_build_fails"
  let ?t = "ex_world ex_issue run_after_build_times_out"
  let ?c = "ex_world_copy_fails"
  note th = build_failure_outcome [of ?h ex_bundle ex_ctx "''after''" "head_dir ex_ctx" ex_args 1 "[]"
      "''build failed''"]
  note tt = build_failure_outcome [of ?t ex_bundle ex_ctx "''after''" "head_dir ex_ctx" ex_args 1 "[]"
      "''build failed''"]
  note tc = build_failure_outcome [of ?c ex_bundle ex_ctx "''after''" "head_dir ex_ctx" ex_args 1 "[]"
      "''build failed''"]
  have h1: "subprocess_run ?h (docker_build_cmd ex_bundle (image_name ex_ctx ''after'')) (head_dir ex_ctx)
      (timeout_build ex_args) = Inr (1, [], ''build failed'') \<and> (1::int) \<noteq> 0"
    using ex_head_build by simp
  from th [THEN conjunct1, THEN mp, OF h1]
  have a1: "\<exists>d. snd (build_and_test ?h ex_args ex_bundle ex_ctx ''after'' (head_dir ex_ctx)) = Inr d \<and>
        dict_get d ''build_ok'' = JBool False \<and> dict_get d ''test_ok'' = JBool False \<and>
        dict_get d ''test_exit'' = JNull \<and> dict_get d ''build_exit'' = JInt 1"
    and a2: "execs (fst (build_and_test ?h ex_args ex_bundle ex_ctx ''after'' (head_dir ex_ctx))) =
     [(docker_build_cmd ex_bundle (image_name ex_ctx ''after''), head_dir ex_ctx)]"
    by blast+
  from th [THEN conjunct2, THEN conjunct1, THEN mp, OF h1]
  have b1: "side_returns ?h ex_args ex_bundle ex_ctx ''after'' (head_dir ex_ctx)"
    and b2: "\<not> side_passes ?h ex_args ex_bundle ex_ctx ''after'' (head_dir ex_ctx)"
    by (rule conjunct1, rule conjunct2)
  note lh = ex_load_bundle_any [of run_head_build_fails]
  note nh = ex_new_run_any [of run_head_build_fails, symmetric]
  note ph = ex_head_provision_ok
  note sh = ex_staged_ok [of run_head_build_fails]
  note rh = ex_head_before(1)
  have h3: "snd (load_bundle ?h ex_args) = Inr ex_bundle \<and> ex_ctx = new_run ?h ex_args ex_bundle \<and>
      provision_ok ?h ex_bundle ex_ctx \<and> staged_ok ?h ex_bundle ex_ctx \<and>
      side_returns ?h ex_args ex_bundle ex_ctx ''before'' (base_dir ex_ctx) \<and>
      side_returns ?h ex_args ex_bundle ex_ctx ''after'' (head_dir ex_ctx)"
    using lh nh ph sh rh b1 by (intro conjI)
  note c3 = th [THEN conjunct2, THEN conjunct2, THEN conjunct1, THEN mp, OF h3]
  from c3 have c1: "snd (main ?h ex_args) = Inr ()" by (rule conjunct1)
  from c3 have c2: "exit_status (snd (main ?h ex_args)) = 0" by (elim conjE)
  from c3 obtain r where r: "reports (fst (main ?h ex_args)) = [(report_path ex_ctx, r)]"
    and st: "dict_get r ''status'' =
             JStr (classify (side_passes ?h ex_args ex_bundle ex_ctx ''before'' (base_dir ex_ctx))
                            (side_passes ?h ex_args ex_bundle ex_ctx ''after'' (head_dir ex_ctx)))"
    by (elim conjE exE)
  from st b2 ex_head_before(2) have "dict_get r ''status'' = JStr ''pass2fail''"
    by (simp add: classify_def)
  with r have c4: "\<exists>r. reports (fst (main ?h ex_args)) = [(report_path ex_ctx, r)] \<and>
        dict_get r ''status'' = JStr ''pass2fail''"
    by blast
  note lt = ex_load_bundle_any [of run_after_build_times_out]
  note nt = ex_new_run_any [of run_after_build_times_out, symmetric]
  note pt = ex_timeout_provision_ok
  note st' = ex_staged_ok [of run_after_build_times_out]
  note rt = ex_timeout_after
  have h4: "snd (load_bundle ?t ex_args) = Inr ex_bundle \<and> ex_ctx = new_run ?t ex_args ex_bundle \<and>
      provision_ok ?t ex_bundle ex_ctx \<and>
      \<not> (staged_ok ?t ex_bundle ex_ctx \<and>
         side_returns ?t ex_args ex_bundle ex_ctx ''before'' (base_dir ex_ctx) \<and>
         side_returns ?t ex_args ex_bundle ex_ctx ''after'' (head_dir ex_ctx))"
    using lt nt pt rt by simp
  note d = tt [THEN conjunct2, THEN conjunct2, THEN conjunct2, THEN mp, OF h4]
  from d have d1: "\<exists>e. snd (main ?t ex_args) = Inl (Uncaught e)" by (rule conjunct1)
  from d have d2: "exit_status (snd (main ?t ex_args)) = 1" by (elim conjE)
  from d have d3: "reports (fst (main ?t ex_args)) = []" by (elim conjE)
  note lc = ex_copy_load
  note pc = ex_copy_provision_ok
  note sc = ex_copy_not_staged
  have h5: "snd (load_bundle ?c ex_args) = Inr ex_bundle \<and> ex_ctx = new_run ?c ex_args ex_bundle \<and>
      provision_ok ?c ex_bundle ex_ctx \<and>
      \<not> (staged_ok ?c ex_bundle ex_ctx \<and>
         side_returns ?c ex_args ex_bundle ex_ctx ''before'' (base_dir ex_ctx) \<and>
         side_returns ?c ex_args ex_bundle ex_ctx ''after'' (head_dir ex_ctx))"
    using lc ex_copy_new_run [symmetric] pc sc by simp
  note e = tc [THEN conjunct2, THEN conjunct2, THEN conjunct2, THEN mp, OF h5]
  from e have e1: "\<exists>e. snd (main ?c ex_args) = Inl (Uncaught e)" by (rule conjunct1)
  from e have e2: "exit_status (snd (main ?c ex_args)) = 1" by (elim conjE)
  from e have e3: "reports (fst (main ?c ex_args)) = []" by (elim conjE)
  from a1 a2 b1 b2 lh nh ph sh rh c1 c2 c4 lt pt st' rt d1 d2 d3 lc pc sc e1 e2 e3
  show ?thesis by (intro conjI)
qed

text \<open>
  The claim as worded fails twice. After a failed build the recorded \<^verbatim>\<open>test_ok\<close> is
  the boolean false, which is not null. And a failed build does not make the run complete:
  in a run whose before-side build returns 1 (recorded with \<^verbatim>\<open>build_ok\<close> false) and
  whose after-side build times out, the timeout is not caught, the run ends with status 1
  and no report is written.
\<close>

theorem build_failure_counterexample:
  "map_sum id (\<lambda>d. dict_get d ''test_ok'')
     (snd (build_and_test (ex_world ex_issue run_build_fails) ex_args ex_bundle ex_ctx ''after'' (head_dir ex_ctx)))
   = Inr (JBool False) \<and> JBool False \<noteq> JNull \<and>
   snd (load_bundle (ex_world ex_issue run_after_build_times_out) ex_args) = Inr ex_bundle \<and>
   new_run (ex_world ex_issue run_after_build_times_out) ex_args ex_bundle = ex_ctx \<and>
   map_sum id (\<lambda>d. dict_get d ''build_ok'')
     (snd (build_and_test (ex_world ex_issue run_after_build_times_out) ex_args ex_bundle ex_ctx ''before'' (base_dir ex_ctx)))
   = Inr (JBool False) \<and>
   subprocess_run (ex_world ex_issue run_after_build_times_out)
     (docker_build_cmd ex_bundle (image_name ex_ctx ''after'')) (head_dir ex_ctx) (timeout_build ex_args)
   = Inl TimeoutExpired \<and>
   snd (main (ex_world ex_issue run_after_build_times_out) ex_args) = Inl (Uncaught TimeoutExpired) \<and>
   exit_status (snd (main (ex_world ex_issue run_after_build_times_out) ex_args)) = 1 \<and>
   reports (fst (main (ex_world ex_issue run_after_build_times_out) ex_args)) = []"
proof -
  have t: "subprocess_run (ex_world ex_issue run_after_build_times_out)
     (docker_build_cmd ex_bundle (image_name ex_ctx ''after'')) (head_dir ex_ctx) (timeout_build ex_args)
   = Inl TimeoutExpired"
    by (simp add: ex_world_def run_after_build_times_out_def docker_build_cmd_def ex_head_dirs)
  have s: "exit_status (snd (main (ex_world ex_issue run_after_build_times_out) ex_args)) = 1"
    by (simp add: ex_timeout_main exit_status_def)
  show ?thesis
    using t s
    by (simp add: ex_build_after ex_timeout_before fail_outcome_get ex_load_bundle_any ex_new_run_any
        ex_timeout_main ex_timeout_reports)
qed

end
